(* ===== verification/Lago_Prelude.thy ===== *)
theory Lago_Prelude
  imports Complex_Main "HOL-Library.Word" "HOL-Library.Signed_Division"
begin

text \<open>
  Shared vocabulary of the development: the machine integers of the target (32-bit ARM:
  \<open>int\<close>, \<open>long\<close> and pointers are 32 bits wide), the ways a C program can stop short of
  its result, and a state monad with such stops, in which every stateful function of the
  program is written.  A computation of type \<open>('s, 'a) cm\<close> takes a state and gives
  \<open>Inl\<close> the reason it stopped or \<open>Inr\<close> its value and the next state.
\<close>

unbundle bit_operations_syntax

section \<open>Machine integers\<close>

type_synonym u8 = "8 word"
type_synonym u16 = "16 word"
type_synonym u32 = "32 word"

text \<open>
  Signed 32-bit values are integers; \<open>wrap32\<close> is what a 32-bit register keeps of a
  result, \<open>wrap16\<close> the conversion to \<open>int16_t\<close>.
\<close>

definition wrap32 :: "int \<Rightarrow> int" where
  "wrap32 x = signed_take_bit 31 x"

definition wrap16 :: "int \<Rightarrow> int" where
  "wrap16 x = signed_take_bit 15 x"

definition in_s32 :: "int \<Rightarrow> bool" where
  "in_s32 x \<longleftrightarrow> - 2147483648 \<le> x \<and> x < 2147483648"

text \<open>Conversions to and from the unsigned type of the same width.\<close>

definition to_u32 :: "int \<Rightarrow> u32" where
  "to_u32 x = word_of_int x"

definition of_u32 :: "u32 \<Rightarrow> int" where
  "of_u32 w = sint w"

lemma signed_take_bit_id:
  "- (2 ^ n) \<le> x \<Longrightarrow> x < 2 ^ n \<Longrightarrow> signed_take_bit n x = (x :: int)"
  by (simp add: signed_take_bit_int_eq_self)

lemma wrap32_id [simp]: "in_s32 x \<Longrightarrow> wrap32 x = x"
  by (simp add: wrap32_def in_s32_def signed_take_bit_int_eq_self)

lemma wrap32_in_s32 [simp]: "in_s32 (wrap32 x)"
  using signed_take_bit_int_greater_eq_minus_exp [of 31 x]
    signed_take_bit_int_less_exp [of 31 x]
  by (simp add: wrap32_def in_s32_def)

lemma in_s32I: "- 2147483648 \<le> x \<Longrightarrow> x < 2147483648 \<Longrightarrow> in_s32 x"
  by (simp add: in_s32_def)

lemma of_u32_to_u32 [simp]: "in_s32 x \<Longrightarrow> of_u32 (to_u32 x) = x"
  by (simp add: of_u32_def to_u32_def in_s32_def signed_of_int signed_take_bit_int_eq_self)

lemma of_u32_in_s32 [simp]: "in_s32 (of_u32 w)"
  using sint_greater_eq [of w] sint_less [of w] by (simp add: of_u32_def in_s32_def)

lemma to_u32_of_u32 [simp]: "to_u32 (of_u32 w) = w"
  by (simp add: of_u32_def to_u32_def)

lemma uint_to_u32: "0 \<le> k \<Longrightarrow> k < 4294967296 \<Longrightarrow> uint (to_u32 k) = k"
  by (simp add: to_u32_def take_bit_int_eq_self uint_word_of_int)

section \<open>How a C program stops short\<close>

text \<open>
  \<open>NullDeref\<close>, \<open>OutOfBounds\<close>, \<open>Unaligned\<close> (an access to device memory off its word
  grid), \<open>Uninit\<close> (a variable read before it is set), \<open>DivByZero\<close>, \<open>BadShift\<close> and \<open>BadConv\<close> (a floating
  value converted to an integer type that cannot hold it) are undefined behaviour;
  \<open>ExitWith\<close> is a call of \<open>exit\<close>; \<open>Blocked\<close> is a call that waits for input which the
  environment never gives.
\<close>

datatype stop =
  NullDeref | OutOfBounds | Unaligned | Uninit | DivByZero | BadShift | BadConv
| ExitWith int | Blocked

type_synonym 'a res = "stop + 'a"

type_synonym ('s, 'a) cm = "'s \<Rightarrow> stop + ('a \<times> 's)"

named_theorems cm_defs "unfolding rules of the state monad with stops"

definition bind_res :: "'a res \<Rightarrow> ('a \<Rightarrow> 'b res) \<Rightarrow> 'b res" where
  "bind_res r f = (case r of Inl e \<Rightarrow> Inl e | Inr a \<Rightarrow> f a)"

lemma bind_res_simps [simp]:
  "bind_res (Inl e) f = Inl e"
  "bind_res (Inr a) f = f a"
  by (simp_all add: bind_res_def)

lemma bind_res_Inr_iff:
  "bind_res r f = Inr b \<longleftrightarrow> (\<exists>a. r = Inr a \<and> f a = Inr b)"
  by (cases r) auto

definition ret_c :: "'a \<Rightarrow> ('s, 'a) cm" where
  [cm_defs]: "ret_c a = (\<lambda>s. Inr (a, s))"

definition stop_c :: "stop \<Rightarrow> ('s, 'a) cm" where
  [cm_defs]: "stop_c e = (\<lambda>s. Inl e)"

definition bind_c :: "('s, 'a) cm \<Rightarrow> ('a \<Rightarrow> ('s, 'b) cm) \<Rightarrow> ('s, 'b) cm" where
  [cm_defs]: "bind_c m f = (\<lambda>s. case m s of Inl e \<Rightarrow> Inl e | Inr (a, s') \<Rightarrow> f a s')"

definition then_c :: "('s, 'a) cm \<Rightarrow> ('s, 'b) cm \<Rightarrow> ('s, 'b) cm" where
  [cm_defs]: "then_c m n = (\<lambda>s. case m s of Inl e \<Rightarrow> Inl e | Inr (a, s') \<Rightarrow> n s')"

definition get_c :: "('s \<Rightarrow> 'a) \<Rightarrow> ('s, 'a) cm" where
  [cm_defs]: "get_c f = (\<lambda>s. Inr (f s, s))"

definition mod_c :: "('s \<Rightarrow> 's) \<Rightarrow> ('s, unit) cm" where
  [cm_defs]: "mod_c f = (\<lambda>s. Inr ((), f s))"

definition lift_c :: "'a res \<Rightarrow> ('s, 'a) cm" where
  [cm_defs]: "lift_c r = (\<lambda>s. case r of Inl e \<Rightarrow> Inl e | Inr a \<Rightarrow> Inr (a, s))"

definition if_c :: "bool \<Rightarrow> ('s, unit) cm \<Rightarrow> ('s, unit) cm" where
  [cm_defs]: "if_c b m = (if b then m else (\<lambda>s. Inr ((), s)))"

text \<open>Inversion: what it takes for a computation to return.\<close>

named_theorems cm_inv "inversion rules of the state monad with stops"

lemma bind_c_Inr [cm_inv]: "bind_c m f s = Inr (b, s') \<longleftrightarrow> (\<exists>a t. m s = Inr (a, t) \<and> f a t = Inr (b, s'))"
  by (auto simp: bind_c_def split: sum.splits)

lemma then_c_Inr [cm_inv]: "then_c m n s = Inr (b, s') \<longleftrightarrow> (\<exists>a t. m s = Inr (a, t) \<and> n t = Inr (b, s'))"
  by (auto simp: then_c_def split: sum.splits)

lemma basic_c_Inr [cm_inv]:
  "ret_c a s = Inr (b, s') \<longleftrightarrow> b = a \<and> s' = s"
  "stop_c e s = Inr (b, s') \<longleftrightarrow> False"
  "get_c f s = Inr (x, s') \<longleftrightarrow> x = f s \<and> s' = s"
  "mod_c g s = Inr (u, s') \<longleftrightarrow> s' = g s"
  "lift_c r s = Inr (y, s') \<longleftrightarrow> r = Inr y \<and> s' = s"
  by (auto simp: ret_c_def stop_c_def get_c_def mod_c_def lift_c_def split: sum.splits)

lemma if_c_Inr [cm_inv]: "if_c c m s = Inr (u, s') \<longleftrightarrow> (if c then m s = Inr (u, s') else s' = s)"
  by (auto simp: if_c_def)

text \<open>A straight-line block of statements, and a loop over a list of indices.\<close>

fun seq_c :: "('s, unit) cm list \<Rightarrow> ('s, unit) cm" where
  "seq_c [] = (\<lambda>s. Inr ((), s))"
| "seq_c (m # ms) = (\<lambda>s. case m s of Inl e \<Rightarrow> Inl e | Inr (_, s') \<Rightarrow> seq_c ms s')"

fun for_c :: "'i list \<Rightarrow> ('i \<Rightarrow> ('s, unit) cm) \<Rightarrow> ('s, unit) cm" where
  "for_c [] body = (\<lambda>s. Inr ((), s))"
| "for_c (i # is) body = (\<lambda>s. case body i s of Inl e \<Rightarrow> Inl e | Inr (_, s') \<Rightarrow> for_c is body s')"

lemma for_c_append:
  "for_c (xs @ ys) body s =
     (case for_c xs body s of Inl e \<Rightarrow> Inl e | Inr (_, s') \<Rightarrow> for_c ys body s')"
  by (induction xs arbitrary: s) (auto split: sum.splits)

lemma for_c_invariant:
  assumes "for_c xs body s = Inr (u, s')" and "I s"
    and "\<And>i s v s'. i \<in> set xs \<Longrightarrow> I s \<Longrightarrow> body i s = Inr (v, s') \<Longrightarrow> I s'"
  shows "I s'"
  using assms
proof (induction xs arbitrary: s)
  case (Cons x xs)
  from Cons.prems(1) obtain v t where step: "body x s = Inr (v, t)" and rest: "for_c xs body t = Inr (u, s')"
    by (auto split: sum.splits)
  from Cons.prems(3) [OF _ Cons.prems(2) step] have "I t" by simp
  then show ?case using Cons.IH [OF rest] Cons.prems(3) by (meson list.set_intros(2))
qed simp

lemma for_c_total:
  assumes "I s" and "\<And>i s. i \<in> set xs \<Longrightarrow> I s \<Longrightarrow> \<exists>s'. body i s = Inr ((), s') \<and> I s'"
  shows "\<exists>s'. for_c xs body s = Inr ((), s') \<and> I s'"
  using assms
proof (induction xs arbitrary: s)
  case (Cons x xs)
  from Cons.prems(2) [of x s] Cons.prems(1) obtain t
    where "body x s = Inr ((), t)" and "I t" by auto
  with Cons.IH [of t] Cons.prems(2) show ?case by simp
qed simp

text \<open>The standard streams, the base of every program state.\<close>

record cio =
  c_out :: string
  c_err :: string

definition printf :: "string \<Rightarrow> ('a cio_scheme, unit) cm" where
  [cm_defs]: "printf t = (\<lambda>s. Inr ((), s\<lparr>c_out := c_out s @ t\<rparr>))"

definition eprintf :: "string \<Rightarrow> ('a cio_scheme, unit) cm" where
  [cm_defs]: "eprintf t = (\<lambda>s. Inr ((), s\<lparr>c_err := c_err s @ t\<rparr>))"

lemma printf_Inr [cm_inv]:
  "printf t s = Inr (u, s') \<longleftrightarrow> s' = s\<lparr>c_out := c_out s @ t\<rparr>"
  "eprintf t s = Inr (u, s') \<longleftrightarrow> s' = s\<lparr>c_err := c_err s @ t\<rparr>"
  by (auto simp: printf_def eprintf_def)

section \<open>Invariants of computations\<close>

text \<open>
  \<open>pres P m\<close>: whenever \<open>m\<close> returns from a state with \<open>P\<close>, the new state has \<open>P\<close>; with \<open>P\<close> of the
  form \<open>f s = c\<close> this says that \<open>m\<close> leaves \<open>f\<close> alone.  The rules follow the structure of a computation.
\<close>

definition pres :: "('s \<Rightarrow> bool) \<Rightarrow> ('s, 'a) cm \<Rightarrow> bool" where
  "pres P m \<longleftrightarrow> (\<forall>s v s'. P s \<longrightarrow> m s = Inr (v, s') \<longrightarrow> P s')"

named_theorems pres_intro "invariance of computations, by structure"

lemma presD: "pres P m \<Longrightarrow> m s = Inr (v, s') \<Longrightarrow> P s \<Longrightarrow> P s'"
  by (auto simp: pres_def)

lemma pres_bind [pres_intro]: "pres P m \<Longrightarrow> (\<And>a. pres P (f a)) \<Longrightarrow> pres P (bind_c m f)"
  unfolding pres_def bind_c_Inr by blast

lemma pres_then [pres_intro]: "pres P m \<Longrightarrow> pres P n \<Longrightarrow> pres P (then_c m n)"
  unfolding pres_def then_c_Inr by blast

lemma pres_ret [pres_intro]: "pres P (ret_c a)" "pres P (stop_c e)" "pres P (get_c f)" "pres P (lift_c r)"
  by (auto simp: pres_def basic_c_Inr)

lemma pres_mod: "(\<And>s. P s \<Longrightarrow> P (g s)) \<Longrightarrow> pres P (mod_c g)"
  by (auto simp: pres_def basic_c_Inr)

lemma pres_if_c [pres_intro]: "(c \<Longrightarrow> pres P m) \<Longrightarrow> pres P (if_c c m)"
  unfolding pres_def if_c_Inr by (auto split: if_splits)

lemma pres_if [pres_intro]: "(c \<Longrightarrow> pres P m) \<Longrightarrow> (\<not> c \<Longrightarrow> pres P n) \<Longrightarrow> pres P (if c then m else n)"
  by auto

lemma pres_option [pres_intro]: "(x = None \<Longrightarrow> pres P m) \<Longrightarrow> (\<And>y. x = Some y \<Longrightarrow> pres P (n y)) \<Longrightarrow> pres P (case x of None \<Rightarrow> m | Some y \<Rightarrow> n y)"
  by (cases x) auto

lemma pres_prod [pres_intro]: "(\<And>a b. pres P (f a b)) \<Longrightarrow> pres P (case x of (a, b) \<Rightarrow> f a b)"
  by (cases x) auto

lemma pres_seq [pres_intro]: "(\<And>m. m \<in> set ms \<Longrightarrow> pres P m) \<Longrightarrow> pres P (seq_c ms)"
proof (induction ms)
  case (Cons m ms)
  have "seq_c (m # ms) = then_c m (seq_c ms)" by (simp add: then_c_def)
  then show ?case using Cons pres_then [of P m "seq_c ms"] by simp
qed (simp add: pres_def)

lemma pres_for [pres_intro]: "(\<And>i. i \<in> set xs \<Longrightarrow> pres P (body i)) \<Longrightarrow> pres P (for_c xs body)"
  unfolding pres_def using for_c_invariant [of xs body _ _ _ P] by meson

lemma pres_out: "(\<And>s t. P s \<Longrightarrow> P (s\<lparr>c_out := t\<rparr>)) \<Longrightarrow> pres P (printf x)"
  "(\<And>s t. P s \<Longrightarrow> P (s\<lparr>c_err := t\<rparr>)) \<Longrightarrow> pres P (eprintf x)"
  by (auto simp: pres_def printf_Inr)

text \<open>
  \<open>runs I m\<close>: from every state with \<open>I\<close>, \<open>m\<close> returns, in a state with \<open>I\<close>; the total counterpart.
\<close>

definition runs :: "('s \<Rightarrow> bool) \<Rightarrow> ('s, 'a) cm \<Rightarrow> bool" where
  "runs I m \<longleftrightarrow> (\<forall>s. I s \<longrightarrow> (\<exists>v s'. m s = Inr (v, s') \<and> I s'))"

named_theorems runs_intro "computations that return, by structure"

lemma runsD: "runs I m \<Longrightarrow> I s \<Longrightarrow> \<exists>v s'. m s = Inr (v, s') \<and> I s'"
  by (auto simp: runs_def)

lemma runs_bind [runs_intro]: "runs I m \<Longrightarrow> (\<And>a. runs I (f a)) \<Longrightarrow> runs I (bind_c m f)"
  unfolding runs_def bind_c_Inr by blast

lemma runs_then [runs_intro]: "runs I m \<Longrightarrow> runs I n \<Longrightarrow> runs I (then_c m n)"
  unfolding runs_def then_c_Inr by blast

lemma runs_basic [runs_intro]: "runs I (ret_c a)" "runs I (get_c f)"
  by (auto simp: runs_def basic_c_Inr)

lemma runs_mod: "(\<And>s. I s \<Longrightarrow> I (g s)) \<Longrightarrow> runs I (mod_c g)"
  by (auto simp: runs_def basic_c_Inr)

lemma runs_if_c [runs_intro]: "(c \<Longrightarrow> runs I m) \<Longrightarrow> runs I (if_c c m)"
  by (auto simp: runs_def if_c_def)

lemma runs_if [runs_intro]: "(c \<Longrightarrow> runs I m) \<Longrightarrow> (\<not> c \<Longrightarrow> runs I n) \<Longrightarrow> runs I (if c then m else n)"
  by auto

lemma runs_prod [runs_intro]: "(\<And>a b. runs I (f a b)) \<Longrightarrow> runs I (case x of (a, b) \<Rightarrow> f a b)"
  by (cases x) auto

lemma runs_seq [runs_intro]: "(\<And>m. m \<in> set ms \<Longrightarrow> runs I m) \<Longrightarrow> runs I (seq_c ms)"
proof (induction ms)
  case (Cons m ms)
  have "seq_c (m # ms) = then_c m (seq_c ms)" by (simp add: then_c_def)
  then show ?case using Cons runs_then [of I m "seq_c ms"] by simp
qed (simp add: runs_def)

lemma runs_for [runs_intro]: "(\<And>i. i \<in> set xs \<Longrightarrow> runs I (body i)) \<Longrightarrow> runs I (for_c xs body)"
proof (induction xs)
  case (Cons x xs)
  have "for_c (x # xs) body = then_c (body x) (for_c xs body)" by (simp add: then_c_def)
  then show ?case using Cons runs_then [of I "body x" "for_c xs body"] by simp
qed (simp add: runs_def)

lemma runs_out: "(\<And>s t. I s \<Longrightarrow> I (s\<lparr>c_out := t\<rparr>)) \<Longrightarrow> runs I (printf x)"
  "(\<And>s t. I s \<Longrightarrow> I (s\<lparr>c_err := t\<rparr>)) \<Longrightarrow> runs I (eprintf x)"
  by (auto simp: runs_def printf_Inr)

section \<open>Index ranges with a stride\<close>

text \<open>\<open>for (i = lo; i < hi; i += k)\<close> visits \<open>lo, lo + k, \<dots>\<close> below \<open>hi\<close>.\<close>

function stride :: "nat \<Rightarrow> nat \<Rightarrow> nat \<Rightarrow> nat list" where
  "stride k lo hi = (if lo < hi \<and> 0 < k then lo # stride k (lo + k) hi else [])"
  by pat_completeness auto
termination
  by (relation "measure (\<lambda>(k, lo, hi). hi - lo)") auto

declare stride.simps [simp del]

lemma stride_empty [simp]: "hi \<le> lo \<Longrightarrow> stride k lo hi = []"
  by (simp add: stride.simps [of k lo hi])

lemma stride_Cons: "lo < hi \<Longrightarrow> 0 < k \<Longrightarrow> stride k lo hi = lo # stride k (lo + k) hi"
  by (simp add: stride.simps [of k lo hi])

lemma stride_mult: "0 < k \<Longrightarrow> stride k lo (lo + k * n) = map (\<lambda>j. lo + k * j) [0..<n]"
proof (induction n arbitrary: lo)
  case (Suc n)
  have "stride k lo (lo + k * Suc n) = lo # stride k (lo + k) ((lo + k) + k * n)"
    using Suc.prems by (simp add: stride_Cons algebra_simps)
  also have "\<dots> = lo # map (\<lambda>j. (lo + k) + k * j) [0..<n]"
    using Suc by simp
  also have "\<dots> = map (\<lambda>j. lo + k * j) [0..<Suc n]"
    by (simp add: upt_conv_Cons map_Suc_upt [symmetric] del: upt_Suc)
  finally show ?case .
qed simp

lemma stride_append:
  assumes "0 < k"
  shows "stride k lo (lo + k * (m + n)) =
    stride k lo (lo + k * m) @ stride k (lo + k * m) (lo + k * m + k * n)"
proof -
  have "[0..<m + n] = [0..<m] @ map (\<lambda>j. j + m) [0..<n]"
    using upt_add_eq_append [of 0 m n] map_add_upt [of m n] by (simp add: add.commute)
  then have "map (\<lambda>j. lo + k * j) [0..<m + n] =
      map (\<lambda>j. lo + k * j) [0..<m] @ map (\<lambda>j. lo + k * m + k * j) [0..<n]"
    by (simp add: algebra_simps)
  then show ?thesis using assms by (simp only: stride_mult)
qed

lemma set_stride: "i \<in> set (stride k lo hi) \<Longrightarrow> lo \<le> i \<and> i < hi"
proof (induction k lo hi rule: stride.induct)
  case (1 k lo hi)
  then show ?case
    by (cases "lo < hi \<and> 0 < k") (auto simp: stride.simps [of k lo hi])
qed

end
