(* ===== verification/C_Float.thy ===== *)
theory C_Float
  imports Lago_Prelude "HOL-Library.Log_Nat"
begin

text \<open>
  The floating-point arithmetic of the program.  The target computes \<open>float\<close> in IEEE
  binary32 and \<open>double\<close> in binary64, rounding to nearest with ties to even.  A finite
  floating value is the rational number it denotes, and every operation is the exact
  operation followed by \<open>fl p\<close>, rounding to \<open>p\<close> significant bits.  The exponent range is
  unbounded: the quantities of the program (voltages, degrees, pressures) stay far from
  overflow and from subnormal numbers.  Infinities, NaN and the sign of zero are not
  represented.  What the clients need of rounding is the locale \<open>fp_round\<close>, which both
  formats satisfy.
\<close>

section \<open>Rounding\<close>

definition rnd_even :: "rat \<Rightarrow> int" where
  "rnd_even x = (let f = \<lfloor>x\<rfloor>; r = x - of_int f in
     if r < 1/2 then f else if 1/2 < r then f + 1 else if even f then f else f + 1)"

definition pow2 :: "int \<Rightarrow> rat" where
  "pow2 k = (if 0 \<le> k then 2 ^ nat k else 1 / 2 ^ nat (- k))"

text \<open>The exponent \<open>e\<close> with \<open>2\<^sup>e \<le> x < 2\<^sup>e\<^sup>+\<^sup>1\<close>, from the lengths of numerator and denominator.\<close>

definition ilog2 :: "rat \<Rightarrow> int" where
  "ilog2 x = (let (n, d) = quotient_of x; e = bitlen n - bitlen d in
     if pow2 e \<le> x then e else e - 1)"

definition fl :: "int \<Rightarrow> rat \<Rightarrow> rat" where
  "fl p x = (if x = 0 then 0
     else let u = pow2 (ilog2 \<bar>x\<bar> - p + 1) in of_int (rnd_even (x / u)) * u)"

abbreviation f32 :: "rat \<Rightarrow> rat" where
  "f32 x \<equiv> fl 24 x"

abbreviation f64 :: "rat \<Rightarrow> rat" where
  "f64 x \<equiv> fl 53 x"

text \<open>Conversion to an integer type drops the fraction; C99 \<open>round\<close> takes halves away from zero.\<close>

definition trunc_rat :: "rat \<Rightarrow> int" where
  "trunc_rat x = (if 0 \<le> x then \<lfloor>x\<rfloor> else - \<lfloor>- x\<rfloor>)"

definition round_away :: "rat \<Rightarrow> int" where
  "round_away x = (if 0 \<le> x then \<lfloor>x + 1/2\<rfloor> else - \<lfloor>- x + 1/2\<rfloor>)"

definition float_to_u32 :: "rat \<Rightarrow> u32 res" where
  "float_to_u32 x = (if - 1 < x \<and> x < 4294967296 then Inr (to_u32 (trunc_rat x)) else Inl BadConv)"

definition float_to_s32 :: "rat \<Rightarrow> int res" where
  "float_to_s32 x = (if - 2147483649 < x \<and> x < 2147483648 then Inr (trunc_rat x) else Inl BadConv)"

section \<open>The error of one rounding\<close>

lemma pow2_pos [simp]: "0 < pow2 k"
  by (simp add: pow2_def)

lemma pow2_nonneg [simp]: "0 \<le> pow2 k"
  by (simp add: less_imp_le)

lemma pow2_neq_0 [simp]: "pow2 k \<noteq> 0"
  using pow2_pos [of k] by linarith

lemma pow2_powi: "pow2 k = 2 powi k"
  by (auto simp: pow2_def power_int_def field_simps)

lemma pow2_add: "pow2 (j + k) = pow2 j * pow2 k"
  by (simp add: pow2_powi power_int_add)

lemma pow2_diff: "pow2 (j - k) = pow2 j / pow2 k"
  by (simp add: pow2_powi power_int_diff)

lemma pow2_mono: "j \<le> k \<Longrightarrow> pow2 j \<le> pow2 k"
  by (simp add: pow2_powi power_int_increasing)

lemma pow2_Suc: "pow2 (k + 1) = 2 * pow2 k"
  by (simp add: pow2_add) (simp add: pow2_def)

lemma rnd_even_err: "\<bar>of_int (rnd_even x) - x\<bar> \<le> 1/2"
proof -
  have "of_int \<lfloor>x\<rfloor> \<le> x" and "x < of_int \<lfloor>x\<rfloor> + 1" by linarith+
  then show ?thesis by (auto simp: rnd_even_def Let_def abs_le_iff field_simps)
qed

lemma rnd_even_of_int [simp]: "rnd_even (of_int k) = k"
  by (simp add: rnd_even_def)

lemma rnd_even_mono: "x \<le> y \<Longrightarrow> rnd_even x \<le> rnd_even y"
proof -
  assume le: "x \<le> y"
  then have fl: "\<lfloor>x\<rfloor> \<le> \<lfloor>y\<rfloor>" by (rule floor_mono)
  show ?thesis
  proof (cases "\<lfloor>x\<rfloor> = \<lfloor>y\<rfloor>")
    case True
    then show ?thesis using le by (auto simp: rnd_even_def Let_def)
  next
    case False
    with fl have "\<lfloor>x\<rfloor> + 1 \<le> \<lfloor>y\<rfloor>" by simp
    then show ?thesis by (auto simp: rnd_even_def Let_def)
  qed
qed

lemma bitlen_pow2_bounds:
  assumes "0 < n"
  shows "pow2 (bitlen n - 1) \<le> of_int n" and "of_int n < pow2 (bitlen n)"
proof -
  have b: "0 < bitlen n" using assms bitlen_eq_zero_iff [of n] bitlen_nonneg [of n] by linarith
  have "(of_int (2 ^ nat (bitlen n - 1)) :: rat) \<le> of_int n"
    and "(of_int n :: rat) < of_int (2 ^ nat (bitlen n))"
    using bitlen_bounds [OF assms] by (simp_all only: of_int_le_iff of_int_less_iff)
  then show "pow2 (bitlen n - 1) \<le> of_int n" and "of_int n < pow2 (bitlen n)"
    using b by (simp_all add: pow2_def)
qed

lemma ilog2_bounds:
  assumes "0 < x"
  shows "pow2 (ilog2 x) \<le> x" and "x < 2 * pow2 (ilog2 x)"
proof -
  obtain n d where q: "quotient_of x = (n, d)" by (cases "quotient_of x")
  then have x: "x = of_int n / of_int d" and d: "0 < d"
    by (auto simp: quotient_of_div quotient_of_denom_pos)
  with assms have n: "0 < n" by (simp add: zero_less_divide_iff)
  let ?e = "bitlen n - bitlen d"
  note bn = bitlen_pow2_bounds [OF n] and bd = bitlen_pow2_bounds [OF d]
  have "x < pow2 (bitlen n) / of_int d"
    using bn(2) d unfolding x by (simp add: divide_strict_right_mono)
  also have "\<dots> \<le> pow2 (bitlen n) / pow2 (bitlen d - 1)"
    using bd(1) by (intro divide_left_mono) (auto simp: d)
  also have "\<dots> = 2 * pow2 ?e"
    by (simp add: pow2_diff) (simp add: pow2_def)
  finally have up: "x < 2 * pow2 ?e" .
  have "pow2 ?e / 2 = pow2 (bitlen n - 1) / pow2 (bitlen d)"
    by (simp add: pow2_diff) (simp add: pow2_def)
  also have "\<dots> \<le> of_int n / pow2 (bitlen d)"
    using bn(1) by (intro divide_right_mono) auto
  also have "\<dots> \<le> x"
    using bd(2) n d unfolding x by (intro divide_left_mono) auto
  finally have lo: "pow2 ?e / 2 \<le> x" .
  have "2 * pow2 (?e - 1) = pow2 ?e" using pow2_Suc [of "?e - 1"] by simp
  with up lo show "pow2 (ilog2 x) \<le> x" and "x < 2 * pow2 (ilog2 x)"
    by (auto simp: ilog2_def q Let_def)
qed

lemma ilog2_unique:
  assumes "pow2 e \<le> x" and "x < 2 * pow2 e"
  shows "ilog2 x = e"
proof -
  have pos: "0 < x" using assms(1) pow2_pos [of e] by linarith
  note b = ilog2_bounds [OF pos]
  have "pow2 (ilog2 x) < pow2 (e + 1)" using b(1) assms(2) by (simp add: pow2_Suc)
  then have "ilog2 x < e + 1" using pow2_mono [of "e + 1" "ilog2 x"] by linarith
  moreover have "pow2 e < pow2 (ilog2 x + 1)" using assms(1) b(2) by (simp add: pow2_Suc)
  then have "e < ilog2 x + 1" using pow2_mono [of "ilog2 x + 1" e] by linarith
  ultimately show ?thesis by linarith
qed

lemma abs_scale:
  fixes u :: rat
  assumes "0 < u"
  shows "\<bar>a * u - x\<bar> = \<bar>a - x / u\<bar> * u"
proof -
  have "a * u - x = (a - x / u) * u" using assms by (simp add: left_diff_distrib)
  then show ?thesis using assms by (simp add: abs_mult)
qed

lemma fl_0 [simp]: "fl p 0 = 0"
  by (simp add: fl_def)

text \<open>The relative error of rounding to \<open>p\<close> bits is at most \<open>2\<^sup>-\<^sup>p\<close>.\<close>

lemma fl_err: "\<bar>fl p x - x\<bar> \<le> \<bar>x\<bar> * pow2 (- p)"
proof (cases "x = 0")
  case False
  let ?u = "pow2 (ilog2 \<bar>x\<bar> - p + 1)"
  have "\<bar>fl p x - x\<bar> = \<bar>of_int (rnd_even (x / ?u)) - x / ?u\<bar> * ?u"
    using False by (simp add: fl_def Let_def abs_scale)
  also have "\<dots> \<le> 1/2 * ?u"
    by (intro mult_right_mono rnd_even_err) (simp add: less_imp_le)
  also have "\<dots> = pow2 (ilog2 \<bar>x\<bar>) * pow2 (- p)"
    using pow2_add [of "ilog2 \<bar>x\<bar>" "1 - p"] pow2_add [of 1 "- p"]
    by (simp add: algebra_simps) (simp add: pow2_def)
  also have "\<dots> \<le> \<bar>x\<bar> * pow2 (- p)"
    using ilog2_bounds(1) [of "\<bar>x\<bar>"] False by (intro mult_right_mono) (auto simp: less_imp_le)
  finally show ?thesis .
qed simp

text \<open>Values that already fit in \<open>p\<close> bits are not changed, integers below \<open>2\<^sup>p\<close> among them.\<close>

lemma fl_exact_int:
  assumes "\<bar>of_int k\<bar> < pow2 p"
  shows "fl p (of_int k) = of_int k"
proof (cases "k = 0")
  case False
  let ?x = "of_int k :: rat"
  let ?e = "ilog2 \<bar>?x\<bar>"
  have "pow2 ?e \<le> \<bar>?x\<bar>" using False by (intro ilog2_bounds) simp
  then have "pow2 ?e < pow2 p" using assms by simp
  then have e: "?e - p + 1 \<le> 0" using pow2_mono [of p ?e] by linarith
  define j where "j = nat (- (?e - p + 1))"
  have u: "pow2 (?e - p + 1) = 1 / 2 ^ j"
    using e by (cases "?e - p + 1 = 0") (auto simp: pow2_def j_def)
  have "?x / pow2 (?e - p + 1) = of_int (k * 2 ^ j)" by (simp add: u)
  then have "rnd_even (?x / pow2 (?e - p + 1)) = k * 2 ^ j" by (simp only: rnd_even_of_int)
  then show ?thesis using False by (simp add: fl_def Let_def u)
qed simp

section \<open>Symmetry, scaling and exact values\<close>

lemma rnd_even_minus: "rnd_even (- x) = - rnd_even x"
proof (cases "x \<in> \<int>")
  case True
  then obtain k where "x = of_int k" by (elim Ints_cases)
  then show ?thesis using rnd_even_of_int [of "- k"] by simp
next
  case False
  then have f: "\<lfloor>- x\<rfloor> = - \<lfloor>x\<rfloor> - 1" by (metis ceiling_altdef ceiling_def Ints_of_int floor_minus add.inverse_inverse minus_add_distrib diff_conv_add_uminus)
  have r: "- x - of_int \<lfloor>- x\<rfloor> = 1 - (x - of_int \<lfloor>x\<rfloor>)" by (simp add: f)
  have e: "even \<lfloor>- x\<rfloor> \<longleftrightarrow> odd \<lfloor>x\<rfloor>" by (simp add: f)
  show ?thesis unfolding rnd_even_def Let_def r e by (auto simp: f)
qed

lemma fl_minus: "fl p (- x) = - fl p x"
  by (simp add: fl_def Let_def rnd_even_minus)

lemma fl_minus_diff: "fl p (- x - y) = - fl p (x + y)"
  using fl_minus [of p "x + y"] by simp

lemma trunc_rat_minus: "trunc_rat (- x) = - trunc_rat x"
  by (auto simp: trunc_rat_def)

lemma round_away_minus: "round_away (- x) = - round_away x"
proof (cases "x = 0")
  case False
  then show ?thesis by (auto simp: round_away_def)
qed (simp add: round_away_def floor_eq_iff)

lemma ilog2_scale: "0 < x \<Longrightarrow> ilog2 (x * pow2 j) = ilog2 x + j"
  using ilog2_bounds [of x] by (intro ilog2_unique) (simp_all add: pow2_add)

lemma fl_scale: "fl p (x * pow2 j) = fl p x * pow2 j"
proof (cases "x = 0")
  case False
  then have "ilog2 \<bar>x * pow2 j\<bar> = ilog2 \<bar>x\<bar> + j" using ilog2_scale [of "\<bar>x\<bar>" j] by (simp add: abs_mult)
  then have "pow2 (ilog2 \<bar>x * pow2 j\<bar> - p + 1) = pow2 (ilog2 \<bar>x\<bar> - p + 1) * pow2 j"
    by (simp add: pow2_add [symmetric] algebra_simps)
  then show ?thesis using False by (simp add: fl_def Let_def)
qed simp

text \<open>A dyadic number whose numerator fits in the significand is exact.\<close>

lemma fl_exact_dyadic: "\<bar>of_int k\<bar> < pow2 p \<Longrightarrow> fl p (of_int k / 2 ^ n) = of_int k / 2 ^ n"
proof -
  assume k: "\<bar>of_int k\<bar> < pow2 p"
  have "(of_int k :: rat) / 2 ^ n = of_int k * pow2 (- int n)" by (cases "n = 0") (simp_all add: pow2_def)
  then show ?thesis using fl_scale [of p "of_int k" "- int n"] fl_exact_int [OF k] by simp
qed

lemma round_away_err: "\<bar>of_int (round_away x) - x\<bar> \<le> 1/2"
  unfolding round_away_def abs_le_iff by (cases "0 \<le> x") (simp_all only: if_True if_False, linarith+)

lemma round_away_of_int [simp]: "round_away (of_int k) = k"
  by (simp add: round_away_def) linarith

section \<open>What the clients use of rounding\<close>

text \<open>
  The interface of a floating format: the unit roundoff bounds the relative error of every
  operation, and integers that fit in the significand are exact.
\<close>

locale fp_round =
  fixes rnd :: "rat \<Rightarrow> rat" and ulp :: rat
  assumes rnd_err: "\<bar>rnd x - x\<bar> \<le> \<bar>x\<bar> * ulp"
    and ulp_pos: "0 < ulp"
    and ulp_small: "ulp \<le> 1 / 16777216"
    and rnd_int: "\<bar>k\<bar> < 16777216 \<Longrightarrow> rnd (of_int k) = of_int k"
begin

lemma rnd_bounds: "0 \<le> x \<Longrightarrow> x * (1 - ulp) \<le> rnd x \<and> rnd x \<le> x * (1 + ulp)"
  using rnd_err [of x] by (simp add: abs_le_iff algebra_simps)

lemma rnd_nonneg: "0 \<le> x \<Longrightarrow> 0 \<le> rnd x"
proof -
  assume x: "0 \<le> x"
  have "0 \<le> x * (1 - ulp)" using x ulp_small by simp
  then show ?thesis using rnd_bounds [OF x] by linarith
qed

lemma rnd_zero: "rnd 0 = 0"
  using rnd_int [of 0] by simp

lemma rnd_near: "\<bar>x\<bar> \<le> b \<Longrightarrow> \<bar>rnd x - x\<bar> \<le> b * ulp"
  using rnd_err [of x] ulp_pos by (meson mult_right_mono less_imp_le order_trans)

text \<open>Two roundings in a row: the error of an operation on an already rounded operand.\<close>

lemma rnd_near_trans:
  assumes "\<bar>y - x\<bar> \<le> d" and "\<bar>x\<bar> \<le> b"
  shows "\<bar>rnd y - x\<bar> \<le> d + (b + d) * ulp"
proof -
  have "\<bar>y\<bar> \<le> b + d" using assms by linarith
  then have "\<bar>rnd y - y\<bar> \<le> (b + d) * ulp" by (rule rnd_near)
  then show ?thesis using assms(1) by linarith
qed

end

text \<open>Both formats of the program satisfy it.\<close>

lemma pow2_numerals: "pow2 24 = 16777216" "pow2 (- 24) = 1 / 16777216"
  "pow2 53 = 9007199254740992" "pow2 (- 53) = 1 / 9007199254740992"
  by (simp_all add: pow2_def)

lemma fl_int:
  assumes "\<bar>k\<bar> < 16777216" and "16777216 \<le> pow2 p"
  shows "fl p (of_int k) = of_int k"
proof (rule fl_exact_int)
  have "(of_int \<bar>k\<bar> :: rat) < of_int 16777216" using assms(1) by (simp only: of_int_less_iff)
  then show "\<bar>of_int k\<bar> < pow2 p" using assms(2) by simp
qed

interpretation fp32: fp_round "fl 24" "1 / 16777216"
proof
  show "\<bar>fl 24 x - x\<bar> \<le> \<bar>x\<bar> * (1 / 16777216)" for x
    using fl_err [of 24 x] by (simp add: pow2_numerals)
qed (simp_all add: fl_int pow2_numerals)

interpretation fp64: fp_round "fl 53" "1 / 9007199254740992"
proof
  show "\<bar>fl 53 x - x\<bar> \<le> \<bar>x\<bar> * (1 / 9007199254740992)" for x
    using fl_err [of 53 x] by (simp add: pow2_numerals)
qed (simp_all add: fl_int pow2_numerals)

lemma dyadic_exact_53: "\<bar>k\<bar> < 9007199254740992 \<Longrightarrow> f64 (of_int k / 2 ^ n) = of_int k / 2 ^ n"
proof -
  assume k: "\<bar>k\<bar> < 9007199254740992"
  have "(of_int \<bar>k\<bar> :: rat) < of_int 9007199254740992" using k by (simp only: of_int_less_iff)
  then show ?thesis by (intro fl_exact_dyadic) (simp add: pow2_numerals)
qed

lemma int_exact_53: "\<bar>k\<bar> < 9007199254740992 \<Longrightarrow> f64 (of_int k) = of_int k"
  using dyadic_exact_53 [of k 0] by simp

end
