(* ===== verification/C_String.thy ===== *)
theory C_String
  imports C_Float
begin

text \<open>
  The parts of the C library the program uses on text: string search, the number parsers
  \<open>strtol\<close>, \<open>atoi\<close>, \<open>atof\<close>, and the conversions of \<open>printf\<close>.  A C string is the list of
  its characters before the terminating NUL; a pointer into it is a suffix.  \<open>atof\<close> reads
  decimal numbers with an optional exponent (not the hexadecimal, infinity and NaN forms).
\<close>

section \<open>Search\<close>

definition nul :: char where
  "nul = CHR 0x00"

text \<open>The string that starts in a buffer: everything up to its NUL, which must be there.\<close>

fun cstr :: "string \<Rightarrow> string res" where
  "cstr [] = Inl OutOfBounds"
| "cstr (c # cs) = (if c = nul then Inr [] else bind_res (cstr cs) (\<lambda>r. Inr (c # r)))"

fun strchr :: "string \<Rightarrow> char \<Rightarrow> string option" where
  "strchr [] c = None"
| "strchr (x # xs) c = (if x = c then Some (x # xs) else strchr xs c)"

text \<open>\<open>strchr(s, c) + 1\<close>, a pointer that is about to be read through.\<close>

definition after_chr :: "string \<Rightarrow> char \<Rightarrow> string res" where
  "after_chr s c = (case strchr s c of None \<Rightarrow> Inl NullDeref | Some t \<Rightarrow> Inr (tl t))"

fun starts_with :: "string \<Rightarrow> string \<Rightarrow> bool" where
  "starts_with [] s = True"
| "starts_with (p # ps) [] = False"
| "starts_with (p # ps) (x # xs) = (p = x \<and> starts_with ps xs)"

fun strstr :: "string \<Rightarrow> string \<Rightarrow> bool" where
  "strstr [] pat = (pat = [])"
| "strstr (x # xs) pat = (starts_with pat (x # xs) \<or> strstr xs pat)"

section \<open>Reading numbers\<close>

definition chr_val :: "char \<Rightarrow> int" where
  "chr_val c = of_char c"

definition is_space :: "char \<Rightarrow> bool" where
  "is_space c \<longleftrightarrow> chr_val c = 32 \<or> (9 \<le> chr_val c \<and> chr_val c \<le> 13)"

definition is_digit :: "char \<Rightarrow> bool" where
  "is_digit c \<longleftrightarrow> 48 \<le> chr_val c \<and> chr_val c \<le> 57"

text \<open>The value of a digit in any base up to 36; 99 for a character that is none.\<close>

definition digit_val :: "char \<Rightarrow> int" where
  "digit_val c = (let v = chr_val c in
     if 48 \<le> v \<and> v \<le> 57 then v - 48
     else if 97 \<le> v \<and> v \<le> 122 then v - 87
     else if 65 \<le> v \<and> v \<le> 90 then v - 55 else 99)"

fun skip_space :: "string \<Rightarrow> string" where
  "skip_space [] = []"
| "skip_space (c # cs) = (if is_space c then skip_space cs else c # cs)"

fun digit_run :: "int \<Rightarrow> int \<Rightarrow> string \<Rightarrow> int \<times> string" where
  "digit_run base acc [] = (acc, [])"
| "digit_run base acc (c # cs) =
     (if digit_val c < base then digit_run base (acc * base + digit_val c) cs else (acc, c # cs))"

definition sign_of :: "string \<Rightarrow> bool \<times> string" where
  "sign_of s = (case s of [] \<Rightarrow> (False, [])
     | c # cs \<Rightarrow> if c = CHR ''-'' then (True, cs) else if c = CHR ''+'' then (False, cs) else (False, c # cs))"

text \<open>\<open>strtol\<close> and \<open>strtoul\<close> saturate at the limits of the 32-bit \<open>long\<close>.\<close>

definition skip_0x :: "string \<Rightarrow> string" where
  "skip_0x s = (case s of a # b # c # cs \<Rightarrow>
       if a = CHR ''0'' \<and> (b = CHR ''x'' \<or> b = CHR ''X'') \<and> digit_val c < 16 then c # cs else s
     | _ \<Rightarrow> s)"

definition strtol10 :: "string \<Rightarrow> int" where
  "strtol10 s = (let (neg, t) = sign_of (skip_space s); v = fst (digit_run 10 0 t);
       x = (if neg then - v else v) in max (- 2147483648) (min 2147483647 x))"

definition strtol16 :: "string \<Rightarrow> int" where
  "strtol16 s = (let (neg, t) = sign_of (skip_space s); v = fst (digit_run 16 0 (skip_0x t));
       x = (if neg then - v else v) in max (- 2147483648) (min 2147483647 x))"

definition strtoul16 :: "string \<Rightarrow> u32" where
  "strtoul16 s = (let (neg, t) = sign_of (skip_space s); v = fst (digit_run 16 0 (skip_0x t)) in
       if 4294967295 < v then to_u32 4294967295 else to_u32 (if neg then - v else v))"

definition atoi :: "string \<Rightarrow> int" where
  "atoi s = strtol10 s"

text \<open>
  The fraction part is read as digits with their count, so that the value is a ratio; the
  exponent counts only if a digit follows the \<open>e\<close> and its sign.
\<close>

fun frac_run :: "int \<Rightarrow> nat \<Rightarrow> string \<Rightarrow> int \<times> nat \<times> string" where
  "frac_run acc n [] = (acc, n, [])"
| "frac_run acc n (c # cs) =
     (if is_digit c then frac_run (acc * 10 + digit_val c) (Suc n) cs else (acc, n, c # cs))"

definition frac_part :: "int \<Rightarrow> string \<Rightarrow> int \<times> nat \<times> string" where
  "frac_part acc s = (case s of [] \<Rightarrow> (acc, 0, [])
     | c # cs \<Rightarrow> if c = CHR ''.'' then frac_run acc 0 cs else (acc, 0, c # cs))"

definition exp_part :: "string \<Rightarrow> int" where
  "exp_part s = (case s of [] \<Rightarrow> 0
     | c # cs \<Rightarrow> if c = CHR ''e'' \<or> c = CHR ''E'' then
         (let (neg, t) = sign_of cs; v = fst (digit_run 10 0 t) in if neg then - v else v)
       else 0)"

definition pow10 :: "int \<Rightarrow> rat" where
  "pow10 k = (if 0 \<le> k then 10 ^ nat k else 1 / 10 ^ nat (- k))"

definition atof :: "string \<Rightarrow> rat" where
  "atof s = (let (neg, t) = sign_of (skip_space s);
       (ip, t1) = digit_run 10 0 t;
       (m, n, t2) = frac_part ip t1;
       v = f64 (of_int m * pow10 (exp_part t2 - int n)) in if neg then - v else v)"

section \<open>Printing numbers\<close>

definition digit_chr :: "int \<Rightarrow> char" where
  "digit_chr d = char_of (if d < 10 then d + 48 else d + 87)"

function digits :: "int \<Rightarrow> int \<Rightarrow> string" where
  "digits base n = (if n < base \<or> base < 2 then [digit_chr n]
     else digits base (n div base) @ [digit_chr (n mod base)])"
  by pat_completeness auto
termination
proof (relation "measure (\<lambda>(base, n). nat n)")
  fix base n :: int
  assume "\<not> (n < base \<or> base < 2)"
  then have "n div base < n" and "0 < n" by (auto intro: int_div_less_self)
  then show "((base, n div base), base, n) \<in> measure (\<lambda>(base, n). nat n)"
    by (simp add: nat_less_iff)
qed simp

declare digits.simps [simp del]

definition pad_left :: "char \<Rightarrow> nat \<Rightarrow> string \<Rightarrow> string" where
  "pad_left c w s = replicate (w - length s) c @ s"

text \<open>\<open>%d\<close>, \<open>%5d\<close>, \<open>%02d\<close>, \<open>%u\<close>, \<open>%x\<close>, \<open>%08x\<close>.\<close>

definition fmt_d :: "int \<Rightarrow> string" where
  "fmt_d n = (if n < 0 then CHR ''-'' # digits 10 (- n) else digits 10 n)"

definition fmt_wd :: "nat \<Rightarrow> int \<Rightarrow> string" where
  "fmt_wd w n = pad_left CHR '' '' w (fmt_d n)"

definition fmt_0d :: "nat \<Rightarrow> int \<Rightarrow> string" where
  "fmt_0d w n = (if n < 0 then CHR ''-'' # pad_left CHR ''0'' (w - 1) (digits 10 (- n))
     else pad_left CHR ''0'' w (digits 10 n))"

definition fmt_u :: "u32 \<Rightarrow> string" where
  "fmt_u w = digits 10 (uint w)"

definition fmt_x :: "u32 \<Rightarrow> string" where
  "fmt_x w = digits 16 (uint w)"

definition fmt_08x :: "u32 \<Rightarrow> string" where
  "fmt_08x w = pad_left CHR ''0'' 8 (digits 16 (uint w))"

text \<open>\<open>%.<n>f\<close>: the value is exact, so the decimal rounding is to nearest, ties to even.\<close>

definition fmt_f :: "nat \<Rightarrow> rat \<Rightarrow> string" where
  "fmt_f n x = (let m = rnd_even (\<bar>x\<bar> * 10 ^ n); ip = m div 10 ^ n; fp = m mod 10 ^ n;
       body = digits 10 ip @ (if n = 0 then [] else CHR ''.'' # pad_left CHR ''0'' n (digits 10 fp))
     in if x < 0 then CHR ''-'' # body else body)"

section \<open>Laws of search\<close>

lemma cstr_append_nul [simp]: "nul \<notin> set s \<Longrightarrow> cstr (s @ nul # t) = Inr s"
  by (induction s) auto

lemma cstr_Inr: "cstr buf = Inr s \<Longrightarrow> \<exists>t. buf = s @ nul # t \<and> nul \<notin> set s"
proof (induction buf arbitrary: s)
  case (Cons c cs)
  show ?case
  proof (cases "c = nul")
    case False
    with Cons.prems obtain r where "cstr cs = Inr r" and "s = c # r"
      by (auto simp: bind_res_Inr_iff)
    with Cons.IH False show ?thesis by auto
  qed (use Cons.prems in auto)
qed simp

lemma strchr_append [simp]: "c \<notin> set f \<Longrightarrow> strchr (f @ s) c = strchr s c"
  by (induction f) auto

lemma after_chr_append [simp]: "c \<notin> set f \<Longrightarrow> after_chr (f @ c # s) c = Inr s"
  by (simp add: after_chr_def)

lemma strchr_None_iff: "strchr s c = None \<longleftrightarrow> c \<notin> set s"
  by (induction s) auto

lemma strchr_Some: "strchr s c = Some t \<Longrightarrow> \<exists>f r. s = f @ c # r \<and> c \<notin> set f \<and> t = c # r"
proof (induction s)
  case (Cons x xs)
  show ?case
  proof (cases "x = c")
    case False
    with Cons obtain f r where "xs = f @ c # r" "c \<notin> set f" "t = c # r" by auto
    with False show ?thesis by (intro exI [of _ "x # f"] exI [of _ r]) auto
  qed (use Cons.prems in auto)
qed simp

lemma starts_with_iff: "starts_with p s \<longleftrightarrow> (\<exists>t. s = p @ t)"
  by (induction p s rule: starts_with.induct) auto

lemma strstr_iff: "pat \<noteq> [] \<Longrightarrow> strstr s pat \<longleftrightarrow> (\<exists>a b. s = a @ pat @ b)"
proof (induction s)
  case (Cons x xs)
  have "(\<exists>a b. x # xs = a @ pat @ b) \<longleftrightarrow>
      (\<exists>b. x # xs = pat @ b) \<or> (\<exists>a b. xs = a @ pat @ b)"
    (is "?l \<longleftrightarrow> ?r")
  proof
    assume ?l
    then obtain a b where eq: "x # xs = a @ pat @ b" by blast
    then show ?r by (cases a) auto
  next
    assume ?r
    then show ?l by (metis append_Cons append_Nil)
  qed
  with Cons show ?case by (simp add: starts_with_iff)
qed simp

section \<open>Laws of the number parsers\<close>

lemma digit_val_digit_chr: "0 \<le> d \<Longrightarrow> d < 16 \<Longrightarrow> digit_val (digit_chr d) = d"
  by (simp add: digit_val_def digit_chr_def chr_val_def of_char_of Let_def)

lemma digit_run_digits:
  assumes "2 \<le> b" and "b \<le> 16" and "0 \<le> n"
  shows "\<exists>w. \<forall>acc rest. digit_run b acc (digits b n @ rest) = digit_run b (acc * w + n) rest"
  using assms
proof (induction b n rule: digits.induct)
  case (1 b n)
  show ?case
  proof (cases "n < b")
    case True
    with 1 show ?thesis
      by (intro exI [of _ b]) (simp add: digits.simps [of b n] digit_val_digit_chr)
  next
    case False
    with 1 obtain w where w: "\<And>acc rest. digit_run b acc (digits b (n div b) @ rest)
        = digit_run b (acc * w + n div b) rest"
      by (auto simp: pos_imp_zdiv_nonneg_iff)
    have b: "\<not> b < 2" using 1 by simp
    have m: "digit_val (digit_chr (n mod b)) = n mod b" "n mod b < b"
      using 1 by (auto intro!: digit_val_digit_chr intro: order_less_le_trans [OF pos_mod_bound])
    have "digit_run b acc (digits b n @ rest) = digit_run b (acc * (w * b) + n) rest" for acc rest
    proof -
      have "(acc * w + n div b) * b + n mod b = acc * (w * b) + n"
        by (simp add: algebra_simps)
      with False b m show ?thesis
        by (simp add: digits.simps [of b n] w)
    qed
    then show ?thesis by blast
  qed
qed

text \<open>Reading back a printed number, in base 10 and in base 16.\<close>

lemma digit_run_digits_0:
  assumes "2 \<le> b" "b \<le> 16" "0 \<le> n"
  shows "digit_run b 0 (digits b n @ rest) = digit_run b n rest"
  using digit_run_digits [OF assms] by (metis add_0 mult_zero_left)

lemma digits_hd:
  assumes "0 \<le> n" "2 \<le> b" "b \<le> 16"
  shows "\<exists>d ds. digits b n = digit_chr d # ds \<and> 0 \<le> d \<and> d < b"
  using assms
proof (induction b n rule: digits.induct)
  case (1 b n)
  show ?case
  proof (cases "n < b")
    case True
    with 1 show ?thesis by (intro exI [of _ n] exI [of _ "[]"]) (simp add: digits.simps [of b n])
  next
    case False
    with 1 obtain d ds where "digits b (n div b) = digit_chr d # ds" "0 \<le> d" "d < b"
      by (auto simp: pos_imp_zdiv_nonneg_iff)
    with False 1 show ?thesis by (auto simp: digits.simps [of b n])
  qed
qed

lemma digit_chr_plain:
  assumes "0 \<le> d" "d < 10"
  shows "\<not> is_space (digit_chr d)" "digit_chr d \<noteq> CHR ''-''" "digit_chr d \<noteq> CHR ''+''"
proof -
  have v: "chr_val (digit_chr d) = d + 48"
    using assms by (simp add: digit_chr_def chr_val_def of_char_of)
  then show "\<not> is_space (digit_chr d)" using assms by (simp add: is_space_def)
  have "chr_val CHR ''-'' = 45" "chr_val CHR ''+'' = 43" by (simp_all add: chr_val_def)
  with v assms show "digit_chr d \<noteq> CHR ''-''" "digit_chr d \<noteq> CHR ''+''" by auto
qed

lemma digits_plain:
  assumes "0 \<le> n"
  shows "skip_space (digits 10 n) = digits 10 n" "sign_of (digits 10 n) = (False, digits 10 n)"
proof -
  obtain d ds where "digits 10 n = digit_chr d # ds" "0 \<le> d" "d < 10"
    using digits_hd [OF assms, of 10] by auto
  then show "skip_space (digits 10 n) = digits 10 n" "sign_of (digits 10 n) = (False, digits 10 n)"
    using digit_chr_plain [of d] by (simp_all add: sign_of_def)
qed

lemma skip_space_minus: "skip_space (CHR ''-'' # s) = CHR ''-'' # s"
  by (simp add: is_space_def chr_val_def)

lemma atoi_fmt_d: "in_s32 n \<Longrightarrow> atoi (fmt_d n) = n"
  using digit_run_digits_0 [of 10 n "[]"] digit_run_digits_0 [of 10 "- n" "[]"] digits_plain [of n]
  by (auto simp: atoi_def strtol10_def fmt_d_def Let_def in_s32_def skip_space_minus sign_of_def
      simp del: skip_space.simps)

text \<open>
  Inside a comma-separated line a parser called at the start of a field sees that field
  only: no parser reads past a comma.
\<close>

lemma comma_class [simp]:
  "\<not> is_space CHR '',''" "\<not> is_digit CHR '',''" "digit_val CHR '','' = 99"
  by (simp_all add: is_space_def is_digit_def digit_val_def chr_val_def)

lemma skip_space_comma: "skip_space (f @ CHR '','' # r) = skip_space f @ CHR '','' # r"
  by (induction f) auto

lemma sign_of_comma:
  "sign_of (f @ CHR '','' # r) = (fst (sign_of f), snd (sign_of f) @ CHR '','' # r)"
  by (cases f) (auto simp: sign_of_def)

lemma digit_run_comma:
  "b \<le> 36 \<Longrightarrow> digit_run b a (f @ CHR '','' # r) =
     (fst (digit_run b a f), snd (digit_run b a f) @ CHR '','' # r)"
  by (induction f arbitrary: a) auto

lemma frac_run_comma:
  "frac_run a n (f @ CHR '','' # r) =
     (case frac_run a n f of (m, k, t) \<Rightarrow> (m, k, t @ CHR '','' # r))"
  by (induction f arbitrary: a n) auto

lemma frac_part_comma:
  "frac_part a (f @ CHR '','' # r) =
     (case frac_part a f of (m, k, t) \<Rightarrow> (m, k, t @ CHR '','' # r))"
  by (cases f) (auto simp: frac_part_def frac_run_comma)

lemma exp_part_comma: "exp_part (f @ CHR '','' # r) = exp_part f"
  by (cases f) (auto simp: exp_part_def sign_of_comma digit_run_comma Let_def split: prod.splits)

lemma atof_comma: "atof (f @ CHR '','' # r) = atof f"
  by (simp add: atof_def skip_space_comma sign_of_comma digit_run_comma frac_part_comma
      exp_part_comma Let_def split: prod.splits)

lemma atoi_comma: "atoi (f @ CHR '','' # r) = atoi f"
  by (simp add: atoi_def strtol10_def skip_space_comma sign_of_comma digit_run_comma Let_def
      split: prod.splits)

end
