(* ===== verification/Zynq_Io.thy ===== *)
theory Zynq_Io
  imports C_String
begin

text \<open>
  Access to the hardware, \<^verbatim>\<open>projects/lago_v1_5/src/zynq_io.c\<close> and \<^verbatim>\<open>zynq_io.h\<close>: the register map,
  the mapping of each device into the process, single register reads and writes, the slow
  DAC and XADC conversions, the start-up sequence of the acquisition logic and the
  interrupt controller set-up.

  The configuration bank is a bank of plain read/write registers (the core
  \<^verbatim>\<open>cores/axi_cfg_register_v1_0\<close>); what the other devices answer is the hardware's business and
  a parameter, as are the results of the system calls.
\<close>

section \<open>Register map\<close>

datatype cfg_reg =
    CFG_RESET_GRAL | CFG_NSAMPLES | CFG_TRLVL_1 | CFG_TRLVL_2 | CFG_STRLVL_1 | CFG_STRLVL_2
  | CFG_TEMPERATURE | CFG_PRESSURE | CFG_TIME | CFG_DATE | CFG_LATITUDE | CFG_LONGITUDE
  | CFG_ALTITUDE | CFG_SATELLITE | CFG_TR_SCAL_A | CFG_TR_SCAL_B | CFG_HV1 | CFG_HV2 | CFG_HV3
  | CFG_HV4 | CFG_HST0 | CFG_HST1 | CFG_WR_ADDR

fun cfg_off :: "cfg_reg \<Rightarrow> u32" where
  "cfg_off CFG_RESET_GRAL = 0x0"
| "cfg_off CFG_NSAMPLES = 0x4"
| "cfg_off CFG_TRLVL_1 = 0x8"
| "cfg_off CFG_TRLVL_2 = 0xC"
| "cfg_off CFG_STRLVL_1 = 0x10"
| "cfg_off CFG_STRLVL_2 = 0x14"
| "cfg_off CFG_TEMPERATURE = 0x18"
| "cfg_off CFG_PRESSURE = 0x1C"
| "cfg_off CFG_TIME = 0x20"
| "cfg_off CFG_DATE = 0x24"
| "cfg_off CFG_LATITUDE = 0x28"
| "cfg_off CFG_LONGITUDE = 0x2C"
| "cfg_off CFG_ALTITUDE = 0x30"
| "cfg_off CFG_SATELLITE = 0x34"
| "cfg_off CFG_TR_SCAL_A = 0x38"
| "cfg_off CFG_TR_SCAL_B = 0x3C"
| "cfg_off CFG_HV1 = 0x4C"
| "cfg_off CFG_HV2 = 0x48"
| "cfg_off CFG_HV3 = 0x40"
| "cfg_off CFG_HV4 = 0x44"
| "cfg_off CFG_HST0 = 0x50"
| "cfg_off CFG_HST1 = 0x54"
| "cfg_off CFG_WR_ADDR = 0x58"

datatype sts_reg = STS_WRITER | STS_HST0 | STS_HST1

fun sts_off :: "sts_reg \<Rightarrow> u32" where
  "sts_off STS_WRITER = 0x0"
| "sts_off STS_HST0 = 0x4"
| "sts_off STS_HST1 = 0x8"

datatype intc_reg = INTC_ISR | INTC_IPR | INTC_IER | INTC_IAR | INTC_SIE | INTC_CIE | INTC_IVR
  | INTC_MER | INTC_IMR | INTC_ILR | INTC_IVAR

fun intc_off :: "intc_reg \<Rightarrow> u32" where
  "intc_off INTC_ISR = 0x0"
| "intc_off INTC_IPR = 0x4"
| "intc_off INTC_IER = 0x8"
| "intc_off INTC_IAR = 0xC"
| "intc_off INTC_SIE = 0x10"
| "intc_off INTC_CIE = 0x14"
| "intc_off INTC_IVR = 0x18"
| "intc_off INTC_MER = 0x1C"
| "intc_off INTC_IMR = 0x20"
| "intc_off INTC_ILR = 0x24"
| "intc_off INTC_IVAR = 0x100"

definition MER_ME_MASK :: u32 where "MER_ME_MASK = 0x1"
definition MER_HIE_MASK :: u32 where "MER_HIE_MASK = 0x2"
definition FGPS_EN_MASK :: u32 where "FGPS_EN_MASK = 0x10"

text \<open>The auxiliary inputs of the XADC and the board's names for four of them.\<close>

definition xadc_vaux :: "u32 \<Rightarrow> u32" where
  "xadc_vaux n = 0x240 + 4 * n"

datatype xadc_ai = XADC_AI0 | XADC_AI1 | XADC_AI2 | XADC_AI3

fun xadc_off :: "xadc_ai \<Rightarrow> u32" where
  "xadc_off XADC_AI0 = xadc_vaux 8"
| "xadc_off XADC_AI1 = xadc_vaux 0"
| "xadc_off XADC_AI2 = xadc_vaux 1"
| "xadc_off XADC_AI3 = xadc_vaux 9"

definition XADC_CONV_VAL :: rat where
  "XADC_CONV_VAL = f64 (171191993362 / 100000000000000)"

section \<open>Devices, pointers and the environment\<close>

datatype dev = Intc | Cfg | Sts | Xadc | Mem | Hst0 | Hst1 | Cma

text \<open>A pointer global: not yet set, the \<open>MAP_FAILED\<close> value, or a mapping of so many bytes.\<close>

datatype ptr = Null | MapFailed | Mapped nat

datatype access = Rd dev u32 | Wr dev u32 u32

record zio = cio +
  fds :: "dev \<Rightarrow> int"
  ptrs :: "dev \<Rightarrow> ptr"
  dev_size :: u32
  cfg_mem :: "u32 \<Rightarrow> u32"
  accs :: "access list"

text \<open>
  The environment: the value a device other than the configuration bank gives for a read
  after a history of accesses; \<open>open\<close> by path; the contents of a sysfs size file; whether
  \<open>mmap\<close> of a path, length and offset succeeds; the address the CMA driver returns for a
  size; the page size.
\<close>

record zenv =
  hw_read :: "access list \<Rightarrow> dev \<Rightarrow> u32 \<Rightarrow> u32"
  os_open :: "string \<Rightarrow> int"
  os_size :: "string \<Rightarrow> string option"
  os_mmap :: "string \<Rightarrow> nat \<Rightarrow> nat \<Rightarrow> bool"
  os_cma :: "u32 \<Rightarrow> u32 option"
  pagesize :: nat

section \<open>Register access\<close>

definition dev_check :: "dev \<Rightarrow> u32 \<Rightarrow> ('a zio_scheme, unit) cm" where
  "dev_check d off = (\<lambda>s. case ptrs s d of
       Null \<Rightarrow> Inl NullDeref
     | MapFailed \<Rightarrow> Inl OutOfBounds
     | Mapped n \<Rightarrow> if off AND 3 \<noteq> 0 then Inl Unaligned
                   else if unat off + 4 \<le> n then Inr ((), s) else Inl OutOfBounds)"

definition reg_store :: "dev \<Rightarrow> u32 \<Rightarrow> u32 \<Rightarrow> 'a zio_scheme \<Rightarrow> 'a zio_scheme" where
  "reg_store d off v s = s\<lparr>cfg_mem := (if d = Cfg then (cfg_mem s)(off := v) else cfg_mem s),
     accs := accs s @ [Wr d off v]\<rparr>"

definition reg_value :: "zenv \<Rightarrow> dev \<Rightarrow> u32 \<Rightarrow> 'a zio_scheme \<Rightarrow> u32" where
  "reg_value env d off s = (if d = Cfg then cfg_mem s off else hw_read env (accs s) d off)"

definition dev_write :: "dev \<Rightarrow> u32 \<Rightarrow> u32 \<Rightarrow> ('a zio_scheme, unit) cm" where
  "dev_write d off v = then_c (dev_check d off) (mod_c (reg_store d off v))"

definition dev_read :: "zenv \<Rightarrow> dev \<Rightarrow> u32 \<Rightarrow> ('a zio_scheme, u32) cm" where
  "dev_read env d off = then_c (dev_check d off)
     (\<lambda>s. Inr (reg_value env d off s, s\<lparr>accs := accs s @ [Rd d off]\<rparr>))"

fun n_dev_of :: "int \<Rightarrow> dev option" where
  "n_dev_of n = (if n = 0 then Some Intc else if n = 1 then Some Cfg
     else if n = 2 then Some Sts else if n = 3 then Some Xadc else None)"

definition nl :: string where
  "nl = [CHR 0x0A]"

definition rd_reg_value :: "zenv \<Rightarrow> int \<Rightarrow> u32 \<Rightarrow> bool \<Rightarrow> ('a zio_scheme, int) cm" where
  "rd_reg_value env n_dev reg_off debug = (case n_dev_of n_dev of
       None \<Rightarrow> then_c (printf (''Invalid option: '' @ fmt_d n_dev @ nl)) (ret_c (- 1))
     | Some d \<Rightarrow> bind_c (dev_read env d reg_off) (\<lambda>reg_val.
         then_c (if_c debug (printf (''Complete. Received data 0x'' @ fmt_08x reg_val @ nl)))
           (ret_c (of_u32 reg_val))))"

definition wr_reg_value :: "int \<Rightarrow> u32 \<Rightarrow> int \<Rightarrow> bool \<Rightarrow> ('a zio_scheme, int) cm" where
  "wr_reg_value n_dev reg_off reg_val debug = (case n_dev_of n_dev of
       None \<Rightarrow> then_c (printf (''Invalid option: '' @ fmt_d n_dev @ nl)) (ret_c (- 1))
     | Some d \<Rightarrow> then_c (dev_write d reg_off (to_u32 reg_val))
         (then_c (if_c debug (printf (''Complete. Data written: 0x'' @ fmt_08x (to_u32 reg_val) @ nl)))
           (ret_c 0)))"

section \<open>Voltages\<close>

text \<open>The calibration \<open>y = a x + b\<close> of the slow DAC outputs, gain 3.2.\<close>

definition hv_a :: rat where
  "hv_a = f32 (882006 / 10000000)"

definition hv_b :: rat where
  "hv_b = f32 (773516 / 100000)"

definition hv_mV :: "u32 \<Rightarrow> rat" where
  "hv_mV w = f32 (f32 (hv_a * f32 (of_int (uint w))) + hv_b)"

definition get_voltage :: "zenv \<Rightarrow> u32 \<Rightarrow> ('a zio_scheme, rat) cm" where
  "get_voltage env off = bind_c (dev_read env Xadc off) (\<lambda>w.
     ret_c (f32 (f64 (of_int (wrap16 (uint w) div 16) * XADC_CONV_VAL))))"

definition dac_of_mV :: "int \<Rightarrow> u32 res" where
  "dac_of_mV v = bind_res (float_to_u32 (f32 (f32 (of_int v) - hv_b))) (\<lambda>n.
     float_to_u32 (f32 (f32 (of_int (uint n)) / hv_a)))"

definition set_voltage :: "u32 \<Rightarrow> int \<Rightarrow> ('a zio_scheme, unit) cm" where
  "set_voltage off v = bind_c (lift_c (dac_of_mV v)) (\<lambda>dac_val. seq_c [
     dev_write Cfg off dac_val,
     printf (''The Voltage is: '' @ fmt_d v @ '' mV'' @ nl),
     printf (''The DAC value is: '' @ fmt_d (of_u32 dac_val) @ '' DACs'' @ nl)])"

definition get_temp_AD592 :: "zenv \<Rightarrow> u32 \<Rightarrow> ('a zio_scheme, rat) cm" where
  "get_temp_AD592 env off = bind_c (get_voltage env off) (\<lambda>v.
     ret_c (f32 (f64 (f32 (v * 1000) - f64 (27315 / 100)))))"

section \<open>Status report\<close>

definition print_cfg_d :: "zenv \<Rightarrow> string \<Rightarrow> cfg_reg \<Rightarrow> ('a zio_scheme, unit) cm" where
  "print_cfg_d env label r = bind_c (dev_read env Cfg (cfg_off r)) (\<lambda>w.
     printf (label @ fmt_d (of_u32 w) @ nl))"

definition print_cfg_mV :: "zenv \<Rightarrow> string \<Rightarrow> cfg_reg \<Rightarrow> ('a zio_scheme, unit) cm" where
  "print_cfg_mV env label r = bind_c (dev_read env Cfg (cfg_off r)) (\<lambda>w.
     printf (label @ fmt_f 1 (hv_mV w) @ '' mV'' @ nl))"

definition rd_cfg_status :: "zenv \<Rightarrow> ('a zio_scheme, int) cm" where
  "rd_cfg_status env = then_c (seq_c [
     print_cfg_d env ''#Trigger Level Ch1 = '' CFG_TRLVL_1,
     print_cfg_d env ''#Trigger Level Ch2 = '' CFG_TRLVL_2,
     print_cfg_mV env ''#High Voltage 1    = '' CFG_HV1,
     print_cfg_mV env ''#High Voltage 2    = '' CFG_HV2,
     print_cfg_d env ''#Trigger Scaler 1  = '' CFG_TR_SCAL_A,
     print_cfg_d env ''#Trigger Scaler 2  = '' CFG_TR_SCAL_B,
     bind_c (dev_read env Cfg (cfg_off CFG_RESET_GRAL)) (\<lambda>w.
       if drop_bit 4 w AND 1 = 1 then printf (''#No GPS device is present or enabled'' @ nl)
       else printf (''#Using GPS data'' @ nl)),
     bind_c (dev_read env Cfg (cfg_off CFG_RESET_GRAL)) (\<lambda>w.
       if drop_bit 11 w AND 1 = 0 then printf (''#Working mode is SLAVE'' @ nl)
       else printf (''#Working mode is MASTER'' @ nl)),
     printf nl,
     printf (''Status from registers complete!'' @ nl)]) (ret_c 0)"

section \<open>Mapping the devices\<close>

text \<open>
  \<open>fscanf(f, "0x%08X", &size)\<close>: end of file before a digit makes the program exit; any other
  mismatch leaves \<open>size\<close> unset.
\<close>

fun hex_prefix :: "string \<Rightarrow> string" where
  "hex_prefix [] = []"
| "hex_prefix (c # cs) = (if digit_val c < 16 then c # hex_prefix cs else [])"

definition scan_0x :: "string \<Rightarrow> u32 res" where
  "scan_0x s = (if s = [] \<or> s = ''0'' then Inl (ExitWith (- 1))
     else if \<not> starts_with ''0x'' s then Inl Uninit
     else (let t = skip_space (drop 2 s) in
       if t = [] then Inl (ExitWith (- 1))
       else if hex_prefix t = [] then Inl Uninit
       else Inr (to_u32 (fst (digit_run 16 0 (take 8 (hex_prefix t)))))))"

definition get_memory_size :: "zenv \<Rightarrow> string \<Rightarrow> ('a zio_scheme, u32) cm" where
  "get_memory_size env path = (case os_size env path of
       None \<Rightarrow> then_c (printf (''unable to open the uio size file'' @ nl)) (stop_c (ExitWith (- 1)))
     | Some txt \<Rightarrow> (case scan_0x txt of
         Inl (ExitWith k) \<Rightarrow>
           then_c (printf (''unable to get the size of the uio size file'' @ nl)) (stop_c (ExitWith k))
       | r \<Rightarrow> lift_c r))"

definition page_up :: "zenv \<Rightarrow> nat \<Rightarrow> nat" where
  "page_up env n = (n + pagesize env - 1) div pagesize env * pagesize env"

definition open_dev :: "zenv \<Rightarrow> dev \<Rightarrow> string \<Rightarrow> ('a zio_scheme, int) cm" where
  "open_dev env d path = (\<lambda>s. let fd = os_open env path in Inr (fd, s\<lparr>fds := (fds s)(d := fd)\<rparr>))"

definition mmap_dev :: "zenv \<Rightarrow> dev \<Rightarrow> string \<Rightarrow> nat \<Rightarrow> nat \<Rightarrow> ('a zio_scheme, bool) cm" where
  "mmap_dev env d path len off = (\<lambda>s.
     let p = (if os_mmap env path len off then Mapped (page_up env len) else MapFailed)
     in Inr (p \<noteq> MapFailed, s\<lparr>ptrs := (ptrs s)(d := p)\<rparr>))"

definition set_size :: "u32 \<Rightarrow> ('a zio_scheme, unit) cm" where
  "set_size w = mod_c (\<lambda>s. s\<lparr>dev_size := w\<rparr>)"

text \<open>The common shape of the UIO devices' initialisation.\<close>

definition uio_init :: "zenv \<Rightarrow> dev \<Rightarrow> string \<Rightarrow> string \<Rightarrow> string \<Rightarrow> string \<Rightarrow> ('a zio_scheme, int) cm" where
  "uio_init env d who who_map uiod sysfs = bind_c (open_dev env d uiod) (\<lambda>fd.
     if fd < 1 then then_c (printf (who @ '': Invalid UIO device file:'' @ uiod @ ''.'' @ nl)) (ret_c (- 1))
     else bind_c (get_memory_size env sysfs) (\<lambda>sz. then_c (set_size sz)
       (bind_c (mmap_dev env d uiod (unat sz) 0) (\<lambda>ok.
          if ok then ret_c 0
          else then_c (printf (who_map @ '': mmap call failure.'' @ nl)) (ret_c (- 1))))))"

definition intc_init :: "zenv \<Rightarrow> ('a zio_scheme, int) cm" where
  "intc_init env = uio_init env Intc ''intc_init'' ''intc_init'' ''/dev/uio0''
     ''/sys/class/uio/uio0/maps/map0/size''"

definition cfg_init :: "zenv \<Rightarrow> ('a zio_scheme, int) cm" where
  "cfg_init env = uio_init env Cfg ''cfg_init'' ''cfg_init'' ''/dev/uio1''
     ''/sys/class/uio/uio1/maps/map0/size''"

definition sts_init :: "zenv \<Rightarrow> ('a zio_scheme, int) cm" where
  "sts_init env = uio_init env Sts ''sts_init'' ''sts_init'' ''/dev/uio4''
     ''/sys/class/uio/uio4/maps/map0/size''"

definition xadc_init :: "zenv \<Rightarrow> ('a zio_scheme, int) cm" where
  "xadc_init env = uio_init env Xadc ''xadc_init'' ''xadc_init'' ''/dev/uio5''
     ''/sys/class/uio/uio5/maps/map0/size''"

definition hst0_init :: "zenv \<Rightarrow> ('a zio_scheme, int) cm" where
  "hst0_init env = uio_init env Hst0 ''hst0_init'' ''sts_init'' ''/dev/uio2''
     ''/sys/class/uio/uio2/maps/map0/size''"

definition hst1_init :: "zenv \<Rightarrow> ('a zio_scheme, int) cm" where
  "hst1_init env = uio_init env Hst1 ''hst1_init'' ''sts_init'' ''/dev/uio3''
     ''/sys/class/uio/uio3/maps/map0/size''"

definition mem_init :: "zenv \<Rightarrow> ('a zio_scheme, int) cm" where
  "mem_init env = bind_c (open_dev env Mem ''/dev/mem'') (\<lambda>fd.
     if fd < 1 then then_c (printf (''mem_init: Invalid device file:/dev/mem.'' @ nl)) (ret_c (- 1))
     else bind_c (ret_c (of_nat (2048 * pagesize env))) (\<lambda>sz. then_c (set_size sz)
       (bind_c (mmap_dev env Mem ''/dev/mem'' (unat sz) 0x1E000000) (\<lambda>ok.
          if ok then ret_c 0
          else then_c (printf (''mem_init: mmap call failure.'' @ nl)) (ret_c (- 1))))))"

text \<open>The CMA driver replaces the requested size in \<open>dev_size\<close> by the address of the buffer.\<close>

definition cma_init :: "zenv \<Rightarrow> ('a zio_scheme, int) cm" where
  "cma_init env = bind_c (open_dev env Cma ''/dev/cma'') (\<lambda>fd.
     if fd < 1 then then_c (printf (''cma_init: Invalid device file:/dev/cma.'' @ nl)) (ret_c (- 1))
     else bind_c (ret_c (of_nat (1024 * pagesize env))) (\<lambda>sz. then_c (set_size sz)
       (case os_cma env sz of
          None \<Rightarrow> then_c (eprintf ''ioctl'') (ret_c 1)
        | Some addr \<Rightarrow> then_c (set_size addr)
            (bind_c (mmap_dev env Cma ''/dev/cma'' (1024 * pagesize env) 0) (\<lambda>ok.
               if ok then ret_c 0
               else then_c (printf (''cma_init: mmap call failure.'' @ nl)) (ret_c (- 1)))))))"

section \<open>Start-up and interrupts\<close>

definition cfg_set :: "cfg_reg \<Rightarrow> u32 \<Rightarrow> ('a zio_scheme, unit) cm" where
  "cfg_set r v = dev_write Cfg (cfg_off r) v"

text \<open>\<open>reg_val = dev_read(cfg_ptr, r); dev_write(cfg_ptr, r, f(reg_val));\<close>\<close>

definition cfg_rmw :: "zenv \<Rightarrow> cfg_reg \<Rightarrow> (u32 \<Rightarrow> u32) \<Rightarrow> ('a zio_scheme, unit) cm" where
  "cfg_rmw env r f = bind_c (dev_read env Cfg (cfg_off r)) (\<lambda>reg_val. dev_write Cfg (cfg_off r) (f reg_val))"

definition init_system :: "zenv \<Rightarrow> ('a zio_scheme, int) cm" where
  "init_system env = then_c (seq_c [
     cfg_set CFG_TRLVL_1 8190,
     cfg_set CFG_TRLVL_2 8190,
     cfg_set CFG_STRLVL_1 8190,
     cfg_set CFG_STRLVL_2 8190,
     cfg_set CFG_HV1 0,
     cfg_set CFG_HV2 0,
     cfg_rmw env CFG_RESET_GRAL (\<lambda>v. v AND NOT 8),
     cfg_rmw env CFG_RESET_GRAL (\<lambda>v. v AND NOT 1),
     cfg_rmw env CFG_RESET_GRAL (\<lambda>v. v AND NOT 4),
     cfg_rmw env CFG_RESET_GRAL (\<lambda>v. v AND NOT 2),
     cfg_set CFG_NSAMPLES (1024 * 1024),
     cfg_set CFG_TR_SCAL_A 1,
     cfg_set CFG_TR_SCAL_B 1,
     cfg_rmw env CFG_RESET_GRAL (\<lambda>v. v OR FGPS_EN_MASK),
     cfg_rmw env CFG_RESET_GRAL (\<lambda>v. v OR 8),
     cfg_rmw env CFG_RESET_GRAL (\<lambda>v. v OR 0x800)]) (ret_c 0)"

definition enable_interrupt :: "('a zio_scheme, int) cm" where
  "enable_interrupt = then_c (seq_c [
     dev_write Intc (intc_off INTC_IER) 1,
     dev_write Intc (intc_off INTC_MER) (MER_ME_MASK OR MER_HIE_MASK)]) (ret_c 0)"

definition disable_interrupt :: "zenv \<Rightarrow> ('a zio_scheme, int) cm" where
  "disable_interrupt env = then_c (seq_c [
     dev_write Intc (intc_off INTC_IER) 0,
     bind_c (dev_read env Intc (intc_off INTC_MER)) (\<lambda>v.
       dev_write Intc (intc_off INTC_MER) (v OR NOT 1)),
     dev_write Intc (intc_off INTC_IAR) 1]) (ret_c 0)"

section \<open>Laws of a register bank\<close>

text \<open>
  What the start-up and acquisition sequences rely on: updating a register by a function of
  its own value changes that register so and no other.  A whole sequence of updates then
  acts on each register by its own updates in order.
\<close>

locale reg_bank =
  fixes rd :: "'s \<Rightarrow> 'r \<Rightarrow> u32" and upd :: "'r \<Rightarrow> (u32 \<Rightarrow> u32) \<Rightarrow> 's \<Rightarrow> 's"
  assumes rd_upd: "rd (upd r f s) q = (if q = r then f (rd s r) else rd s q)"
begin

lemma rd_upds:
  "rd (fold (\<lambda>(r, f). upd r f) ups s) q = fold (\<lambda>(r, f) v. if r = q then f v else v) ups (rd s q)"
  by (induction ups arbitrary: s) (auto simp: rd_upd)

lemma rd_upds_frame: "q \<notin> fst ` set ups \<Longrightarrow> rd (fold (\<lambda>(r, f). upd r f) ups s) q = rd s q"
  by (induction ups arbitrary: s) (auto simp: rd_upd)

end

lemma cfg_off_inj [simp]: "cfg_off r = cfg_off q \<longleftrightarrow> r = q"
proof -
  have "inj cfg_off"
    by (rule injI) (rename_tac a b, case_tac a; case_tac b; simp)
  then show ?thesis by (auto dest: injD)
qed

lemma cfg_off_aligned [simp]: "cfg_off r AND 3 = 0"
  by (cases r) simp_all

lemma cfg_off_bound: "unat (cfg_off r) + 4 \<le> 92"
  by (cases r) simp_all

definition mapped :: "'a zio_scheme \<Rightarrow> dev \<Rightarrow> nat \<Rightarrow> bool" where
  "mapped s d k = (case ptrs s d of Mapped n \<Rightarrow> k \<le> n | _ \<Rightarrow> False)"

definition cfg_upd :: "cfg_reg \<Rightarrow> (u32 \<Rightarrow> u32) \<Rightarrow> 'a zio_scheme \<Rightarrow> 'a zio_scheme" where
  "cfg_upd r f s = s\<lparr>cfg_mem := (cfg_mem s)(cfg_off r := f (cfg_mem s (cfg_off r))),
     accs := accs s @ [Rd Cfg (cfg_off r), Wr Cfg (cfg_off r) (f (cfg_mem s (cfg_off r)))]\<rparr>"

interpretation cfg_bank: reg_bank "\<lambda>s r. cfg_mem s (cfg_off r)" cfg_upd
  by unfold_locales (simp add: cfg_upd_def)

lemma dev_check_cfg [simp]: "mapped s Cfg 92 \<Longrightarrow> dev_check Cfg (cfg_off r) s = Inr ((), s)"
  using cfg_off_bound [of r] by (auto simp: dev_check_def mapped_def split: ptr.splits)

lemma cfg_read_run [simp]: "mapped s Cfg 92 \<Longrightarrow> dev_read env Cfg (cfg_off r) s =
    Inr (cfg_mem s (cfg_off r), s\<lparr>accs := accs s @ [Rd Cfg (cfg_off r)]\<rparr>)"
  by (simp add: dev_read_def then_c_def reg_value_def)

lemma cfg_write_run [simp]: "mapped s Cfg 92 \<Longrightarrow> dev_write Cfg (cfg_off r) v s =
    Inr ((), s\<lparr>cfg_mem := (cfg_mem s)(cfg_off r := v), accs := accs s @ [Wr Cfg (cfg_off r) v]\<rparr>)"
  by (simp add: dev_write_def then_c_def mod_c_def reg_store_def)

lemma mapped_update [simp]:
  "mapped (s\<lparr>accs := a\<rparr>) d k = mapped s d k" "mapped (s\<lparr>cfg_mem := m\<rparr>) d k = mapped s d k"
  "mapped (cfg_upd r f s) d k = mapped s d k"
  by (simp_all add: mapped_def cfg_upd_def)

lemma cfg_rmw_run [simp]: "mapped s Cfg 92 \<Longrightarrow> cfg_rmw env r f s = Inr ((), cfg_upd r f s)"
  by (simp add: cfg_rmw_def bind_c_def cfg_upd_def)

text \<open>A blind write differs from an update only in the log.\<close>

lemma cfg_set_run [simp]: "mapped s Cfg 92 \<Longrightarrow> cfg_set r v s =
    Inr ((), s\<lparr>cfg_mem := (cfg_mem s)(cfg_off r := v), accs := accs s @ [Wr Cfg (cfg_off r) v]\<rparr>)"
  by (simp add: cfg_set_def)

lemma cfg_set_upd: "mapped s Cfg 92 \<Longrightarrow>
    \<exists>s'. cfg_set r v s = Inr ((), s') \<and> cfg_mem s' = cfg_mem (cfg_upd r (\<lambda>_. v) s)
      \<and> (\<exists>a. s' = s\<lparr>cfg_mem := cfg_mem s', accs := a\<rparr>)"
  by (auto simp: cfg_upd_def)

section \<open>Sequences of configuration updates\<close>

text \<open>
  A statement acts on the bank as an update when, the bank being mapped, it returns, changes
  the one register so, and nothing else but the access log.
\<close>

definition cfg_act :: "('a zio_scheme, unit) cm \<Rightarrow> cfg_reg \<times> (u32 \<Rightarrow> u32) \<Rightarrow> bool" where
  "cfg_act m u = (\<forall>s. mapped s Cfg 92 \<longrightarrow>
     (\<exists>a. m s = Inr ((), (cfg_upd (fst u) (snd u) s)\<lparr>accs := a\<rparr>)))"

lemma cfg_act_set [simp]: "cfg_act (cfg_set r v) (r, \<lambda>_. v)"
  by (auto simp: cfg_act_def cfg_upd_def)

lemma cfg_act_rmw [simp]: "cfg_act (cfg_rmw env r f) (r, f)"
proof -
  have "\<exists>a. cfg_upd r f s = (cfg_upd r f s)\<lparr>accs := a\<rparr>" for s :: "'a zio_scheme"
    by (rule exI [of _ "accs (cfg_upd r f s)"]) simp
  then show ?thesis by (simp add: cfg_act_def)
qed

abbreviation cfg_upds :: "(cfg_reg \<times> (u32 \<Rightarrow> u32)) list \<Rightarrow> 'a zio_scheme \<Rightarrow> 'a zio_scheme" where
  "cfg_upds ups \<equiv> fold (\<lambda>(r, f). cfg_upd r f) ups"

lemma cfg_upd_accs: "\<exists>b. cfg_upd r f (s\<lparr>accs := a\<rparr>) = (cfg_upd r f s)\<lparr>accs := b\<rparr>"
  by (auto simp: cfg_upd_def)

lemma cfg_upds_accs: "\<exists>b. cfg_upds ups (s\<lparr>accs := a\<rparr>) = (cfg_upds ups s)\<lparr>accs := b\<rparr>"
proof (induction ups arbitrary: s a)
  case (Cons u ups)
  obtain r f where u: "u = (r, f)" by (cases u)
  obtain b where "cfg_upd r f (s\<lparr>accs := a\<rparr>) = (cfg_upd r f s)\<lparr>accs := b\<rparr>"
    using cfg_upd_accs by blast
  with Cons.IH [where s = "cfg_upd r f s" and a = b] show ?case by (simp add: u)
qed auto

lemma mapped_upds [simp]: "mapped (cfg_upds ups s) d k = mapped s d k"
proof (induction ups arbitrary: s)
  case (Cons u ups)
  then show ?case by (cases u) simp
qed simp

lemma cfg_script_run:
  assumes "list_all2 cfg_act ms ups" and "mapped s Cfg 92"
  shows "\<exists>a. seq_c ms s = Inr ((), (cfg_upds ups s)\<lparr>accs := a\<rparr>)"
  using assms
proof (induction ms ups arbitrary: s rule: list_all2_induct)
  case Nil
  have "s = s\<lparr>accs := accs s\<rparr>" by simp
  then show ?case by (metis fold_simps(1) seq_c.simps(1))
next
  case (Cons m ms u ups)
  obtain r f where u: "u = (r, f)" by (cases u)
  from Cons.hyps(1) Cons.prems obtain a where m: "m s = Inr ((), (cfg_upd r f s)\<lparr>accs := a\<rparr>)"
    by (auto simp: cfg_act_def u)
  obtain b where b: "seq_c ms ((cfg_upd r f s)\<lparr>accs := a\<rparr>) =
      Inr ((), (cfg_upds ups ((cfg_upd r f s)\<lparr>accs := a\<rparr>))\<lparr>accs := b\<rparr>)"
    using Cons.IH [of "(cfg_upd r f s)\<lparr>accs := a\<rparr>"] Cons.prems by auto
  obtain c where "cfg_upds ups ((cfg_upd r f s)\<lparr>accs := a\<rparr>) = (cfg_upds ups (cfg_upd r f s))\<lparr>accs := c\<rparr>"
    using cfg_upds_accs by blast
  with m b have "seq_c (m # ms) s = Inr ((), (cfg_upds (u # ups) s)\<lparr>accs := b\<rparr>)" by (simp add: u)
  then show ?case ..
qed

text \<open>The registers outside the map and the rest of the state are not touched.\<close>

lemma cfg_upds_frame: "cfg_upds ups s = s\<lparr>cfg_mem := cfg_mem (cfg_upds ups s), accs := accs (cfg_upds ups s)\<rparr>"
proof (induction ups arbitrary: s)
  case (Cons u ups)
  obtain r f where u: "u = (r, f)" by (cases u)
  have "cfg_upds (u # ups) s = (cfg_upd r f s)\<lparr>cfg_mem := cfg_mem (cfg_upds ups (cfg_upd r f s)),
      accs := accs (cfg_upds ups (cfg_upd r f s))\<rparr>"
    using Cons.IH [of "cfg_upd r f s"] by (simp add: u)
  then show ?case by (simp add: cfg_upd_def [of r f s] u)
qed simp

lemma cfg_upds_outside: "off \<notin> range cfg_off \<Longrightarrow> cfg_mem (cfg_upds ups s) off = cfg_mem s off"
proof (induction ups arbitrary: s)
  case (Cons u ups)
  obtain r f where u: "u = (r, f)" by (cases u)
  have "cfg_mem (cfg_upd r f s) off = cfg_mem s off" using Cons.prems by (auto simp: cfg_upd_def)
  then show ?case using Cons by (simp add: u)
qed simp

definition init_ups :: "(cfg_reg \<times> (u32 \<Rightarrow> u32)) list" where
  "init_ups = [(CFG_TRLVL_1, \<lambda>_. 8190), (CFG_TRLVL_2, \<lambda>_. 8190), (CFG_STRLVL_1, \<lambda>_. 8190),
     (CFG_STRLVL_2, \<lambda>_. 8190), (CFG_HV1, \<lambda>_. 0), (CFG_HV2, \<lambda>_. 0),
     (CFG_RESET_GRAL, \<lambda>v. v AND NOT 8), (CFG_RESET_GRAL, \<lambda>v. v AND NOT 1),
     (CFG_RESET_GRAL, \<lambda>v. v AND NOT 4), (CFG_RESET_GRAL, \<lambda>v. v AND NOT 2),
     (CFG_NSAMPLES, \<lambda>_. 1024 * 1024), (CFG_TR_SCAL_A, \<lambda>_. 1), (CFG_TR_SCAL_B, \<lambda>_. 1),
     (CFG_RESET_GRAL, \<lambda>v. v OR FGPS_EN_MASK), (CFG_RESET_GRAL, \<lambda>v. v OR 8),
     (CFG_RESET_GRAL, \<lambda>v. v OR 0x800)]"

lemma init_system_run: "mapped s Cfg 92 \<Longrightarrow>
    \<exists>a. init_system env s = Inr (0, (cfg_upds init_ups s)\<lparr>accs := a\<rparr>)"
proof -
  assume m: "mapped s Cfg 92"
  have "\<exists>a. seq_c [cfg_set CFG_TRLVL_1 8190, cfg_set CFG_TRLVL_2 8190, cfg_set CFG_STRLVL_1 8190,
     cfg_set CFG_STRLVL_2 8190, cfg_set CFG_HV1 0, cfg_set CFG_HV2 0,
     cfg_rmw env CFG_RESET_GRAL (\<lambda>v. v AND NOT 8), cfg_rmw env CFG_RESET_GRAL (\<lambda>v. v AND NOT 1),
     cfg_rmw env CFG_RESET_GRAL (\<lambda>v. v AND NOT 4), cfg_rmw env CFG_RESET_GRAL (\<lambda>v. v AND NOT 2),
     cfg_set CFG_NSAMPLES (1024 * 1024), cfg_set CFG_TR_SCAL_A 1, cfg_set CFG_TR_SCAL_B 1,
     cfg_rmw env CFG_RESET_GRAL (\<lambda>v. v OR FGPS_EN_MASK), cfg_rmw env CFG_RESET_GRAL (\<lambda>v. v OR 8),
     cfg_rmw env CFG_RESET_GRAL (\<lambda>v. v OR 0x800)] s = Inr ((), (cfg_upds init_ups s)\<lparr>accs := a\<rparr>)"
    by (rule cfg_script_run [OF _ m]) (simp add: init_ups_def)
  then show ?thesis by (auto simp: init_system_def then_c_def ret_c_def)
qed

text \<open>What the start-up leaves in each register.\<close>

fun init_value :: "cfg_reg \<Rightarrow> u32 \<Rightarrow> u32" where
  "init_value CFG_RESET_GRAL v = (v AND NOT 15) OR 0x818"
| "init_value CFG_NSAMPLES v = 1048576"
| "init_value CFG_TRLVL_1 v = 8190"
| "init_value CFG_TRLVL_2 v = 8190"
| "init_value CFG_STRLVL_1 v = 8190"
| "init_value CFG_STRLVL_2 v = 8190"
| "init_value CFG_TR_SCAL_A v = 1"
| "init_value CFG_TR_SCAL_B v = 1"
| "init_value CFG_HV1 v = 0"
| "init_value CFG_HV2 v = 0"
| "init_value r v = v"

lemma reset_bits:
  "(((((v AND - 9) AND - 2) AND - 5) AND - 3 OR 16) OR 8) OR 2048 = v AND - 16 OR (2072 :: u32)"
  by (simp add: and.assoc or.assoc)

lemma init_ups_value: "fold (\<lambda>(r, f) v. if r = q then f v else v) init_ups v = init_value q v"
  by (cases q) (simp_all add: init_ups_def FGPS_EN_MASK_def reset_bits)

section \<open>The calibration of the slow outputs\<close>

lemma hv_a_val: "hv_a = 2959521 / 33554432"
  by code_simp

lemma hv_b_val: "hv_b = 8110903 / 1048576"
  by code_simp

lemma float_to_u32_floor:
  assumes "0 \<le> x" "x < 4294967296"
  shows "float_to_u32 x = Inr (to_u32 \<lfloor>x\<rfloor>)" and "uint (to_u32 \<lfloor>x\<rfloor>) = \<lfloor>x\<rfloor>"
  using assms by (simp_all add: float_to_u32_def trunc_rat_def uint_to_u32 floor_less_iff)

text \<open>The conversion of a rounded value to an unsigned integer.\<close>

lemma abs_diff_leD: "\<bar>x - y\<bar> \<le> (e :: rat) \<Longrightarrow> x \<le> y + e \<and> y - e \<le> x"
  by linarith

lemma floor_rat_bounds: "of_int \<lfloor>x :: rat\<rfloor> \<le> x \<and> x < of_int \<lfloor>x\<rfloor> + 1"
  by linarith

lemma trunc_near:
  assumes "0 \<le> e" "e \<le> M" "M \<le> 65536"
  obtains k where "float_to_u32 (f32 e) = Inr (to_u32 k)" "0 \<le> k" "uint (to_u32 k) = k"
    "e - 1 - M * (1 / 16777216) < of_int k" "of_int k \<le> e + M * (1 / 16777216)"
proof -
  have "\<bar>f32 e - e\<bar> \<le> M * (1 / 16777216)" using assms by (intro fp32.rnd_near) linarith
  note err = abs_diff_leD [OF this]
  have x: "0 \<le> f32 e" "f32 e < 4294967296" using assms err fp32.rnd_nonneg [of e] by linarith+
  show thesis
  proof (rule that)
    show "float_to_u32 (f32 e) = Inr (to_u32 \<lfloor>f32 e\<rfloor>)" "uint (to_u32 \<lfloor>f32 e\<rfloor>) = \<lfloor>f32 e\<rfloor>"
      using x by (rule float_to_u32_floor)+
    show "0 \<le> \<lfloor>f32 e\<rfloor>" using x by simp
    show "e - 1 - M * (1 / 16777216) < of_int \<lfloor>f32 e\<rfloor>" "of_int \<lfloor>f32 e\<rfloor> \<le> e + M * (1 / 16777216)"
      using err floor_rat_bounds [of "f32 e"] by linarith+
  qed
qed

text \<open>The rounding errors of a linear calibration.\<close>

lemma calib_err:
  assumes "0 \<le> a * x" "0 \<le> b" "a * x + b \<le> M"
  shows "\<bar>f32 (f32 (a * x) + b) - (a * x + b)\<bar> \<le> 3 * M * (1 / 16777216)"
proof -
  have "\<bar>f32 (a * x) - a * x\<bar> \<le> M * (1 / 16777216)" using assms by (intro fp32.rnd_near) linarith
  then have "\<bar>(f32 (a * x) + b) - (a * x + b)\<bar> \<le> M * (1 / 16777216)" by simp
  moreover have "\<bar>a * x + b\<bar> \<le> M" using assms by linarith
  ultimately have "\<bar>f32 (f32 (a * x) + b) - (a * x + b)\<bar> \<le> M * (1 / 16777216) + (M + M * (1 / 16777216)) * (1 / 16777216)"
    by (intro fp32.rnd_near_trans)
  also have "\<dots> \<le> 3 * M * (1 / 16777216)" using assms by simp
  finally show ?thesis .
qed

lemma hv_mV_err:
  assumes "0 \<le> j" "j < 16777216" "hv_a * of_int j + hv_b \<le> M"
  shows "\<bar>hv_mV (to_u32 j) - (hv_a * of_int j + hv_b)\<bar> \<le> 3 * M * (1 / 16777216)"
proof -
  have "f32 (of_int j) = of_int j" "uint (to_u32 j) = j" using assms by (auto intro: fp32.rnd_int uint_to_u32)
  then show ?thesis using calib_err [of hv_a "of_int j" hv_b M] assms(1,3) by (simp add: hv_mV_def hv_a_val hv_b_val)
qed

text \<open>
  Setting an output to \<open>v\<close> millivolts, \<open>8 \<le> v \<le> 2500\<close>, succeeds with a DAC word of at
  most 28265, and reading that word back through the calibration formula that the status
  report prints gives a value that is at most 1.0893 mV below \<open>v\<close> and at most 0.001 mV
  above it, every rounding of single precision included.
\<close>

lemma dac_accuracy:
  assumes "8 \<le> v" "v \<le> 2500"
  shows "\<exists>n. dac_of_mV v = Inr n \<and> uint n \<le> 28265
    \<and> of_int v - 10893 / 10000 < hv_mV n \<and> hv_mV n \<le> of_int v + 1 / 1000"
proof -
  have v: "8 \<le> (of_int v :: rat)" "(of_int v :: rat) \<le> 2500" using assms by auto
  have fv: "f32 (of_int v) = of_int v" using assms by (intro fp32.rnd_int) simp
  obtain k where k: "float_to_u32 (f32 (of_int v - hv_b)) = Inr (to_u32 k)" "0 \<le> k" "uint (to_u32 k) = k"
      "of_int v - hv_b - 1 - 2500 * (1 / 16777216) < of_int k" "of_int k \<le> of_int v - hv_b + 2500 * (1 / 16777216)"
    by (rule trunc_near [of "of_int v - hv_b" 2500]) (use v in \<open>simp_all add: hv_b_val\<close>)
  have k2: "0 \<le> (of_int k :: rat)" "(of_int k :: rat) \<le> 2493" using k(2,5) v by (simp_all add: hv_b_val)
  have fk: "f32 (of_int k) = of_int k" using k2 by (intro fp32.rnd_int) linarith
  obtain j where j: "float_to_u32 (f32 (of_int k / hv_a)) = Inr (to_u32 j)" "0 \<le> j" "uint (to_u32 j) = j"
      "of_int k / hv_a - 1 - 28400 * (1 / 16777216) < of_int j" "of_int j \<le> of_int k / hv_a + 28400 * (1 / 16777216)"
    by (rule trunc_near [of "of_int k / hv_a" 28400]) (use k2 in \<open>simp_all add: hv_a_val\<close>)
  have "(of_int j :: rat) < 28266" using j(5) k2 by (simp add: hv_a_val)
  then have j2: "j \<le> 28265" by simp
  have aj: "of_int k - 884 / 10000 < hv_a * of_int j" "hv_a * of_int j \<le> of_int k + 2 / 10000"
    using j(4,5) by (simp_all add: hv_a_val)
  have "hv_a * of_int j + hv_b \<le> 2510" using aj(2) k2 by (simp add: hv_b_val)
  note err = abs_diff_leD [OF hv_mV_err [OF j(2) _ this]]
  have "dac_of_mV v = Inr (to_u32 j)" unfolding dac_of_mV_def fv k(1) bind_res_simps k(3) fk j(1) ..
  moreover have "of_int v - 10893 / 10000 < hv_mV (to_u32 j)" "hv_mV (to_u32 j) \<le> of_int v + 1 / 1000"
    using k(4,5) aj err j2 by linarith+
  ultimately show ?thesis using j(3) j2 by (intro exI [of _ "to_u32 j"]) simp
qed

text \<open>
  A request of 6 mV or less, negative ones included, converts a floating value of at
  most \<open>-1\<close> to an unsigned integer: undefined behaviour, before anything is written.  The
  command line checks the upper limit only.
\<close>

lemma set_voltage_small_undefined:
  assumes "v \<le> 6" "- 16777216 < v"
  shows "set_voltage off v s = Inl BadConv"
proof -
  have fv: "f32 (of_int v) = of_int v" using assms by (intro fp32.rnd_int) simp
  have v: "of_int v \<le> (6 :: rat)" using assms(1) by simp
  let ?e = "of_int v - hv_b"
  have e: "?e < - 17 / 10" using v by (simp add: hv_b_val)
  have "\<bar>f32 ?e - ?e\<bar> \<le> \<bar>?e\<bar> * (1 / 16777216)" by (rule fp32.rnd_err)
  then have "f32 ?e \<le> - 1" using e by (auto simp: abs_if split: if_splits)
  then have "dac_of_mV v = Inl BadConv" by (simp add: dac_of_mV_def fv float_to_u32_def)
  then show ?thesis by (simp add: set_voltage_def cm_defs)
qed

text \<open>A state with every device mapped, and an environment, for the examples.\<close>

definition sample_env :: zenv where
  "sample_env = \<lparr>hw_read = (\<lambda>log d off. 0), os_open = (\<lambda>path. 5), os_size = (\<lambda>path. Some ''0x00001000''),
     os_mmap = (\<lambda>path len off. True), os_cma = (\<lambda>sz. Some 0x1E000000), pagesize = 4096\<rparr>"

definition sample_zio :: zio where
  "sample_zio = \<lparr>c_out = [], c_err = [], fds = (\<lambda>_. 0), ptrs = (\<lambda>_. Mapped 4096), dev_size = 0,
     cfg_mem = (\<lambda>_. 0), accs = []\<rparr>"

lemma sample_mapped [simp]: "mapped sample_zio d 92"
  by (simp add: sample_zio_def mapped_def)

section \<open>Start-up\<close>

text \<open>
  C8. With the configuration bank mapped, the start-up returns 0 and leaves every register
  of the map with its documented value: trigger levels at 8190, outputs at 0, scalers at 1,
  2^20 samples; in the control register the four reset bits 0 to 2 are cleared, the false GPS
  (bit 4), the ramp generators (bit 3) and MASTER mode (bit 11) are set, and the remaining
  bits keep their value.  No other register and no other part of the state changes.
\<close>

theorem init_system_regs:
  assumes "mapped s Cfg 92"
  shows "\<exists>s'. init_system env s = Inr (0, s')
    \<and> (\<forall>r. cfg_mem s' (cfg_off r) = init_value r (cfg_mem s (cfg_off r)))
    \<and> (\<forall>off. off \<notin> range cfg_off \<longrightarrow> cfg_mem s' off = cfg_mem s off)
    \<and> s' = s\<lparr>cfg_mem := cfg_mem s', accs := accs s'\<rparr>"
proof -
  obtain a where run: "init_system env s = Inr (0, (cfg_upds init_ups s)\<lparr>accs := a\<rparr>)"
    using init_system_run [OF assms] by blast
  have "cfg_mem (cfg_upds init_ups s) (cfg_off r) = init_value r (cfg_mem s (cfg_off r))" for r
    using cfg_bank.rd_upds [of init_ups s r] by (simp add: init_ups_value)
  moreover have "off \<notin> range cfg_off \<Longrightarrow> cfg_mem (cfg_upds init_ups s) off = cfg_mem s off" for off
    by (rule cfg_upds_outside)
  moreover have "(cfg_upds init_ups s)\<lparr>accs := a\<rparr> = s\<lparr>cfg_mem := cfg_mem (cfg_upds init_ups s), accs := a\<rparr>"
    by (subst cfg_upds_frame) simp
  ultimately show ?thesis using run by (intro exI [of _ "(cfg_upds init_ups s)\<lparr>accs := a\<rparr>"]) simp
qed

theorem init_system_regs_witness:
  "mapped sample_zio Cfg 92 \<and> (\<exists>s'. init_system sample_env sample_zio = Inr (0, s')
     \<and> cfg_mem s' (cfg_off CFG_RESET_GRAL) = 0x818 \<and> cfg_mem s' (cfg_off CFG_NSAMPLES) = 1048576)"
proof -
  obtain s' where "init_system sample_env sample_zio = Inr (0, s')"
    and r: "\<And>r. cfg_mem s' (cfg_off r) = init_value r (cfg_mem sample_zio (cfg_off r))"
    using init_system_regs [of sample_zio sample_env] by auto
  then show ?thesis using r [of CFG_RESET_GRAL] r [of CFG_NSAMPLES]
    by (auto simp: sample_zio_def mapped_def)
qed

text \<open>
  \<open>disable_interrupt\<close> writes the master enable register with every bit set except that
  bit 0, the master enable itself, keeps the value it was read with: the controller stays
  enabled if it was.  The comment in the code announces the opposite.
\<close>

lemma disable_interrupt_keeps_ME:
  assumes "mapped s Intc 92"
  shows "\<exists>s' v. disable_interrupt env s = Inr (0, s') \<and>
    accs s' = accs s @ [Wr Intc 0x8 0, Rd Intc 0x1C, Wr Intc 0x1C (v OR NOT 1), Wr Intc 0xC 1]
    \<and> v = hw_read env (accs s @ [Wr Intc 0x8 0]) Intc 0x1C
    \<and> bit (v OR NOT 1) 0 = bit v 0 \<and> (\<forall>k. 0 < k \<longrightarrow> k < 32 \<longrightarrow> bit (v OR NOT 1) k)"
proof -
  have chk: "dev_check Intc off t = Inr ((), t)" if "ptrs t = ptrs s" "off \<in> {0x8, 0x1C, 0xC}" for off t
    using assms that by (auto simp: dev_check_def mapped_def split: ptr.splits)
  show ?thesis
    by (simp add: disable_interrupt_def cm_defs dev_write_def dev_read_def chk reg_store_def
        reg_value_def bit_or_iff bit_not_iff bit_1_iff)
qed

section \<open>Mapping a device\<close>

lemma page_up_ge: "0 < pagesize env \<Longrightarrow> n \<le> page_up env n"
proof -
  assume p: "0 < pagesize env"
  let ?q = "(n + pagesize env - 1) div pagesize env"
  have "n + pagesize env - 1 < pagesize env * ?q + pagesize env"
    using p by (metis add_less_cancel_left mod_less_divisor mult_div_mod_eq)
  then show ?thesis using p by (simp add: page_up_def mult.commute)
qed

lemma get_memory_size_frame: "get_memory_size env path s = Inr (sz, s') \<Longrightarrow> s' = s"
  by (auto simp: get_memory_size_def cm_defs split: option.splits sum.splits stop.splits)

text \<open>
  A UIO initialisation that returns gives 0 exactly when the device was opened and is now
  mapped with at least as many bytes as its sysfs file announces, and -1 when the open
  failed (the pointer keeps its old value) or the mapping failed (the pointer is
  \<open>MAP_FAILED\<close>); it never touches another device's pointer, a register or the access log.
\<close>

lemma uio_init_contract:
  assumes "uio_init env d who who_map uiod sysfs s = Inr (r, s')" and "0 < pagesize env"
  shows "(r = 0 \<and> 1 \<le> os_open env uiod \<and> (\<exists>n. ptrs s' d = Mapped n \<and> unat (dev_size s') \<le> n)
      \<or> r = - 1 \<and> (os_open env uiod < 1 \<and> ptrs s' d = ptrs s d \<or> ptrs s' d = MapFailed))
    \<and> (\<forall>e. e \<noteq> d \<longrightarrow> ptrs s' e = ptrs s e) \<and> cfg_mem s' = cfg_mem s \<and> accs s' = accs s"
  using assms page_up_ge [of env]
  by (auto simp: uio_init_def open_dev_def mmap_dev_def set_size_def cm_defs Let_def
      split: if_splits sum.splits dest!: get_memory_size_frame)

end
