(* ===== verification/Uart.thy ===== *)
theory Uart
  imports Zynq_Io
begin

text \<open>
  The serial port of the GPS receiver, \<^verbatim>\<open>projects/lago_v1_5/src/uart_rp.c\<close>.  The state of the
  whole program is a chain of records; this theory adds the port: its descriptor, the results
  the coming \<open>read\<close> calls will have (a byte, or nothing yet), the seconds slept while waiting,
  and the log of the other calls on the port.
\<close>

section \<open>State\<close>

datatype rx = NoData | RxByte char

datatype tty_flag = B9600 | CS8 | CLOCAL | CREAD | IGNPAR

datatype tty_ev = TtyFlush | TtySetAttr "tty_flag list" "tty_flag list" "tty_flag list" "tty_flag list"
  | TtyWrite string | TtyClose | TtyAlloc nat | TtyFree

record uart_st = zio +
  uart_fd :: int
  rx_in :: "rx list"
  slept :: nat
  tty :: "tty_ev list"

definition tty_do :: "tty_ev \<Rightarrow> ('a uart_st_scheme, unit) cm" where
  [cm_defs]: "tty_do e = mod_c (\<lambda>s. s\<lparr>tty := tty s @ [e]\<rparr>)"

definition PORTNAME :: string where
  "PORTNAME = ''/dev/ttyPS1''"

section \<open>Operations\<close>

definition rp_UartInit :: "zenv \<Rightarrow> ('a uart_st_scheme, int) cm" where
  "rp_UartInit env = (let fd = os_open env PORTNAME in
     then_c (mod_c (\<lambda>s. s\<lparr>uart_fd := fd\<rparr>))
     (if fd = - 1 then then_c (eprintf (''Failed to open uart.'' @ nl)) (ret_c (- 1)) else ret_c 0))"

definition rp_UartConfig :: "('a uart_st_scheme, unit) cm" where
  "rp_UartConfig = then_c (tty_do TtyFlush) (tty_do (TtySetAttr [B9600, CS8, CLOCAL, CREAD] [IGNPAR] [] []))"

text \<open>
  The fresh block \<open>malloc\<close> gives for a size is a parameter (\<open>None\<close> when memory is short), as is the
  result of \<open>write\<close>.  The line is copied with its NUL, then the last two bytes are set.
\<close>

definition store_at :: "string \<Rightarrow> int \<Rightarrow> char \<Rightarrow> string res" where
  "store_at b i c = (if 0 \<le> i \<and> i < int (length b) then Inr (b[nat i := c]) else Inl OutOfBounds)"

definition strcpy_into :: "string \<Rightarrow> string \<Rightarrow> string res" where
  "strcpy_into b s = (if length s < length b then Inr (s @ nul # drop (Suc (length s)) b) else Inl OutOfBounds)"

definition rp_UartPrintln :: "(nat \<Rightarrow> string option) \<Rightarrow> (string \<Rightarrow> int) \<Rightarrow> string \<Rightarrow> int
    \<Rightarrow> ('a uart_st_scheme, int) cm" where
  "rp_UartPrintln alloc wr line len = bind_c (get_c uart_fd) (\<lambda>fd.
     if fd = - 1 then ret_c 0
     else then_c (tty_do (TtyAlloc (nat (len + 1))))
      (case alloc (nat (len + 1)) of
        None \<Rightarrow> stop_c NullDeref
      | Some blk \<Rightarrow>
        bind_c (lift_c (strcpy_into blk line)) (\<lambda>b.
        bind_c (lift_c (store_at b (len - 1) (CHR 0x0D))) (\<lambda>b.
        bind_c (lift_c (store_at b len (CHR 0x0A))) (\<lambda>b.
        then_c (tty_do (TtyWrite b))
        (if wr b < 0 then then_c (eprintf (''UART TX error.'' @ nl)) (ret_c (- 1))
         else then_c (tty_do TtyFree) (ret_c 0)))))))"

text \<open>
  The read loop: \<open>i\<close> is the offset of the write pointer in the caller's buffer; the size the caller passes is not
  consulted.  It ends at a newline; when the port has nothing more to give it waits forever.
\<close>

fun readln_loop :: "nat \<Rightarrow> string \<Rightarrow> nat \<Rightarrow> rx list \<Rightarrow> (string \<times> nat \<times> rx list) res" where
  "readln_loop i buf k [] = Inl Blocked"
| "readln_loop i buf k (NoData # r) = readln_loop i buf (Suc k) r"
| "readln_loop i buf k (RxByte c # r) = (if length buf \<le> i then Inl OutOfBounds
     else if c = CHR 0x0A then Inr (buf[i := nul], k, r)
     else readln_loop (Suc i) (buf[i := c]) k r)"

definition rp_UartReadln :: "string \<Rightarrow> int \<Rightarrow> ('a uart_st_scheme, int \<times> string) cm" where
  "rp_UartReadln buffer len = (\<lambda>s. if uart_fd s < 0 then Inl Blocked
     else case readln_loop 0 buffer (slept s) (rx_in s) of
       Inl e \<Rightarrow> Inl e
     | Inr (buf, k, r) \<Rightarrow> Inr ((0, buf), s\<lparr>rx_in := r, slept := k\<rparr>))"

definition rp_UartClose :: "('a uart_st_scheme, unit) cm" where
  "rp_UartClose = then_c (tty_do TtyFlush) (tty_do TtyClose)"

section \<open>What the read loop delivers\<close>

text \<open>The bytes among the results of the read calls.\<close>

fun rx_bytes :: "rx list \<Rightarrow> string" where
  "rx_bytes [] = []"
| "rx_bytes (NoData # r) = rx_bytes r"
| "rx_bytes (RxByte c # r) = c # rx_bytes r"

fun rx_gaps :: "rx list \<Rightarrow> nat" where
  "rx_gaps [] = 0"
| "rx_gaps (NoData # r) = Suc (rx_gaps r)"
| "rx_gaps (RxByte c # r) = rx_gaps r"

lemma readln_loop_run:
  assumes "CHR 0x0A \<notin> set (rx_bytes ev)" and "i + length (rx_bytes ev) < length buf"
  shows "readln_loop i buf k (ev @ RxByte (CHR 0x0A) # rest) =
    Inr (take i buf @ rx_bytes ev @ nul # drop (Suc (i + length (rx_bytes ev))) buf, k + rx_gaps ev, rest)"
  using assms
proof (induction ev arbitrary: i buf k rule: rx_bytes.induct)
  case 1
  then show ?case by (simp add: upd_conv_take_nth_drop)
next
  case (3 c r)
  then have "take (Suc i) (buf[i := c]) = take i buf @ [c]" by (simp add: take_Suc_conv_app_nth)
  with 3 show ?case by auto
qed simp

lemma readln_loop_overflow:
  assumes "CHR 0x0A \<notin> set (rx_bytes ev)" and "i \<le> length buf" and "length buf \<le> i + length (rx_bytes ev)"
  shows "readln_loop i buf k (ev @ RxByte (CHR 0x0A) # rest) = Inl OutOfBounds"
  using assms
proof (induction ev arbitrary: i buf k rule: rx_bytes.induct)
  case (3 c r)
  then show ?case by (cases "i = length buf") auto
qed auto

lemma readln_loop_blocks:
  assumes "CHR 0x0A \<notin> set (rx_bytes ev)" and "i + length (rx_bytes ev) \<le> length buf"
  shows "readln_loop i buf k ev = Inl Blocked"
  using assms by (induction ev arbitrary: i buf k rule: rx_bytes.induct) auto

text \<open>
  C36. A line arriving at the port, with any number of empty reads between its bytes, is
  delivered whole and NUL-terminated, the later input stays queued and every empty read costs
  one second of sleep, when the line with its NUL fits in the caller's buffer.  When it does
  not fit, the loop writes past the buffer whatever size \<open>len\<close> the caller announced; and
  without a newline it never returns.
\<close>

theorem readln_line:
  assumes "0 \<le> uart_fd s" and "CHR 0x0A \<notin> set (rx_bytes ev)"
  shows "(rx_in s = ev @ RxByte (CHR 0x0A) # rest \<longrightarrow> rp_UartReadln buffer len s =
      (if length (rx_bytes ev) < length buffer
       then Inr ((0, rx_bytes ev @ nul # drop (Suc (length (rx_bytes ev))) buffer),
              s\<lparr>rx_in := rest, slept := slept s + rx_gaps ev\<rparr>)
       else Inl OutOfBounds))
    \<and> (rx_in s = ev \<and> length (rx_bytes ev) \<le> length buffer \<longrightarrow> rp_UartReadln buffer len s = Inl Blocked)"
  using assms readln_loop_run [of ev 0 buffer "slept s" rest] readln_loop_overflow [of ev 0 buffer "slept s" rest]
    readln_loop_blocks [of ev 0 buffer "slept s"]
  by (simp add: rp_UartReadln_def)

definition sample_uart :: uart_st where
  "sample_uart = zio.extend sample_zio \<lparr>uart_fd = 3,
     rx_in = [RxByte CHR ''o'', NoData, RxByte CHR ''k'', RxByte (CHR 0x0A), RxByte CHR ''x''], slept = 0, tty = []\<rparr>"

theorem readln_line_witness:
  "map_sum id fst (rp_UartReadln (replicate 8 nul) 8 sample_uart) = Inr (0, ''ok'' @ replicate 6 nul)
   \<and> rp_UartReadln (replicate 2 nul) 256 sample_uart = Inl OutOfBounds"
proof -
  have fd: "0 \<le> uart_fd sample_uart" by (simp add: sample_uart_def zio.defs)
  let ?ev = "[RxByte CHR ''o'', NoData, RxByte CHR ''k'']"
  have in_s: "rx_in sample_uart = ?ev @ RxByte (CHR 0x0A) # [RxByte CHR ''x'']"
    by (simp add: sample_uart_def zio.defs)
  have nonl: "CHR 0x0A \<notin> set (rx_bytes ?ev)" by simp
  show ?thesis
    using readln_line [OF fd nonl, of "[RxByte CHR ''x'']" "replicate 8 nul" 8]
      readln_line [OF fd nonl, of "[RxByte CHR ''x'']" "replicate 2 nul" 256] in_s
    by (simp add: numeral_eq_Suc)
qed

text \<open>Sending a line: the two last bytes of the \<open>len + 1\<close> written are the line end.\<close>

lemma println_sends:
  assumes "uart_fd s \<noteq> - 1" and "len = int (length line) + 1" and "alloc (length line + 2) = Some blk"
    and "length blk = length line + 2" and "0 \<le> wr (line @ [CHR 0x0D, CHR 0x0A])"
  shows "map_sum id fst (rp_UartPrintln alloc wr line len s) = Inr 0"
    and "\<exists>s'. rp_UartPrintln alloc wr line len s = Inr (0, s') \<and>
      tty s' = tty s @ [TtyAlloc (length line + 2), TtyWrite (line @ [CHR 0x0D, CHR 0x0A]), TtyFree]"
proof -
  have n: "nat (len + 1) = length line + 2" using assms(2) by simp
  obtain x y where d: "drop (length line) blk = [x, y]"
  proof -
    have "length (drop (length line) blk) = Suc (Suc 0)" using assms(4) by simp
    then show ?thesis using that by (metis length_0_conv length_Suc_conv)
  qed
  have "drop (Suc (length line)) blk = [y]" using d by (metis drop_Suc list.sel(3) tl_drop)
  then have b: "strcpy_into blk line = Inr (line @ [nul, y])" using assms(4) by (simp add: strcpy_into_def)
  have c: "store_at (line @ [nul, y]) (len - 1) (CHR 0x0D) = Inr (line @ [CHR 0x0D, y])"
    using assms(2) by (simp add: store_at_def)
  have e: "store_at (line @ [CHR 0x0D, y]) len (CHR 0x0A) = Inr (line @ [CHR 0x0D, CHR 0x0A])"
    using assms(2) by (simp add: store_at_def nat_add_distrib list_update_append)
  show "map_sum id fst (rp_UartPrintln alloc wr line len s) = Inr 0"
    using assms(1,3,5) b c e n by (simp add: rp_UartPrintln_def cm_defs)
  show "\<exists>s'. rp_UartPrintln alloc wr line len s = Inr (0, s') \<and>
      tty s' = tty s @ [TtyAlloc (length line + 2), TtyWrite (line @ [CHR 0x0D, CHR 0x0A]), TtyFree]"
    using assms(1,3,5) b c e n by (simp add: rp_UartPrintln_def cm_defs)
qed

end
