(* ===== verification/Nmea.thy ===== *)
theory Nmea
  imports C_String
begin

text \<open>
  The parser of the receiver's NMEA sentences, \<^verbatim>\<open>projects/lago_v1_5/src/nmea_rp.c\<close>.  A message is
  the caller's buffer: its characters up to the NUL are the string the library functions see,
  while the checksum loop walks the raw bytes.
\<close>

section \<open>Data\<close>

text \<open>
  The character fields are \<open>None\<close> while the caller's structure still holds what was on the
  stack; the other fields are always set before they are read.
\<close>

record gpgga =
  gg_times :: rat
  gg_latitude :: rat
  gg_lat :: "char option"
  gg_longitude :: rat
  gg_lon :: "char option"
  gg_quality :: u8
  gg_satellites :: u8
  gg_altitude :: rat

record gprmc =
  rm_times :: rat
  rm_latitude :: rat
  rm_lat :: "char option"
  rm_longitude :: rat
  rm_lon :: "char option"
  rm_speed :: rat
  rm_course :: rat
  rm_date :: rat

definition NMEA_EMPTY :: u8 where "NMEA_EMPTY = 0x00"
definition NMEA_GPRMC :: u8 where "NMEA_GPRMC = 0x01"
definition NMEA_GPGGA :: u8 where "NMEA_GPGGA = 0x02"
definition NMEA_UNKNOWN :: u8 where "NMEA_UNKNOWN = 0x00"
definition NMEA_COMPLETED :: u8 where "NMEA_COMPLETED = 0x03"
definition NMEA_CHECKSUM_ERR :: u8 where "NMEA_CHECKSUM_ERR = 0x80"
definition NMEA_GPRMC_STR :: string where "NMEA_GPRMC_STR = ''$GPRMC''"
definition NMEA_GPGGA_STR :: string where "NMEA_GPGGA_STR = ''$GPGGA''"

lemmas nmea_consts = NMEA_EMPTY_def NMEA_GPRMC_def NMEA_GPGGA_def NMEA_UNKNOWN_def NMEA_COMPLETED_def
  NMEA_CHECKSUM_ERR_def NMEA_GPRMC_STR_def NMEA_GPGGA_STR_def

section \<open>Checksum\<close>

text \<open>The exclusive or of the bytes up to the next star, wherever in memory it is.\<close>

fun xor_to_star :: "u8 \<Rightarrow> string \<Rightarrow> u8 res" where
  "xor_to_star acc [] = Inl OutOfBounds"
| "xor_to_star acc (c # cs) = (if c = CHR ''*'' then Inr acc else xor_to_star (acc XOR of_char c) cs)"

definition rp_NmeaValidChecksum :: "string \<Rightarrow> u8 res" where
  "rp_NmeaValidChecksum buf =
     bind_res (cstr buf) (\<lambda>message.
     bind_res (after_chr message CHR ''*'') (\<lambda>t.
       let checksum = word_of_int (strtol16 t) :: u8 in
     bind_res (xor_to_star 0 (tl buf)) (\<lambda>sum.
       Inr (if sum \<noteq> checksum then NMEA_CHECKSUM_ERR else NMEA_EMPTY))))"

definition rp_NmeaGetMessageType :: "string \<Rightarrow> u8 res" where
  "rp_NmeaGetMessageType buf = bind_res (rp_NmeaValidChecksum buf) (\<lambda>checksum.
     if checksum \<noteq> NMEA_EMPTY then Inr checksum
     else bind_res (cstr buf) (\<lambda>message.
       if strstr message NMEA_GPGGA_STR then Inr NMEA_GPGGA
       else if strstr message NMEA_GPRMC_STR then Inr NMEA_GPRMC
       else Inr NMEA_UNKNOWN))"

section \<open>Fields\<close>

text \<open>The hemisphere letter at the start of a field; any other letter leaves the old value.\<close>

definition hemisphere :: "char \<Rightarrow> char \<Rightarrow> string \<Rightarrow> char option \<Rightarrow> char option" where
  "hemisphere a b ptr old = (case ptr of [] \<Rightarrow> old | c # _ \<Rightarrow>
     if c = a then Some a else if c = b then Some b else if c = CHR '','' then Some nul else old)"

definition rp_NmeaParseGpgga :: "string \<Rightarrow> gpgga \<Rightarrow> gpgga res" where
  "rp_NmeaParseGpgga nmea loc =
     bind_res (after_chr nmea CHR '','') (\<lambda>ptr. let loc = loc\<lparr>gg_times := atof ptr\<rparr> in
     bind_res (after_chr ptr CHR '','') (\<lambda>ptr. let loc = loc\<lparr>gg_latitude := atof ptr\<rparr> in
     bind_res (after_chr ptr CHR '','') (\<lambda>ptr. let loc = loc\<lparr>gg_lat := hemisphere CHR ''N'' CHR ''S'' ptr (gg_lat loc)\<rparr> in
     bind_res (after_chr ptr CHR '','') (\<lambda>ptr. let loc = loc\<lparr>gg_longitude := atof ptr\<rparr> in
     bind_res (after_chr ptr CHR '','') (\<lambda>ptr. let loc = loc\<lparr>gg_lon := hemisphere CHR ''W'' CHR ''E'' ptr (gg_lon loc)\<rparr> in
     bind_res (after_chr ptr CHR '','') (\<lambda>ptr. let loc = loc\<lparr>gg_quality := word_of_int (atoi ptr)\<rparr> in
     bind_res (after_chr ptr CHR '','') (\<lambda>ptr. let loc = loc\<lparr>gg_satellites := word_of_int (atoi ptr)\<rparr> in
     bind_res (after_chr ptr CHR '','') (\<lambda>ptr.
     bind_res (after_chr ptr CHR '','') (\<lambda>ptr. Inr (loc\<lparr>gg_altitude := atof ptr\<rparr>))))))))))"

definition rp_NmeaParseGprmc :: "string \<Rightarrow> gprmc \<Rightarrow> gprmc res" where
  "rp_NmeaParseGprmc nmea loc =
     bind_res (after_chr nmea CHR '','') (\<lambda>ptr. let loc = loc\<lparr>rm_times := atof ptr\<rparr> in
     bind_res (after_chr ptr CHR '','') (\<lambda>ptr.
     bind_res (after_chr ptr CHR '','') (\<lambda>ptr. let loc = loc\<lparr>rm_latitude := atof ptr\<rparr> in
     bind_res (after_chr ptr CHR '','') (\<lambda>ptr. let loc = loc\<lparr>rm_lat := hemisphere CHR ''N'' CHR ''S'' ptr (rm_lat loc)\<rparr> in
     bind_res (after_chr ptr CHR '','') (\<lambda>ptr. let loc = loc\<lparr>rm_longitude := atof ptr\<rparr> in
     bind_res (after_chr ptr CHR '','') (\<lambda>ptr. let loc = loc\<lparr>rm_lon := hemisphere CHR ''W'' CHR ''E'' ptr (rm_lon loc)\<rparr> in
     bind_res (after_chr ptr CHR '','') (\<lambda>ptr. let loc = loc\<lparr>rm_speed := atof ptr\<rparr> in
     bind_res (after_chr ptr CHR '','') (\<lambda>ptr. let loc = loc\<lparr>rm_course := atof ptr\<rparr> in
     bind_res (after_chr ptr CHR '','') (\<lambda>ptr. Inr (loc\<lparr>rm_date := atof ptr\<rparr>))))))))))"

section \<open>Checksum: what is accepted\<close>

definition xor_bytes :: "string \<Rightarrow> u8" where
  "xor_bytes s = foldl (\<lambda>a c. a XOR of_char c) 0 s"

lemma xor_foldl: "foldl (\<lambda>a c. a XOR of_char c) acc s = acc XOR xor_bytes s"
proof (induction s arbitrary: acc)
  case (Cons c s)
  show ?case using Cons [of "acc XOR of_char c"] Cons [of "of_char c"]
    by (simp add: xor_bytes_def xor.assoc)
qed (simp add: xor_bytes_def)

lemma xor_bytes_simps [simp]:
  "xor_bytes [] = 0"
  "xor_bytes (c # s) = of_char c XOR xor_bytes s"
  "xor_bytes (s @ t) = xor_bytes s XOR xor_bytes t"
proof -
  show "xor_bytes [] = 0" by (simp add: xor_bytes_def)
  show "xor_bytes (c # s) = of_char c XOR xor_bytes s"
    using xor_foldl [of "of_char c" s] by (simp add: xor_bytes_def)
  show "xor_bytes (s @ t) = xor_bytes s XOR xor_bytes t"
    using xor_foldl [of "xor_bytes s" t] by (simp add: xor_bytes_def)
qed

lemma xor_to_star_run: "CHR ''*'' \<notin> set body \<Longrightarrow> xor_to_star acc (body @ CHR ''*'' # t) = Inr (acc XOR xor_bytes body)"
  by (induction body arbitrary: acc) (auto simp: xor.assoc)

text \<open>The shape of a sentence in the buffer: a first character, the body, a star, the checksum digits.\<close>

definition framed :: "char \<Rightarrow> string \<Rightarrow> string \<Rightarrow> string \<Rightarrow> string" where
  "framed c body t junk = c # body @ CHR ''*'' # t @ nul # junk"

lemma framed_string:
  assumes "nul \<notin> set (c # body)" "nul \<notin> set t"
  shows "cstr (framed c body t junk) = Inr (c # body @ CHR ''*'' # t)"
proof -
  have "nul \<noteq> CHR ''*''" by (simp add: nul_def)
  then show ?thesis
    using assms cstr_append_nul [of "c # body @ CHR ''*'' # t" junk] by (simp add: framed_def)
qed

lemma checksum_framed:
  assumes "nul \<notin> set (c # body)" "nul \<notin> set t" "CHR ''*'' \<notin> set (c # body)"
  shows "rp_NmeaValidChecksum (framed c body t junk) =
    Inr (if xor_bytes body = word_of_int (strtol16 t) then NMEA_EMPTY else NMEA_CHECKSUM_ERR)"
proof -
  have "after_chr (c # body @ CHR ''*'' # t) CHR ''*'' = Inr t"
    using assms(3) after_chr_append [of "CHR ''*''" "c # body" t] by simp
  then show ?thesis
    using assms framed_string [OF assms(1,2), of junk] xor_to_star_run [of body 0]
    by (simp add: rp_NmeaValidChecksum_def framed_def Let_def)
qed

lemma xor_word_cancel: "(p XOR (q XOR r) = p XOR (q' XOR r)) = (q = (q' :: u8))"
proof
  assume "p XOR (q XOR r) = p XOR (q' XOR r)"
  then have "p XOR (p XOR (q XOR r)) XOR r = p XOR (p XOR (q' XOR r)) XOR r" by simp
  then show "q = q'" by (simp add: xor.assoc [symmetric]) (simp add: xor.assoc)
qed simp

lemma uint_of_char: "uint (of_char c :: u8) = of_char c"
  by (cases c) (simp add: of_char_Char)

text \<open>The two digits a receiver appends, and that \<open>strtol\<close> reads them back.\<close>

definition hex_digit :: "int \<Rightarrow> char" where
  "hex_digit d = char_of (if d < 10 then d + 48 else d + 55)"

definition hex2 :: "u8 \<Rightarrow> string" where
  "hex2 b = [hex_digit (uint b div 16), hex_digit (uint b mod 16)]"

lemma hex_digit_plain:
  assumes "0 \<le> d" "d < 16"
  shows "digit_val (hex_digit d) = d" "\<not> is_space (hex_digit d)" "hex_digit d \<noteq> CHR ''-''"
    "hex_digit d \<noteq> CHR ''+''" "hex_digit d \<noteq> CHR ''x''" "hex_digit d \<noteq> CHR ''X''" "hex_digit d \<noteq> nul"
    "hex_digit d \<noteq> CHR ''*''"
proof -
  have v: "chr_val (hex_digit d) = (if d < 10 then d + 48 else d + 55)"
    using assms by (simp add: hex_digit_def chr_val_def of_char_of)
  show "digit_val (hex_digit d) = d" using assms v by (auto simp: digit_val_def Let_def)
  show "\<not> is_space (hex_digit d)" using assms v by (auto simp: is_space_def)
  have "chr_val CHR ''-'' = 45" "chr_val CHR ''+'' = 43" "chr_val CHR ''x'' = 120" "chr_val CHR ''X'' = 88"
    "chr_val nul = 0" "chr_val CHR ''*'' = 42"
    by (simp_all add: chr_val_def nul_def)
  then show "hex_digit d \<noteq> CHR ''-''" "hex_digit d \<noteq> CHR ''+''" "hex_digit d \<noteq> CHR ''x''"
    "hex_digit d \<noteq> CHR ''X''" "hex_digit d \<noteq> nul" "hex_digit d \<noteq> CHR ''*''"
    using assms v by (auto split: if_splits)
qed

lemma strtol16_hex2:
  assumes "t = [] \<or> \<not> digit_val (hd t) < 16"
  shows "strtol16 (hex2 b @ t) = uint b"
proof -
  have b: "0 \<le> uint b" "uint b < 256" using uint_lt2p [of b] by simp_all
  then have h: "0 \<le> uint b div 16" "uint b div 16 < 16" "0 \<le> uint b mod 16" "uint b mod 16 < 16"
    by (auto simp: pos_imp_zdiv_nonneg_iff)
  note d1 = hex_digit_plain [OF h(1,2)] and d2 = hex_digit_plain [OF h(3,4)]
  have stop: "digit_run 16 v t = (v, t)" for v using assms by (cases t) auto
  have "skip_0x (hex2 b @ t) = hex2 b @ t"
    using d2 by (auto simp: skip_0x_def hex2_def split: list.splits)
  moreover have "uint b div 16 * 16 + uint b mod 16 = uint b" by simp
  ultimately show ?thesis
    using b d1 d2 h stop by (simp add: strtol16_def hex2_def sign_of_def Let_def)
qed

text \<open>
  C19. Acceptance: a well-framed sentence, the dollar sign, a body, a star and the two
  hexadecimal digits of the exclusive or of the body, followed by nothing or by a non-digit such as the carriage return,
  passes the checksum test and is classified by its contents; with any other two digits it is
  reported as a checksum error.  The bytes of the buffer behind the string play no part.
\<close>

theorem checksum_round_trip:
  assumes "nul \<notin> set body" "CHR ''*'' \<notin> set body" and "nul \<notin> set tail" "tail = [] \<or> \<not> digit_val (hd tail) < 16"
  shows "rp_NmeaGetMessageType (framed CHR ''$'' body (hex2 ck @ tail) junk) =
    Inr (if ck \<noteq> xor_bytes body then NMEA_CHECKSUM_ERR
      else let message = CHR ''$'' # body @ CHR ''*'' # hex2 ck @ tail in
        if \<exists>a b. message = a @ NMEA_GPGGA_STR @ b then NMEA_GPGGA
        else if \<exists>a b. message = a @ NMEA_GPRMC_STR @ b then NMEA_GPRMC else NMEA_UNKNOWN)"
proof -
  have h: "0 \<le> uint ck div 16" "uint ck div 16 < 16" "0 \<le> uint ck mod 16" "uint ck mod 16 < 16"
    using uint_lt2p [of ck] by (auto simp: pos_imp_zdiv_nonneg_iff)
  have n: "nul \<notin> set (hex2 ck @ tail)"
    using assms(3) hex_digit_plain(7) [OF h(1,2)] hex_digit_plain(7) [OF h(3,4)] by (auto simp: hex2_def)
  have d: "nul \<notin> set (CHR ''$'' # body)" "CHR ''*'' \<notin> set (CHR ''$'' # body)"
    using assms(1,2) by (auto simp: nul_def)
  have w: "word_of_int (strtol16 (hex2 ck @ tail)) = ck" using strtol16_hex2 [OF assms(4)] by simp
  have ne: "NMEA_CHECKSUM_ERR \<noteq> NMEA_EMPTY" "NMEA_GPGGA_STR \<noteq> []" "NMEA_GPRMC_STR \<noteq> []"
    by (simp_all add: nmea_consts)
  show ?thesis
    using checksum_framed [OF d(1) n d(2), of junk] framed_string [OF d(1) n, of junk] ne
    by (simp add: rp_NmeaGetMessageType_def w strstr_iff Let_def del: strstr.simps)
qed

theorem checksum_round_trip_witness:
  "rp_NmeaGetMessageType (framed CHR ''$'' ''GPGGA,0'' (hex2 (xor_bytes ''GPGGA,0'') @ [CHR 0x0D]) []) = Inr NMEA_GPGGA"
proof -
  have "\<exists>a b. CHR ''$'' # ''GPGGA,0'' @ CHR ''*'' # hex2 (xor_bytes ''GPGGA,0'') @ [CHR 0x0D] = a @ NMEA_GPGGA_STR @ b"
    by (rule exI [of _ "[]"]) (simp add: NMEA_GPGGA_STR_def)
  then show ?thesis
    using checksum_round_trip [of "''GPGGA,0''" "[CHR 0x0D]" "xor_bytes ''GPGGA,0''" "[]"]
    by (simp add: nul_def digit_val_def chr_val_def Let_def)
qed

text \<open>
  C20. Error detection: replacing one byte of the body of an accepted sentence by a different
  one, other than NUL and the star, is always detected.
\<close>

theorem checksum_detects_byte_error:
  assumes "rp_NmeaValidChecksum (framed c (a @ x # b) t junk) = Inr NMEA_EMPTY" and "x \<noteq> y"
    and "nul \<notin> set (c # a @ x # y # b)" "CHR ''*'' \<notin> set (c # a @ x # y # b)" "nul \<notin> set t"
  shows "rp_NmeaGetMessageType (framed c (a @ y # b) t junk) = Inr NMEA_CHECKSUM_ERR"
proof -
  have ne: "NMEA_CHECKSUM_ERR \<noteq> NMEA_EMPTY" by (simp add: nmea_consts)
  have "xor_bytes (a @ x # b) = word_of_int (strtol16 t)"
    using assms(1) checksum_framed [of c "a @ x # b" t junk] assms(3-5) ne by (auto split: if_splits)
  moreover have "xor_bytes (a @ x # b) \<noteq> xor_bytes (a @ y # b)"
  proof
    assume "xor_bytes (a @ x # b) = xor_bytes (a @ y # b)"
    then have "(of_char x :: u8) = of_char y" by (simp add: xor_word_cancel)
    then have "uint (of_char x :: u8) = uint (of_char y :: u8)" by simp
    then show False using assms(2) by (simp add: uint_of_char)
  qed
  ultimately show ?thesis
    using checksum_framed [of c "a @ y # b" t junk] assms(3-5) ne by (auto simp: rp_NmeaGetMessageType_def)
qed

theorem checksum_detects_byte_error_witness:
  "rp_NmeaGetMessageType (framed CHR ''$'' ''GPXMC'' (hex2 (xor_bytes ''GPRMC'')) []) = Inr NMEA_CHECKSUM_ERR"
proof -
  have "rp_NmeaValidChecksum (framed CHR ''$'' (''GP'' @ CHR ''R'' # ''MC'') (hex2 (xor_bytes ''GPRMC'')) []) = Inr NMEA_EMPTY"
    by code_simp
  moreover have "nul \<notin> set (hex2 (xor_bytes ''GPRMC''))" by code_simp
  ultimately show ?thesis
    using checksum_detects_byte_error [of "CHR ''$''" "''GP''" "CHR ''R''" "''MC''" _ "[]" "CHR ''X''"]
    by (simp add: nul_def)
qed

text \<open>
  A line without a star stops the program: the result of \<open>strchr\<close> is used unchecked.  The
  empty line is one.
\<close>

lemma line_without_star_crashes:
  assumes "nul \<notin> set line" and "CHR ''*'' \<notin> set line"
  shows "rp_NmeaGetMessageType (line @ nul # junk) = Inl NullDeref"
  using assms
  by (simp add: rp_NmeaGetMessageType_def rp_NmeaValidChecksum_def after_chr_def strchr_None_iff [THEN iffD2])

section \<open>Field extraction\<close>

text \<open>A comma-separated line, and the number of commas of one.\<close>

fun csv :: "string list \<Rightarrow> string \<Rightarrow> string" where
  "csv [] rest = rest"
| "csv (f # fs) rest = f @ CHR '','' # csv fs rest"

definition commas :: "string \<Rightarrow> nat" where
  "commas s = length (filter ((=) CHR '','') s)"

definition hemi_field :: "char \<Rightarrow> char \<Rightarrow> string \<Rightarrow> char option \<Rightarrow> char option" where
  "hemi_field a b f old = (case f of [] \<Rightarrow> Some nul | c # _ \<Rightarrow> if c = a then Some a else if c = b then Some b else old)"

lemma hemisphere_field:
  "CHR '','' \<notin> set f \<Longrightarrow> a \<noteq> CHR '','' \<Longrightarrow> b \<noteq> CHR '','' \<Longrightarrow>
   hemisphere a b (f @ CHR '','' # r) old = hemi_field a b f old"
  by (cases f) (auto simp: hemisphere_def hemi_field_def)

lemma after_chr_commas: "after_chr s CHR '','' = Inr t \<Longrightarrow> commas s = Suc (commas t)"
  by (auto simp: after_chr_def commas_def filter_empty_conv dest!: strchr_Some split: option.splits)

lemma too_few_commas:
  assumes "commas s < Suc n" and "\<And>t. commas t < n \<Longrightarrow> K t = Inl NullDeref"
  shows "bind_res (after_chr s CHR '','') K = Inl NullDeref"
proof (cases "after_chr s CHR '',''")
  case (Inl e)
  then show ?thesis by (auto simp: after_chr_def split: option.splits)
next
  case (Inr t)
  then show ?thesis using assms after_chr_commas [OF Inr] by simp
qed

lemma nine_fields:
  assumes "length fs = 9"
  obtains f0 f1 f2 f3 f4 f5 f6 f7 f8 where "fs = [f0, f1, f2, f3, f4, f5, f6, f7, f8]"
  using assms by (auto simp: length_Suc_conv numeral_eq_Suc)

lemma gpgga_fields:
  assumes "length fs = 9" "\<forall>f \<in> set fs. CHR '','' \<notin> set f"
  shows "rp_NmeaParseGpgga (csv fs rest) loc = Inr (loc\<lparr>gg_times := atof (fs ! 1), gg_latitude := atof (fs ! 2),
      gg_lat := hemi_field CHR ''N'' CHR ''S'' (fs ! 3) (gg_lat loc), gg_longitude := atof (fs ! 4),
      gg_lon := hemi_field CHR ''W'' CHR ''E'' (fs ! 5) (gg_lon loc), gg_quality := word_of_int (atoi (fs ! 6)),
      gg_satellites := word_of_int (atoi (fs ! 7)), gg_altitude := atof rest\<rparr>)"
proof -
  from assms(1) obtain f0 f1 f2 f3 f4 f5 f6 f7 f8 where "fs = [f0, f1, f2, f3, f4, f5, f6, f7, f8]"
    by (rule nine_fields)
  with assms show ?thesis
    by (simp add: rp_NmeaParseGpgga_def Let_def atof_comma atoi_comma hemisphere_field)
qed

text \<open>
  A position sentence is decoded field by field: with nine comma-free fields in front, each
  value of the structure is the number in its own field and nothing of its neighbours, an empty
  hemisphere field gives NUL and an unknown letter leaves the structure's old value.  A
  sentence with fewer than nine commas stops the program.
\<close>

lemma parse_gpgga_fields:
  "(length fs = 9 \<and> (\<forall>f \<in> set fs. CHR '','' \<notin> set f) \<longrightarrow>
    rp_NmeaParseGpgga (csv fs rest) loc = Inr (loc\<lparr>gg_times := atof (fs ! 1), gg_latitude := atof (fs ! 2),
      gg_lat := hemi_field CHR ''N'' CHR ''S'' (fs ! 3) (gg_lat loc), gg_longitude := atof (fs ! 4),
      gg_lon := hemi_field CHR ''W'' CHR ''E'' (fs ! 5) (gg_lon loc), gg_quality := word_of_int (atoi (fs ! 6)),
      gg_satellites := word_of_int (atoi (fs ! 7)), gg_altitude := atof rest\<rparr>))
   \<and> (commas line < 9 \<longrightarrow> rp_NmeaParseGpgga line loc = Inl NullDeref)"
proof (intro conjI impI)
  assume "commas line < 9"
  then show "rp_NmeaParseGpgga line loc = Inl NullDeref"
    unfolding rp_NmeaParseGpgga_def Let_def by (intro too_few_commas) (assumption | auto simp: numeral_eq_Suc)+
qed (simp add: gpgga_fields)

text \<open>The same for the recommended-minimum sentence, whose status field is skipped.\<close>

lemma parse_gprmc_fields:
  assumes "length fs = 9" "\<forall>f \<in> set fs. CHR '','' \<notin> set f"
  shows "rp_NmeaParseGprmc (csv fs rest) loc = Inr (loc\<lparr>rm_times := atof (fs ! 1), rm_latitude := atof (fs ! 3),
      rm_lat := hemi_field CHR ''N'' CHR ''S'' (fs ! 4) (rm_lat loc), rm_longitude := atof (fs ! 5),
      rm_lon := hemi_field CHR ''W'' CHR ''E'' (fs ! 6) (rm_lon loc), rm_speed := atof (fs ! 7),
      rm_course := atof (fs ! 8), rm_date := atof rest\<rparr>)"
proof -
  from assms(1) obtain f0 f1 f2 f3 f4 f5 f6 f7 f8 where "fs = [f0, f1, f2, f3, f4, f5, f6, f7, f8]"
    by (rule nine_fields)
  with assms show ?thesis
    by (simp add: rp_NmeaParseGprmc_def Let_def atof_comma atoi_comma hemisphere_field)
qed

lemma parse_gprmc_too_few: "commas line < 9 \<Longrightarrow> rp_NmeaParseGprmc line loc = Inl NullDeref"
  unfolding rp_NmeaParseGprmc_def Let_def by (intro too_few_commas) (assumption | auto simp: numeral_eq_Suc)+

end
