(* ===== verification/Gps.thy ===== *)
theory Gps
  imports Uart Nmea
begin

text \<open>
  The GPS receiver, \<^verbatim>\<open>projects/lago_v1_5/src/gps_rp.c\<close>: sentences are read from the serial port
  until one position sentence and one recommended-minimum sentence have been seen, and the
  coordinates are converted from degrees and minutes to decimal degrees.
\<close>

section \<open>Coordinates\<close>

record loc =
  l_times :: rat
  l_date :: rat
  l_latitude :: rat
  l_longitude :: rat
  l_speed :: rat
  l_altitude :: rat
  l_course :: rat
  l_satellites :: rat

text \<open>\<open>deg_point\<close> is degrees times 100 plus minutes; every operation rounds to double precision.\<close>

definition dec_of :: "int \<Rightarrow> int \<Rightarrow> rat \<Rightarrow> rat" where
  "dec_of deg minutes sec =
     (let absdlat = of_int (round_away (f64 (of_int deg * 1000000)));
          absmlat = of_int (round_away (f64 (of_int minutes * 1000000)));
          absslat = of_int (round_away (f64 (sec * 1000000))) in
      f64 (of_int (round_away (f64 (f64 (absdlat + f64 (absmlat / 60)) + f64 (absslat / 3600)))) / 1000000))"

definition gps_deg_dec :: "rat \<Rightarrow> rat res" where
  "gps_deg_dec deg_point =
     (let ddeg = of_int (trunc_rat deg_point);
          sec = f64 ((deg_point - ddeg) * 60) in
      bind_res (float_to_s32 (f64 (ddeg / 100))) (\<lambda>deg.
      bind_res (float_to_s32 (f64 (deg_point - of_int (wrap32 (deg * 100))))) (\<lambda>minutes.
        Inr (dec_of deg minutes sec))))"

lemma gps_deg_dec_parts:
  assumes "float_to_s32 (f64 (of_int (trunc_rat x) / 100)) = Inr d"
    and "float_to_s32 (f64 (x - of_int (wrap32 (d * 100)))) = Inr m"
  shows "gps_deg_dec x = Inr (dec_of d m (f64 ((x - of_int (trunc_rat x)) * 60)))"
  using assms by (simp add: gps_deg_dec_def Let_def)

definition signed_coord :: "char \<Rightarrow> rat \<Rightarrow> char option \<Rightarrow> rat res" where
  "signed_coord pos v c = (case c of None \<Rightarrow> Inl Uninit | Some d \<Rightarrow> Inr (if d = pos then v else - v))"

definition gps_convert_deg_to_dec :: "rat \<Rightarrow> char option \<Rightarrow> rat \<Rightarrow> char option \<Rightarrow> (rat \<times> rat) res" where
  "gps_convert_deg_to_dec latitude ns longitude we =
     bind_res (signed_coord CHR ''N'' latitude ns) (\<lambda>lat.
     bind_res (signed_coord CHR ''E'' longitude we) (\<lambda>lon.
     bind_res (gps_deg_dec lat) (\<lambda>dlat.
     bind_res (gps_deg_dec lon) (\<lambda>dlon. Inr (dlat, dlon)))))"

section \<open>The acquisition loop\<close>

definition gps_init :: "zenv \<Rightarrow> ('a uart_st_scheme, unit) cm" where
  "gps_init env = then_c (rp_UartInit env) rp_UartConfig"

definition gps_on :: "('a uart_st_scheme, unit) cm" where
  "gps_on = ret_c ()"

definition gps_off :: "('a uart_st_scheme, unit) cm" where
  "gps_off = rp_UartClose"

text \<open>The structures on the stack before a sentence is parsed into them.\<close>

definition gpgga0 :: gpgga where
  "gpgga0 = \<lparr>gg_times = 0, gg_latitude = 0, gg_lat = None, gg_longitude = 0, gg_lon = None, gg_quality = 0,
     gg_satellites = 0, gg_altitude = 0\<rparr>"

definition gprmc0 :: gprmc where
  "gprmc0 = \<lparr>rm_times = 0, rm_latitude = 0, rm_lat = None, rm_longitude = 0, rm_lon = None, rm_speed = 0,
     rm_course = 0, rm_date = 0\<rparr>"

text \<open>The body of the loop for the sentence in the buffer: the new status and coordinates.\<close>

definition gps_message :: "string \<Rightarrow> u8 \<Rightarrow> loc \<Rightarrow> (u8 \<times> loc) res" where
  "gps_message buffer status coord =
     bind_res (rp_NmeaGetMessageType buffer) (\<lambda>ty.
     bind_res (cstr buffer) (\<lambda>nmea.
     if ty = NMEA_GPGGA then
       bind_res (rp_NmeaParseGpgga nmea gpgga0) (\<lambda>g.
       bind_res (gps_convert_deg_to_dec (gg_latitude g) (gg_lat g) (gg_longitude g) (gg_lon g)) (\<lambda>(lat, lon).
         Inr (status OR NMEA_GPGGA, coord\<lparr>l_times := gg_times g, l_latitude := lat, l_longitude := lon,
           l_altitude := gg_altitude g, l_satellites := of_int (uint (gg_satellites g))\<rparr>)))
     else if ty = NMEA_GPRMC then
       bind_res (rp_NmeaParseGprmc nmea gprmc0) (\<lambda>g.
         Inr (status OR NMEA_GPRMC, coord\<lparr>l_speed := rm_speed g, l_course := rm_course g, l_date := rm_date g\<rparr>))
     else Inr (status, coord)))"

lemma readln_loop_decreases: "readln_loop i buf k r = Inr (b, k', r') \<Longrightarrow> length r' < length r"
  by (induction i buf k r rule: readln_loop.induct) (auto split: if_splits)

lemma readln_decreases: "rp_UartReadln buf len s = Inr (v, s') \<Longrightarrow> length (rx_in s') < length (rx_in s)"
  by (auto simp: rp_UartReadln_def split: if_splits sum.splits prod.splits dest: readln_loop_decreases)

text \<open>
  The loop, with the uninitialised contents \<open>stack\<close> of its 256-byte buffer.  It ends when both
  sentences have been seen; input that never brings them makes a read wait forever.
\<close>

function gps_loop :: "string \<Rightarrow> u8 \<Rightarrow> loc \<Rightarrow> 'a uart_st_scheme \<Rightarrow> (loc \<times> 'a uart_st_scheme) res" where
  "gps_loop stack status coord s =
     (if status = NMEA_COMPLETED then Inr (coord, s)
      else case rp_UartReadln stack 256 s of
        Inl e \<Rightarrow> Inl e
      | Inr ((_, buffer), s') \<Rightarrow> (case gps_message buffer status coord of
          Inl e \<Rightarrow> Inl e
        | Inr (status', coord') \<Rightarrow> gps_loop stack status' coord' s'))"
  by pat_completeness auto
termination
  by (relation "measure (\<lambda>(stack, status, coord, s). length (rx_in s))") (auto dest: readln_decreases)

declare gps_loop.simps [simp del]

definition gps_location :: "string \<Rightarrow> loc \<Rightarrow> ('a uart_st_scheme, loc) cm" where
  "gps_location stack coord = gps_loop stack NMEA_EMPTY coord"

definition gps_print_data :: "zenv \<Rightarrow> string \<Rightarrow> loc \<Rightarrow> ('a uart_st_scheme, int) cm" where
  "gps_print_data env stack data = then_c (gps_init env)
     (bind_c (gps_location stack data) (\<lambda>data.
      bind_c (lift_c (float_to_u32 (l_times data))) (\<lambda>t.
      then_c (printf (''Time      : '' @ fmt_0d 6 (of_u32 t) @ nl))
     (bind_c (lift_c (float_to_u32 (l_date data))) (\<lambda>d.
      then_c (printf (''Date      : '' @ fmt_0d 6 (of_u32 d) @ nl))
     (then_c (printf (''Latitude  : '' @ fmt_f 6 (l_latitude data) @ nl))
     (then_c (printf (''Longitude : '' @ fmt_f 6 (l_longitude data) @ nl))
     (then_c (printf (''Altitude  : '' @ fmt_f 1 (l_altitude data) @ nl))
     (bind_c (lift_c (float_to_u32 (l_satellites data))) (\<lambda>n.
      then_c (printf (''Satellites: '' @ fmt_d (of_u32 n) @ nl)) (ret_c 0)))))))))))"

section \<open>The loop over a stream of lines\<close>

text \<open>
  What the loop needs of its source of lines, and of itself as a client: a line that was fed in comes out, padded
  with what the buffer holds behind it, and the later lines stay; the loop ends on a
  complete status and otherwise handles one line.
\<close>

locale line_source =
  fixes read_line :: "'s \<Rightarrow> (string \<times> 's) res"
    and feed :: "string list \<Rightarrow> 's \<Rightarrow> 's"
    and fits :: "string \<Rightarrow> bool"
    and pad :: "string \<Rightarrow> string"
  assumes read_feed: "fits l \<Longrightarrow> read_line (feed (l # ls) s) = Inr (pad l, feed ls s)"

locale line_client = line_source read_line feed fits pad
  for read_line :: "'s \<Rightarrow> (string \<times> 's) res" and feed fits pad +
  fixes handle :: "string \<Rightarrow> 'm \<Rightarrow> 'm res" and complete :: "'m \<Rightarrow> bool" and loop :: "'m \<Rightarrow> 's \<Rightarrow> ('m \<times> 's) res"
  assumes loop_done: "complete m \<Longrightarrow> loop m s = Inr (m, s)"
    and loop_step: "\<not> complete m \<Longrightarrow> read_line s = Inr (b, s') \<Longrightarrow> handle b m = Inr m' \<Longrightarrow> loop m s = loop m' s'"
begin

text \<open>Lines that leave the status incomplete are consumed one by one.\<close>

lemma loop_skip:
  assumes "\<And>l. l \<in> set ls \<Longrightarrow> fits l \<and> handle (pad l) m = Inr m" and "\<not> complete m"
  shows "loop m (feed (ls @ rest) s) = loop m (feed rest s)"
  using assms(1)
proof (induction ls)
  case (Cons l ls)
  have "read_line (feed ((l # ls) @ rest) s) = Inr (pad l, feed (ls @ rest) s)"
    using Cons.prems by (simp add: read_feed)
  then show ?case using loop_step [OF assms(2)] Cons by fastforce
qed simp

lemma loop_feed:
  assumes "fits l" "\<not> complete m" "handle (pad l) m = Inr m'"
  shows "loop m (feed (l # ls) s) = loop m' (feed ls s)"
  using loop_step [OF assms(2) read_feed [OF assms(1)] assms(3)] .

lemma loop_last:
  assumes "fits l" "\<not> complete m" "handle (pad l) m = Inr m'" "complete m'"
  shows "loop m (feed (l # ls) s) = Inr (m', feed ls s)"
  using loop_feed [OF assms(1-3)] loop_done [OF assms(4)] by simp

end

text \<open>The serial port is such a source, with the lines queued in front of what it holds.\<close>

definition lines_rx :: "string list \<Rightarrow> rx list" where
  "lines_rx ls = concat (map (\<lambda>l. map RxByte l @ [RxByte (CHR 0x0A)]) ls)"

definition line_ok :: "string \<Rightarrow> bool" where
  "line_ok l \<longleftrightarrow> CHR 0x0A \<notin> set l \<and> length l < 256"

definition port_feed :: "string list \<Rightarrow> 'a uart_st_scheme \<Rightarrow> 'a uart_st_scheme" where
  "port_feed ls s = s\<lparr>uart_fd := max 0 (uart_fd s), rx_in := lines_rx ls @ rx_in s\<rparr>"

definition in_buffer :: "string \<Rightarrow> string \<Rightarrow> string" where
  "in_buffer stack l = l @ nul # drop (Suc (length l)) stack"

definition port_read :: "string \<Rightarrow> 'a uart_st_scheme \<Rightarrow> (string \<times> 'a uart_st_scheme) res" where
  "port_read stack s = (case rp_UartReadln stack 256 s of Inl e \<Rightarrow> Inl e | Inr ((_, b), s') \<Rightarrow> Inr (b, s'))"

definition gps_handle :: "string \<Rightarrow> u8 \<times> loc \<Rightarrow> (u8 \<times> loc) res" where
  "gps_handle b m = gps_message b (fst m) (snd m)"

definition port_loop :: "string \<Rightarrow> u8 \<times> loc \<Rightarrow> 'a uart_st_scheme \<Rightarrow> ((u8 \<times> loc) \<times> 'a uart_st_scheme) res" where
  "port_loop stack m s = (case gps_loop stack (fst m) (snd m) s of Inl e \<Rightarrow> Inl e
     | Inr (c, s') \<Rightarrow> Inr ((NMEA_COMPLETED, c), s'))"

lemma rx_bytes_RxByte [simp]: "rx_bytes (map RxByte l) = l" "rx_gaps (map RxByte l) = 0"
  by (induction l) auto

lemma port_read_feed:
  assumes "line_ok l" and "length stack = 256"
  shows "port_read stack (port_feed (l # ls) s) = Inr (in_buffer stack l, port_feed ls s)"
proof -
  have "readln_loop 0 stack (slept s) (map RxByte l @ RxByte (CHR 0x0A) # lines_rx ls @ rx_in s) =
      Inr (l @ nul # drop (Suc (length l)) stack, slept s, lines_rx ls @ rx_in s)"
    using readln_loop_run [of "map RxByte l" 0 stack "slept s" "lines_rx ls @ rx_in s"] assms
    by (simp add: line_ok_def)
  then show ?thesis
    by (simp add: port_read_def port_feed_def rp_UartReadln_def lines_rx_def in_buffer_def)
qed

lemma port_loop_done: "fst m = NMEA_COMPLETED \<Longrightarrow> port_loop stack m s = Inr (m, s)"
  by (cases m) (simp add: port_loop_def gps_loop.simps)

lemma port_loop_step:
  assumes "fst m \<noteq> NMEA_COMPLETED" "port_read stack s = Inr (b, s')" "gps_handle b m = Inr m'"
  shows "port_loop stack m s = port_loop stack m' s'"
proof -
  obtain r where r: "rp_UartReadln stack 256 s = Inr ((r, b), s')"
    using assms(2) by (auto simp: port_read_def split: sum.splits prod.splits)
  have "gps_loop stack (fst m) (snd m) s = gps_loop stack (fst m') (snd m') s'"
    using assms(1,3) r by (simp add: gps_loop.simps [of stack "fst m"] gps_handle_def split: prod.splits)
  then show ?thesis by (simp add: port_loop_def)
qed

text \<open>Any contents of the 256-byte buffer.\<close>

definition stack256 :: "string \<Rightarrow> string" where
  "stack256 stack = take 256 (stack @ replicate 256 nul)"

lemma length_stack256 [simp]: "length (stack256 stack) = 256"
  by (simp add: stack256_def)

lemma stack256_id: "length stack = 256 \<Longrightarrow> stack256 stack = stack"
  by (simp add: stack256_def)

interpretation port: line_client "port_read (stack256 stack)" port_feed line_ok "in_buffer (stack256 stack)" gps_handle
  "\<lambda>m. fst m = NMEA_COMPLETED" "port_loop (stack256 stack)" for stack
  by unfold_locales (simp_all add: port_read_feed port_loop_done port_loop_step)

section \<open>Acquisition of a position\<close>

lemma gps_location_port:
  assumes "0 \<le> uart_fd s" "rx_in s = lines_rx ls @ rest" "length stack = 256"
    and "port_loop (stack256 stack) (NMEA_EMPTY, coord) (port_feed ls (s\<lparr>rx_in := rest\<rparr>)) = Inr (m, s')"
  shows "gps_location stack coord s = Inr (snd m, s')"
proof -
  have "port_feed ls (s\<lparr>rx_in := rest\<rparr>) = s" using assms(1,2) by (simp add: port_feed_def)
  then show ?thesis using assms(3,4)
    by (auto simp: port_loop_def gps_location_def stack256_id split: sum.splits prod.splits)
qed

lemma gps_message_gga:
  assumes "rp_NmeaGetMessageType b = Inr NMEA_GPGGA" "cstr b = Inr (csv fs rest)"
    "length fs = 9" "\<forall>f \<in> set fs. CHR '','' \<notin> set f" "fs ! 3 \<in> {''N'', ''S''}" "fs ! 5 \<in> {''W'', ''E''}"
    "gps_deg_dec (if fs ! 3 = ''N'' then atof (fs ! 2) else - atof (fs ! 2)) = Inr lat"
    "gps_deg_dec (if fs ! 5 = ''E'' then atof (fs ! 4) else - atof (fs ! 4)) = Inr lon"
  shows "gps_message b st c = Inr (st OR NMEA_GPGGA, c\<lparr>l_times := atof (fs ! 1), l_latitude := lat,
    l_longitude := lon, l_altitude := atof rest, l_satellites := of_int (uint (word_of_int (atoi (fs ! 7)) :: u8))\<rparr>)"
  using assms gpgga_fields [OF assms(3,4), of rest gpgga0]
  by (auto simp: gps_message_def gps_convert_deg_to_dec_def signed_coord_def hemi_field_def)

lemma gps_message_rmc:
  assumes "rp_NmeaGetMessageType b = Inr NMEA_GPRMC" "cstr b = Inr (csv fs rest)"
    "length fs = 9" "\<forall>f \<in> set fs. CHR '','' \<notin> set f"
  shows "gps_message b st c = Inr (st OR NMEA_GPRMC, c\<lparr>l_speed := atof (fs ! 7), l_course := atof (fs ! 8), l_date := atof rest\<rparr>)"
  using assms parse_gprmc_fields [OF assms(3,4), of rest gprmc0]
  by (simp add: gps_message_def nmea_consts)

lemma gps_message_other:
  assumes "rp_NmeaGetMessageType b = Inr ty" "ty \<noteq> NMEA_GPGGA" "ty \<noteq> NMEA_GPRMC" "cstr b = Inr l"
  shows "gps_message b st c = Inr (st, c)"
  using assms by (simp add: gps_message_def)

lemma cstr_in_buffer: "nul \<notin> set l \<Longrightarrow> cstr (in_buffer stack l) = Inr l"
  by (simp add: in_buffer_def)

text \<open>
  C10. Acquisition end to end: when the port delivers any number of other sentences (with a bad
  checksum or of another kind), then a position sentence and a recommended-minimum sentence,
  \<open>gps_location\<close> returns having consumed exactly these lines, and every coordinate is the value of
  its own field of the right sentence, latitude and longitude signed by hemisphere and converted to decimal degrees.
\<close>

theorem gps_location_acquires:
  assumes "0 \<le> uart_fd s" "length stack = 256" "rx_in s = lines_rx (noise @ [csv fs alt, csv gs date]) @ rest"
    and lines: "\<forall>l \<in> set (noise @ [csv fs alt, csv gs date]). line_ok l \<and> nul \<notin> set l"
    and noise: "\<forall>l \<in> set noise. \<exists>ty. rp_NmeaGetMessageType (in_buffer stack l) = Inr ty \<and> ty \<notin> {NMEA_GPGGA, NMEA_GPRMC}"
    and gga: "rp_NmeaGetMessageType (in_buffer stack (csv fs alt)) = Inr NMEA_GPGGA"
      "length fs = 9" "\<forall>f \<in> set fs. CHR '','' \<notin> set f" "fs ! 3 \<in> {''N'', ''S''}" "fs ! 5 \<in> {''W'', ''E''}"
    and rmc: "rp_NmeaGetMessageType (in_buffer stack (csv gs date)) = Inr NMEA_GPRMC"
      "length gs = 9" "\<forall>f \<in> set gs. CHR '','' \<notin> set f"
    and lat: "gps_deg_dec (if fs ! 3 = ''N'' then atof (fs ! 2) else - atof (fs ! 2)) = Inr lat"
    and lon: "gps_deg_dec (if fs ! 5 = ''E'' then atof (fs ! 4) else - atof (fs ! 4)) = Inr lon"
  shows "gps_location stack coord s = Inr (\<lparr>l_times = atof (fs ! 1), l_date = atof date, l_latitude = lat,
      l_longitude = lon, l_speed = atof (gs ! 7), l_altitude = atof alt, l_course = atof (gs ! 8),
      l_satellites = of_int (uint (word_of_int (atoi (fs ! 7)) :: u8))\<rparr>, s\<lparr>rx_in := rest\<rparr>)"
proof -
  let ?t = "s\<lparr>rx_in := rest\<rparr>" and ?buf = "in_buffer (stack256 stack)"
  let ?c1 = "coord\<lparr>l_times := atof (fs ! 1), l_latitude := lat, l_longitude := lon, l_altitude := atof alt,
    l_satellites := of_int (uint (word_of_int (atoi (fs ! 7)) :: u8))\<rparr>"
  let ?c2 = "?c1\<lparr>l_speed := atof (gs ! 7), l_course := atof (gs ! 8), l_date := atof date\<rparr>"
  let ?m0 = "(NMEA_EMPTY, coord)" and ?m1 = "(NMEA_GPGGA, ?c1)" and ?m2 = "(NMEA_COMPLETED, ?c2)"
  have st: "stack256 stack = stack" using assms(2) by (rule stack256_id)
  have skip: "line_ok l \<and> gps_handle (?buf l) ?m0 = Inr ?m0" if "l \<in> set noise" for l
    using that lines noise by (auto simp: st gps_handle_def dest!: bspec intro!: gps_message_other cstr_in_buffer)
  have h1: "gps_handle (?buf (csv fs alt)) ?m0 = Inr ?m1"
    using gps_message_gga [OF gga(1) cstr_in_buffer gga(2-5) lat lon] lines by (simp add: gps_handle_def st nmea_consts)
  have h2: "gps_handle (?buf (csv gs date)) ?m1 = Inr ?m2"
    using gps_message_rmc [OF rmc(1) cstr_in_buffer rmc(2,3)] lines by (simp add: gps_handle_def st nmea_consts)
  have ne: "NMEA_EMPTY \<noteq> NMEA_COMPLETED" "NMEA_GPGGA \<noteq> NMEA_COMPLETED" by (simp_all add: nmea_consts)
  have "port_loop (stack256 stack) ?m0 (port_feed (noise @ [csv fs alt, csv gs date]) ?t)
      = port_loop (stack256 stack) ?m0 (port_feed [csv fs alt, csv gs date] ?t)"
    using skip ne by (intro port.loop_skip) simp_all
  also have "\<dots> = port_loop (stack256 stack) ?m1 (port_feed [csv gs date] ?t)"
    using lines ne h1 by (intro port.loop_feed) simp_all
  also have "\<dots> = Inr (?m2, port_feed [] ?t)" using lines ne h2 by (intro port.loop_last) simp_all
  finally have "gps_location stack coord s = Inr (snd ?m2, port_feed [] ?t)"
    by (rule gps_location_port [OF assms(1,3,2)])
  then show ?thesis using assms(1) by (simp add: port_feed_def lines_rx_def)
qed

text \<open>The sentences of the worked example: a checksum error, a position, a recommended minimum.\<close>

definition sentence :: "string \<Rightarrow> string" where
  "sentence body = CHR ''$'' # body @ CHR ''*'' # hex2 (xor_bytes body) @ [CHR 0x0D]"

definition gga_fields :: "string list" where
  "gga_fields = [''$GPGGA'', ''123519'', ''4830.0'', ''N'', ''01130.0'', ''W'', ''1'', ''08'', ''0.9'']"

definition rmc_fields :: "string list" where
  "rmc_fields = [''$GPRMC'', ''123519'', ''A'', ''4830.0'', ''N'', ''01130.0'', ''W'', ''022.5'', ''084.5'']"

definition gga_body :: string where
  "gga_body = ''GPGGA,123519,4830.0,N,01130.0,W,1,08,0.9,545.5,M,,''"

definition rmc_body :: string where
  "rmc_body = ''GPRMC,123519,A,4830.0,N,01130.0,W,022.5,084.5,230394,,''"

definition gga_line :: string where
  "gga_line = sentence gga_body"

definition rmc_line :: string where
  "rmc_line = sentence rmc_body"

definition noise_line :: string where
  "noise_line = ''$GPGGA,1*00''"

definition gps_uart :: uart_st where
  "gps_uart = zio.extend sample_zio \<lparr>uart_fd = 3, rx_in = lines_rx [noise_line, gga_line, rmc_line] @ [NoData],
     slept = 0, tty = []\<rparr>"

definition loc0 :: loc where
  "loc0 = \<lparr>l_times = 0, l_date = 0, l_latitude = 0, l_longitude = 0, l_speed = 0, l_altitude = 0, l_course = 0,
     l_satellites = 0\<rparr>"

theorem gps_location_acquires_witness:
  "map_sum id fst (gps_location (replicate 256 nul) loc0 gps_uart) =
   Inr \<lparr>l_times = 123519, l_date = 230394, l_latitude = 97 / 2, l_longitude = - 23 / 2,
     l_speed = 45 / 2, l_altitude = 1091 / 2, l_course = 169 / 2, l_satellites = 8\<rparr>"
proof -
  let ?st = "replicate 256 nul"
  let ?alt = "''545.5,M,,'' @ CHR ''*'' # hex2 (xor_bytes gga_body) @ [CHR 0x0D]"
  let ?date = "''230394,,'' @ CHR ''*'' # hex2 (xor_bytes rmc_body) @ [CHR 0x0D]"
  have g: "csv gga_fields ?alt = gga_line" "csv rmc_fields ?date = rmc_line" by code_simp+
  have a: "\<forall>l \<in> set ([noise_line] @ [gga_line, rmc_line]). line_ok l \<and> nul \<notin> set l"
    "\<forall>f \<in> set gga_fields. CHR '','' \<notin> set f" "\<forall>f \<in> set rmc_fields. CHR '','' \<notin> set f"
    by code_simp+
  have t: "rp_NmeaGetMessageType (in_buffer ?st noise_line) = Inr NMEA_CHECKSUM_ERR"
    "rp_NmeaGetMessageType (in_buffer ?st gga_line) = Inr NMEA_GPGGA"
    "rp_NmeaGetMessageType (in_buffer ?st rmc_line) = Inr NMEA_GPRMC"
    "NMEA_CHECKSUM_ERR \<notin> {NMEA_GPGGA, NMEA_GPRMC}"
    by code_simp+
  have e: "float_to_s32 (f64 (of_int (trunc_rat 4830) / 100)) = Inr 48" "float_to_s32 (f64 (4830 - of_int (wrap32 (48 * 100)))) = Inr 30"
    "float_to_s32 (f64 (of_int (trunc_rat (- 1130)) / 100)) = Inr (- 11)"
    "float_to_s32 (f64 (- 1130 - of_int (wrap32 (- 11 * 100)))) = Inr (- 30)"
    "dec_of 48 30 (f64 ((4830 - of_int (trunc_rat 4830)) * 60)) = 97 / 2"
    "dec_of (- 11) (- 30) (f64 ((- 1130 - of_int (trunc_rat (- 1130))) * 60)) = - 23 / 2"
    by code_simp+
  have f: "(if gga_fields ! 3 = ''N'' then atof (gga_fields ! 2) else - atof (gga_fields ! 2)) = 4830"
    "(if gga_fields ! 5 = ''E'' then atof (gga_fields ! 4) else - atof (gga_fields ! 4)) = - 1130"
    by code_simp+
  have d: "gps_deg_dec (if gga_fields ! 3 = ''N'' then atof (gga_fields ! 2) else - atof (gga_fields ! 2)) = Inr (97 / 2)"
    "gps_deg_dec (if gga_fields ! 5 = ''E'' then atof (gga_fields ! 4) else - atof (gga_fields ! 4)) = Inr (- 23 / 2)"
    using gps_deg_dec_parts [OF e(1,2)] gps_deg_dec_parts [OF e(3,4)] unfolding f e(5,6) by simp_all
  have v: "atof (gga_fields ! 1) = 123519" "atof ?date = 230394" "atof (rmc_fields ! 7) = 45 / 2" "atof ?alt = 1091 / 2"
    "atof (rmc_fields ! 8) = 169 / 2" "uint (word_of_int (atoi (gga_fields ! 7)) :: u8) = 8"
    by code_simp+
  have l: "length gga_fields = 9" "length rmc_fields = 9" "gga_fields ! 3 \<in> {''N'', ''S''}" "gga_fields ! 5 \<in> {''W'', ''E''}"
    by code_simp+
  have u: "0 \<le> uart_fd gps_uart" "length ?st = 256" "rx_in gps_uart = lines_rx ([noise_line] @ [gga_line, rmc_line]) @ [NoData]"
    by (simp_all add: gps_uart_def zio.defs)
  have n: "\<forall>l \<in> set [noise_line]. \<exists>ty. rp_NmeaGetMessageType (in_buffer ?st l) = Inr ty \<and> ty \<notin> {NMEA_GPGGA, NMEA_GPRMC}"
    using t(1,4) by auto
  show ?thesis
    using gps_location_acquires [of gps_uart ?st "[noise_line]" gga_fields ?alt rmc_fields ?date "[NoData]" "97 / 2" "- 23 / 2" loc0,
        unfolded g, OF u a(1) n t(2) l(1) a(2) l(3,4) t(3) l(2) a(3) d]
    unfolding v by simp
qed

section \<open>Accuracy of the conversion to decimal degrees\<close>

lemma trunc_div_100:
  assumes "0 \<le> t" "t \<le> 18000"
  shows "float_to_s32 (f64 (of_int t / 100)) = Inr (t div 100)"
proof -
  let ?q = "of_int t / 100 :: rat"
  have tr: "(of_int t :: rat) \<le> 18000" using assms(2) by (metis of_int_le_iff of_int_numeral)
  have q: "0 \<le> ?q" "?q \<le> 180" using assms(1) tr by simp_all
  have err: "\<bar>f64 ?q - ?q\<bar> \<le> 180 * (1 / 9007199254740992)" using q by (intro fp64.rnd_near) simp
  have t: "(of_int t :: rat) = of_int (t div 100) * 100 + of_int (t mod 100)"
    by (metis of_int_add of_int_mult of_int_numeral div_mult_mod_eq)
  have "of_int (t div 100) \<le> f64 ?q \<and> f64 ?q < of_int (t div 100) + 1"
  proof (cases "t mod 100 = 0")
    case True
    have d: "t div 100 \<le> 180" "0 \<le> t div 100" using assms by auto
    have "?q = of_int (t div 100)" using t True by simp
    then show ?thesis using fp64.rnd_int [of "t div 100"] d by simp
  next
    case False
    then have "1 \<le> t mod 100" "t mod 100 \<le> 99" using pos_mod_bound [of 100 t] pos_mod_sign [of 100 t] by linarith+
    then have "(1 :: rat) \<le> of_int (t mod 100)" "(of_int (t mod 100) :: rat) \<le> 99"
      by (metis of_int_1_le_iff, metis of_int_le_iff of_int_numeral)
    then have "of_int (t div 100) + 1 / 100 \<le> ?q" "?q \<le> of_int (t div 100) + 99 / 100" using t by simp_all
    then show ?thesis using err unfolding abs_le_iff by linarith
  qed
  moreover have "0 \<le> f64 ?q" using q(1) by (rule fp64.rnd_nonneg)
  ultimately show ?thesis
    using err q by (auto simp: float_to_s32_def trunc_rat_def floor_eq_iff abs_le_iff)
qed

lemma dec_of_accurate:
  assumes "0 \<le> d" "d \<le> 180" "0 \<le> m" "m < 100" "0 \<le> s" "s < 60"
  shows "\<bar>dec_of d m s - (of_int d + of_int m / 60 + s / 3600)\<bar> \<le> 6 / 10000000"
proof -
  let ?u = "1 / 9007199254740992 :: rat"
  have dr: "0 \<le> (of_int d :: rat)" "(of_int d :: rat) \<le> of_int 180" and mr: "0 \<le> (of_int m :: rat)" "(of_int m :: rat) \<le> of_int 100"
    using assms by (simp_all only: of_int_le_iff of_int_0_le_iff less_imp_le)
  have D: "of_int (round_away (f64 (of_int d * 1000000))) = (of_int d * 1000000 :: rat)"
    using int_exact_53 [of "d * 1000000"] round_away_of_int [of "d * 1000000"] assms by simp
  have M: "of_int (round_away (f64 (of_int m * 1000000))) = (of_int m * 1000000 :: rat)"
    using int_exact_53 [of "m * 1000000"] round_away_of_int [of "m * 1000000"] assms by simp
  define S :: rat where "S = of_int (round_away (f64 (s * 1000000)))"
  have S: "\<bar>S - s * 1000000\<bar> \<le> 6 / 10"
    using fp64.rnd_near [of "s * 1000000" 60000000] round_away_err [of "f64 (s * 1000000)"] assms(5,6)
    unfolding S_def abs_le_iff by simp
  define a where "a = f64 (of_int m * 1000000 / 60)"
  have a: "\<bar>a - of_int m * 1000000 / 60\<bar> \<le> 1 / 1000"
    using fp64.rnd_near [of "of_int m * 1000000 / 60" 2000000] mr unfolding a_def abs_le_iff by simp
  define b where "b = f64 (of_int d * 1000000 + a)"
  have b: "\<bar>b - (of_int d * 1000000 + a)\<bar> \<le> 1 / 1000"
    using fp64.rnd_near [of "of_int d * 1000000 + a" 200000000] mr dr a unfolding b_def abs_le_iff by simp
  define c where "c = f64 (S / 3600)"
  have c: "\<bar>c - S / 3600\<bar> \<le> 1 / 1000"
    using fp64.rnd_near [of "S / 3600" 20000] S assms(5,6) unfolding c_def abs_le_iff by simp
  define e where "e = f64 (b + c)"
  have e: "\<bar>e - (b + c)\<bar> \<le> 1 / 1000"
    using fp64.rnd_near [of "b + c" 300000000] mr dr a b c S assms(5,6) unfolding e_def abs_le_iff by simp
  define R :: rat where "R = of_int (round_away e)"
  have R: "\<bar>R - e\<bar> \<le> 1 / 2" unfolding R_def by (rule round_away_err)
  have near: "\<bar>R - (of_int d * 1000000 + of_int m * 1000000 / 60 + s * 1000000 / 3600)\<bar> \<le> 55 / 100"
    using a b c e R S unfolding abs_le_iff by simp
  have "\<bar>f64 (R / 1000000) - R / 1000000\<bar> \<le> 1 / 100000000"
    using fp64.rnd_near [of "R / 1000000" 300] near mr dr assms(5,6) unfolding abs_le_iff by simp
  moreover have "dec_of d m s = f64 (R / 1000000)"
    by (simp add: dec_of_def Let_def D M R_def e_def b_def c_def a_def S_def)
  ultimately show ?thesis using near unfolding abs_le_iff by simp
qed

lemma dec_of_minus: "dec_of (- d) (- m) (- s) = - dec_of d m s"
  by (simp add: dec_of_def Let_def fl_minus fl_minus_diff round_away_minus)

lemma gps_parts:
  assumes "0 \<le> k" "of_int k / 2 ^ 46 \<le> (18000 :: rat)" and x_def: "x = of_int k / 2 ^ 46"
  shows "trunc_rat x = \<lfloor>x\<rfloor>" "in_s32 (\<lfloor>x\<rfloor> div 100 * 100)" "in_s32 (- (\<lfloor>x\<rfloor> div 100 * 100))"
    "0 \<le> f64 (x - of_int (\<lfloor>x\<rfloor> div 100 * 100))"
    "float_to_s32 (f64 (of_int \<lfloor>x\<rfloor> / 100)) = Inr (\<lfloor>x\<rfloor> div 100)"
    "float_to_s32 (f64 (x - of_int (\<lfloor>x\<rfloor> div 100 * 100))) = Inr (\<lfloor>x\<rfloor> mod 100)"
    "f64 ((x - of_int \<lfloor>x\<rfloor>) * 60) = (x - of_int \<lfloor>x\<rfloor>) * 60"
proof -
  let ?t = "\<lfloor>x\<rfloor>"
  have x: "0 \<le> x" "x \<le> 18000" using assms by simp_all
  show "trunc_rat x = ?t" using x by (simp add: trunc_rat_def)
  have t: "0 \<le> ?t" "?t \<le> 18000" using x by (simp_all add: floor_le_iff)
  show "float_to_s32 (f64 (of_int ?t / 100)) = Inr (?t div 100)" by (rule trunc_div_100 [OF t])
  show "in_s32 (?t div 100 * 100)" "in_s32 (- (?t div 100 * 100))" using t by (intro in_s32I; linarith)+
  have kt: "x - of_int j = of_int (k - j * 2 ^ 46) / 2 ^ 46" for j by (simp add: x_def field_simps)
  have fx: "of_int ?t \<le> x" "x < of_int ?t + 1" by linarith+
  have tq: "(of_int ?t :: rat) = of_int (?t div 100 * 100) + of_int (?t mod 100)" by (metis of_int_add div_mult_mod_eq)
  have m: "0 \<le> ?t mod 100" "?t mod 100 < 100" by simp_all
  have mr: "(0 :: rat) \<le> of_int (?t mod 100)" "(of_int (?t mod 100) :: rat) \<le> of_int 99" using m by (simp_all only: of_int_le_iff of_int_0_le_iff)
  have lo: "of_int (?t mod 100) \<le> x - of_int (?t div 100 * 100)" "x - of_int (?t div 100 * 100) < of_int (?t mod 100) + 1"
    using fx tq by linarith+
  have ex: "f64 (x - of_int (?t div 100 * 100)) = x - of_int (?t div 100 * 100)"
  proof -
    have "(of_int (k - ?t div 100 * 100 * 2 ^ 46) :: rat) = (x - of_int (?t div 100 * 100)) * 2 ^ 46" using kt [of "?t div 100 * 100"] by (simp add: field_simps)
    then have "0 \<le> (of_int (k - ?t div 100 * 100 * 2 ^ 46) :: rat)" "(of_int (k - ?t div 100 * 100 * 2 ^ 46) :: rat) < of_int (100 * 2 ^ 46)"
      using lo mr by simp_all
    then have "0 \<le> k - ?t div 100 * 100 * 2 ^ 46" "k - ?t div 100 * 100 * 2 ^ 46 < 100 * 2 ^ 46"
      by (simp_all only: of_int_less_iff of_int_0_le_iff)
    then show ?thesis unfolding kt by (intro dyadic_exact_53) simp
  qed
  then show "float_to_s32 (f64 (x - of_int (?t div 100 * 100))) = Inr (?t mod 100)"
    using lo mr by (auto simp: float_to_s32_def trunc_rat_def floor_eq_iff)
  show "0 \<le> f64 (x - of_int (?t div 100 * 100))" using ex lo mr by simp
  show "f64 ((x - of_int ?t) * 60) = (x - of_int ?t) * 60"
  proof -
    have eq: "(x - of_int ?t) * 60 = of_int ((k - ?t * 2 ^ 46) * 60) / 2 ^ 46" using kt [of ?t] by simp
    have "(of_int (k - ?t * 2 ^ 46) :: rat) = (x - of_int ?t) * 2 ^ 46" using kt [of ?t] by (simp add: field_simps)
    then have "0 \<le> (of_int (k - ?t * 2 ^ 46) :: rat)" "(of_int (k - ?t * 2 ^ 46) :: rat) < of_int (2 ^ 46)"
      using fx by simp_all
    then have "0 \<le> k - ?t * 2 ^ 46" "k - ?t * 2 ^ 46 < 2 ^ 46" by (simp_all only: of_int_less_iff of_int_0_le_iff)
    then show ?thesis unfolding eq by (intro dyadic_exact_53) simp
  qed
qed

lemma float_to_s32_minus: "0 \<le> x \<Longrightarrow> float_to_s32 x = Inr v \<Longrightarrow> float_to_s32 (- x) = Inr (- v)"
  by (auto simp: float_to_s32_def trunc_rat_minus split: if_splits)

lemma abs_minus_add: "\<bar>- a - b\<bar> = \<bar>a + (b :: rat)\<bar>"
  by simp

lemma gps_deg_dec_eval:
  assumes "0 \<le> k" "of_int k / 2 ^ 46 \<le> (18000 :: rat)" and "x = of_int k / 2 ^ 46"
  shows "gps_deg_dec x = Inr (dec_of (\<lfloor>x\<rfloor> div 100) (\<lfloor>x\<rfloor> mod 100) ((x - of_int \<lfloor>x\<rfloor>) * 60))"
    and "gps_deg_dec (- x) = Inr (- dec_of (\<lfloor>x\<rfloor> div 100) (\<lfloor>x\<rfloor> mod 100) ((x - of_int \<lfloor>x\<rfloor>) * 60))"
proof -
  note parts = gps_parts [OF assms]
  let ?d = "\<lfloor>x\<rfloor> div 100" and ?m = "\<lfloor>x\<rfloor> mod 100"
  show "gps_deg_dec x = Inr (dec_of ?d ?m ((x - of_int \<lfloor>x\<rfloor>) * 60))"
    using gps_deg_dec_parts [of x ?d ?m] parts by simp
  have "0 \<le> x" using assms by simp
  then have "0 \<le> f64 (of_int \<lfloor>x\<rfloor> / 100)" by (intro fp64.rnd_nonneg) simp
  then have d: "float_to_s32 (f64 (of_int (trunc_rat (- x)) / 100)) = Inr (- ?d)"
    using float_to_s32_minus [OF _ parts(5)] by (simp add: trunc_rat_minus parts(1) fl_minus)
  have m: "float_to_s32 (f64 (- x - of_int (wrap32 (- ?d * 100)))) = Inr (- ?m)"
    using float_to_s32_minus [OF parts(4,6)] wrap32_id [OF parts(3)] fl_minus [of 53 "x - of_int (?d * 100)"]
    by (simp add: algebra_simps)
  have eq: "(- x - of_int (trunc_rat (- x))) * 60 = - ((x - of_int \<lfloor>x\<rfloor>) * 60)"
    by (simp add: trunc_rat_minus parts(1))
  have "f64 ((- x - of_int (trunc_rat (- x))) * 60) = - ((x - of_int \<lfloor>x\<rfloor>) * 60)"
    unfolding eq fl_minus parts(7) ..
  then show "gps_deg_dec (- x) = Inr (- dec_of ?d ?m ((x - of_int \<lfloor>x\<rfloor>) * 60))"
    using gps_deg_dec_parts [OF d m] by (simp only: dec_of_minus)
qed

lemma floor_parts:
  fixes x :: rat
  assumes "0 \<le> x" "x \<le> 18000"
  shows "\<bar>dec_of (\<lfloor>x\<rfloor> div 100) (\<lfloor>x\<rfloor> mod 100) ((x - of_int \<lfloor>x\<rfloor>) * 60)
    - (of_int (trunc_rat (x / 100)) + (x - 100 * of_int (trunc_rat (x / 100))) / 60)\<bar> \<le> 6 / 10000000"
proof -
  let ?t = "\<lfloor>x\<rfloor>"
  have t: "0 \<le> ?t" "?t \<le> 18000" using assms by (simp_all add: floor_le_iff)
  have tq: "(of_int ?t :: rat) = of_int (?t div 100) * 100 + of_int (?t mod 100)"
    by (metis of_int_add of_int_mult of_int_numeral div_mult_mod_eq)
  have fx: "of_int ?t \<le> x" "x < of_int ?t + 1" by linarith+
  have "0 \<le> ?t mod 100" "?t mod 100 \<le> 99" using pos_mod_bound [of 100 ?t] by simp_all
  then have m: "(0 :: rat) \<le> of_int (?t mod 100)" "(of_int (?t mod 100) :: rat) \<le> of_int 99"
    by (simp_all only: of_int_le_iff of_int_0_le_iff)
  have "\<lfloor>x / 100\<rfloor> = ?t div 100" using tq fx m by (simp add: floor_eq_iff)
  then have "trunc_rat (x / 100) = ?t div 100" using assms by (simp add: trunc_rat_def)
  moreover have d: "0 \<le> ?t div 100" "?t div 100 \<le> 180" "0 \<le> ?t mod 100" "?t mod 100 < 100" using t by linarith+
  moreover have "of_int (?t div 100) + of_int (?t mod 100) / 60 + (x - of_int ?t) * 60 / 3600 =
      of_int (?t div 100) + (x - 100 * of_int (?t div 100)) / 60"
    using tq by (simp add: field_simps)
  moreover have "0 \<le> (x - of_int ?t) * 60" "(x - of_int ?t) * 60 < 60" using fx by simp_all
  ultimately show ?thesis using dec_of_accurate [of "?t div 100" "?t mod 100" "(x - of_int ?t) * 60"] by metis
qed

text \<open>
  C35. Accuracy of the coordinate conversion: for a position up to 180 degrees in the receiver's format (100 times the
  degrees plus the minutes, a multiple of \<open>2\<^sup>-\<^sup>4\<^sup>6\<close> as every double of at least 64 is), the
  double-precision computation succeeds and its result is within 0.6 millionths of a
  degree of degrees plus sixtieths of the minutes, for either sign.
\<close>

theorem gps_deg_dec_accurate:
  assumes "x = of_int k / 2 ^ 46" "\<bar>x\<bar> \<le> 18000"
  shows "\<exists>y. gps_deg_dec x = Inr y \<and>
    \<bar>y - (of_int (trunc_rat (x / 100)) + (x - 100 * of_int (trunc_rat (x / 100))) / 60)\<bar> \<le> 6 / 10000000"
proof (cases "0 \<le> k")
  case True
  have x: "0 \<le> x" "x \<le> 18000" using assms True by simp_all
  show ?thesis using gps_deg_dec_eval(1) [OF True _ assms(1)] floor_parts [OF x] x(2) assms(1) by blast
next
  case False
  let ?z = "- x"
  have z: "?z = of_int (- k) / 2 ^ 46" "0 \<le> ?z" "?z \<le> 18000" using assms False by simp_all
  have k: "0 \<le> - k" "of_int (- k) / 2 ^ 46 \<le> (18000 :: rat)" using False z by (simp, simp only: z(1) [symmetric])
  have e: "gps_deg_dec x = Inr (- dec_of (\<lfloor>?z\<rfloor> div 100) (\<lfloor>?z\<rfloor> mod 100) ((?z - of_int \<lfloor>?z\<rfloor>) * 60))"
    using gps_deg_dec_eval(2) [OF k z(1)] by (simp only: minus_minus)
  have "trunc_rat (?z / 100) = - trunc_rat (x / 100)" using trunc_rat_minus [of "x / 100"] by simp
  then have "\<bar>dec_of (\<lfloor>?z\<rfloor> div 100) (\<lfloor>?z\<rfloor> mod 100) ((?z - of_int \<lfloor>?z\<rfloor>) * 60)
      + (of_int (trunc_rat (x / 100)) + (x - 100 * of_int (trunc_rat (x / 100))) / 60)\<bar> \<le> 6 / 10000000"
    using floor_parts [OF z(2,3)] by (simp only: of_int_minus) (simp add: field_simps)
  then show ?thesis unfolding e abs_minus_add [symmetric] by blast
qed

theorem gps_deg_dec_accurate_witness:
  "\<exists>y. gps_deg_dec (4807 / 1) = Inr y \<and> \<bar>y - (48 + 7 / 60)\<bar> \<le> 6 / 10000000"
proof -
  have "trunc_rat (4807 / 100) = 48" by code_simp
  then show ?thesis using gps_deg_dec_accurate [of 4807 "4807 * 2 ^ 46"] by simp
qed
end
