(* ===== verification/Bmp180.thy ===== *)
theory Bmp180
  imports C_String
begin

text \<open>
  The driver of the BMP180 pressure and temperature sensor, \<^verbatim>\<open>projects/lago_v1_5/src/bmp180.c\<close>
  (the file is the same in the four releases).  The sensor is behind the I2C library: its
  answer to the last of a history of transactions is a parameter, so a statement for every
  bus covers every sensor, a missing or failing one included.  The compensation arithmetic
  is the 32-bit arithmetic of the target, with wrap-around; division by zero stops.
\<close>

section \<open>Data\<close>

record bmp180 =
  b_file :: int
  b_address :: int
  b_oss :: int
  b_i2c_device :: "string option"
  ac1 :: int
  ac2 :: int
  ac3 :: int
  ac4 :: int
  ac5 :: int
  ac6 :: int
  b1 :: int
  b2 :: int
  mb :: int
  mc :: int
  md :: int

record bmp180_eprom =
  e_ac1 :: int
  e_ac2 :: int
  e_ac3 :: int
  e_ac4 :: int
  e_ac5 :: int
  e_ac6 :: int
  e_b1 :: int
  e_b2 :: int
  e_mb :: int
  e_mc :: int
  e_md :: int

datatype coef = AC1 | AC2 | AC3 | AC4 | AC5 | AC6 | B1 | B2 | MB | MC | MD

text \<open>Register address and signedness of each calibration coefficient.\<close>

fun bmp180_register_table :: "coef \<Rightarrow> u8 \<times> bool" where
  "bmp180_register_table AC1 = (0xAA, True)"
| "bmp180_register_table AC2 = (0xAC, True)"
| "bmp180_register_table AC3 = (0xAE, True)"
| "bmp180_register_table AC4 = (0xB0, False)"
| "bmp180_register_table AC5 = (0xB2, False)"
| "bmp180_register_table AC6 = (0xB4, False)"
| "bmp180_register_table B1 = (0xB6, True)"
| "bmp180_register_table B2 = (0xB8, True)"
| "bmp180_register_table MB = (0xBA, True)"
| "bmp180_register_table MC = (0xBC, True)"
| "bmp180_register_table MD = (0xBE, True)"

text \<open>
  Bus transactions, the driver's other calls to the system, and the environment: \<open>malloc\<close> gives the usable size of the block it
  returns, \<open>open\<close> a descriptor, \<open>ioctl(I2C_SLAVE)\<close> a status, the bus its answer.
\<close>

datatype blk = StructBlk | PathBlk

datatype i2c_ev = WrByte int u8 u8 | RdWord int u8 | RdByte int u8 | USleep nat
  | Malloc blk nat | Free blk | OpenDev string int | CloseDev int | SetAddr int int

type_synonym i2c_log = "i2c_ev list"

record benv =
  be_malloc :: "nat \<Rightarrow> nat option"
  be_open :: "string \<Rightarrow> int"
  be_ioctl :: "int \<Rightarrow> int \<Rightarrow> int"
  be_bus :: "i2c_log \<Rightarrow> int"

definition i2c_do :: "i2c_ev \<Rightarrow> (i2c_log, unit) cm" where
  "i2c_do e = (\<lambda>log. Inr ((), log @ [e]))"

definition i2c_read :: "benv \<Rightarrow> i2c_ev \<Rightarrow> (i2c_log, int) cm" where
  "i2c_read env e = (\<lambda>log. Inr (be_bus env (log @ [e]), log @ [e]))"

section \<open>Raw measurements\<close>

text \<open>The library assembles words little-endian, the sensor sends them big-endian.\<close>

definition swap16 :: "int \<Rightarrow> int" where
  "swap16 data = ((data * 256) AND 0xFF00) + data div 256"

definition bmp180_read_raw_temperature :: "benv \<Rightarrow> bmp180 \<Rightarrow> (i2c_log, int) cm" where
  "bmp180_read_raw_temperature env bmp =
     then_c (i2c_do (WrByte (b_file bmp) 0xF4 0x2E))
     (then_c (i2c_do (USleep 5000))
     (bind_c (i2c_read env (RdWord (b_file bmp) 0xF6)) (\<lambda>w.
        let data = w AND 0xFFFF in ret_c (swap16 data))))"

fun oss_wait_cmd :: "u8 \<Rightarrow> nat \<times> u8" where
  "oss_wait_cmd oss = (if oss = 1 then (8000, 0x74) else if oss = 2 then (14000, 0xB4)
     else if oss = 3 then (26000, 0xF4) else (5000, 0x34))"

definition shr_checked :: "int \<Rightarrow> int \<Rightarrow> int res" where
  "shr_checked x k = (if 0 \<le> k \<and> k < 32 then Inr (x div 2 ^ nat k) else Inl BadShift)"

definition bmp180_read_raw_pressure :: "benv \<Rightarrow> bmp180 \<Rightarrow> u8 \<Rightarrow> (i2c_log, int) cm" where
  "bmp180_read_raw_pressure env bmp oss = (case oss_wait_cmd oss of (wait, cmd) \<Rightarrow>
     then_c (i2c_do (WrByte (b_file bmp) 0xF4 cmd))
     (then_c (i2c_do (USleep wait))
     (bind_c (i2c_read env (RdByte (b_file bmp) 0xF6)) (\<lambda>r0.
      bind_c (i2c_read env (RdByte (b_file bmp) 0xF7)) (\<lambda>r1.
      bind_c (i2c_read env (RdByte (b_file bmp) 0xF8)) (\<lambda>r2.
        let msb = r0 AND 0xFF; lsb = r1 AND 0xFF; xlsb = r2 AND 0xFF in
        lift_c (shr_checked (msb * 65536 + lsb * 256 + xlsb) (8 - b_oss bmp))))))))"

section \<open>Compensation\<close>

text \<open>The temperature term shared by both measurements, and the temperature itself.\<close>

definition bmp_B5 :: "bmp180 \<Rightarrow> int \<Rightarrow> int res" where
  "bmp_B5 bmp UT = (let X1 = wrap32 (wrap32 (UT - ac6 bmp) * ac5 bmp) div 2 ^ 15;
       dv = wrap32 (X1 + md bmp) in
     if dv = 0 then Inl DivByZero
     else let X2 = wrap32 (wrap32 (mc bmp * 2 ^ 11) sdiv dv) in Inr (wrap32 (X1 + X2)))"

definition bmp180_temperature :: "benv \<Rightarrow> bmp180 option \<Rightarrow> (i2c_log, rat) cm" where
  "bmp180_temperature env p = (case p of None \<Rightarrow> stop_c NullDeref | Some bmp \<Rightarrow>
     bind_c (bmp180_read_raw_temperature env bmp) (\<lambda>UT.
     bind_c (lift_c (bmp_B5 bmp UT)) (\<lambda>B5.
       ret_c (f32 (f64 (of_int (wrap32 (B5 + 8) div 2 ^ 4) / 10))))))"

definition bmp_B3 :: "bmp180 \<Rightarrow> int \<Rightarrow> int" where
  "bmp_B3 bmp B6 = (let X1 = wrap32 (b2 bmp * wrap32 (B6 * B6)) div 2 ^ 12 div 2 ^ 11;
       X2 = wrap32 (ac2 bmp * B6) div 2 ^ 11;
       X3 = wrap32 (X1 + X2) in
     wrap32 (wrap32 (wrap32 (wrap32 (ac1 bmp * 4) + X3) * 2 ^ nat (b_oss bmp)) + 2) sdiv 4)"

definition bmp_B4 :: "bmp180 \<Rightarrow> int \<Rightarrow> u32" where
  "bmp_B4 bmp B6 = (let X1 = wrap32 (ac3 bmp * B6) div 2 ^ 13;
       X2 = wrap32 (b1 bmp * (wrap32 (B6 * B6) div 2 ^ 12)) div 2 ^ 16;
       X3 = wrap32 (wrap32 (X1 + X2) + 2) div 2 ^ 2 in
     drop_bit 15 (to_u32 (ac4 bmp) * to_u32 (wrap32 (X3 + 32768))))"

definition bmp_final :: "int \<Rightarrow> int" where
  "bmp_final p = (let X1 = wrap32 ((p div 2 ^ 8) * (p div 2 ^ 8));
       X1 = wrap32 (X1 * 3038) div 2 ^ 16;
       X2 = wrap32 (- 7357 * p) div 2 ^ 16 in
     wrap32 (p + wrap32 (wrap32 (X1 + X2) + 3791) div 2 ^ 4))"

definition bmp_pressure :: "bmp180 \<Rightarrow> int \<Rightarrow> int \<Rightarrow> int res" where
  "bmp_pressure bmp UT UP = bind_res (bmp_B5 bmp UT) (\<lambda>B5.
     if b_oss bmp < 0 \<or> 32 \<le> b_oss bmp then Inl BadShift else
     (let B6 = wrap32 (B5 - 4000); B3 = bmp_B3 bmp B6; B4 = bmp_B4 bmp B6;
          B7 = (to_u32 UP - to_u32 B3) * to_u32 (50000 div 2 ^ nat (b_oss bmp)) in
      if B4 = 0 then Inl DivByZero
      else let p = (if B7 < 0x80000000 then (B7 * 2) div B4 else (B7 div B4) * 2) in
        Inr (bmp_final (of_u32 p))))"

definition bmp180_pressure :: "benv \<Rightarrow> bmp180 option \<Rightarrow> (i2c_log, rat) cm" where
  "bmp180_pressure env q = (case q of None \<Rightarrow> stop_c NullDeref | Some bmp \<Rightarrow>
     bind_c (bmp180_read_raw_temperature env bmp) (\<lambda>UT.
     bind_c (bmp180_read_raw_pressure env bmp (word_of_int (b_oss bmp))) (\<lambda>UP.
     bind_c (lift_c (bmp_pressure bmp UT UP)) (\<lambda>p. ret_c (f32 (of_int p))))))"

text \<open>\<open>pow\<close> of the mathematical library, whose accuracy C leaves open, is a parameter.\<close>

definition bmp180_altitude :: "(rat \<Rightarrow> rat \<Rightarrow> rat) \<Rightarrow> benv \<Rightarrow> bmp180 option \<Rightarrow> (i2c_log, rat) cm" where
  "bmp180_altitude powr_c env q = bind_c (bmp180_pressure env q) (\<lambda>p.
     ret_c (f32 (f64 (44330 * f64 (1 -
       powr_c (f64 (f32 (p / 100) / f64 (101325 / 100))) (f64 (1 / f64 (5255 / 1000))))))))"

section \<open>Set-up\<close>

definition bmp180_set_addr :: "benv \<Rightarrow> bmp180 \<Rightarrow> (i2c_log, int) cm" where
  "bmp180_set_addr env bmp = then_c (i2c_do (SetAddr (b_file bmp) (b_address bmp)))
     (ret_c (be_ioctl env (b_file bmp) (b_address bmp)))"

definition bmp180_init_error_cleanup :: "bmp180 \<Rightarrow> (i2c_log, unit) cm" where
  "bmp180_init_error_cleanup bmp = then_c (if_c (b_i2c_device bmp \<noteq> None) (i2c_do (Free PathBlk)))
     (i2c_do (Free StructBlk))"

definition bmp180_read_eprom_reg :: "benv \<Rightarrow> bmp180 \<Rightarrow> u8 \<Rightarrow> bool \<Rightarrow> (i2c_log, int) cm" where
  "bmp180_read_eprom_reg env bmp reg sign =
     bind_c (i2c_read env (RdWord (b_file bmp) reg)) (\<lambda>w.
       let data = w AND 0xFFFF; store = swap16 data in
       ret_c (if sign \<and> 32767 < store then store - 65536 else store))"

fun set_coef :: "coef \<Rightarrow> int \<Rightarrow> bmp180 \<Rightarrow> bmp180" where
  "set_coef AC1 v b = b\<lparr>ac1 := v\<rparr>"
| "set_coef AC2 v b = b\<lparr>ac2 := v\<rparr>"
| "set_coef AC3 v b = b\<lparr>ac3 := v\<rparr>"
| "set_coef AC4 v b = b\<lparr>ac4 := v\<rparr>"
| "set_coef AC5 v b = b\<lparr>ac5 := v\<rparr>"
| "set_coef AC6 v b = b\<lparr>ac6 := v\<rparr>"
| "set_coef B1 v b = b\<lparr>b1 := v\<rparr>"
| "set_coef B2 v b = b\<lparr>b2 := v\<rparr>"
| "set_coef MB v b = b\<lparr>mb := v\<rparr>"
| "set_coef MC v b = b\<lparr>mc := v\<rparr>"
| "set_coef MD v b = b\<lparr>md := v\<rparr>"

fun read_eprom_loop :: "benv \<Rightarrow> coef list \<Rightarrow> bmp180 \<Rightarrow> (i2c_log, bmp180) cm" where
  "read_eprom_loop env [] bmp = ret_c bmp"
| "read_eprom_loop env (c # cs) bmp = (case bmp180_register_table c of (reg, sign) \<Rightarrow>
     bind_c (bmp180_read_eprom_reg env bmp reg sign) (\<lambda>v. read_eprom_loop env cs (set_coef c v bmp)))"

definition bmp180_read_eprom :: "benv \<Rightarrow> bmp180 \<Rightarrow> (i2c_log, bmp180) cm" where
  "bmp180_read_eprom env bmp =
     read_eprom_loop env [AC1, AC2, AC3, AC4, AC5, AC6, B1, B2, MB, MC, MD] bmp"

definition bmp180_dump_eprom :: "bmp180 option \<Rightarrow> bmp180_eprom res" where
  "bmp180_dump_eprom p = (case p of None \<Rightarrow> Inl NullDeref | Some b \<Rightarrow>
     Inr \<lparr>e_ac1 = ac1 b, e_ac2 = ac2 b, e_ac3 = ac3 b, e_ac4 = ac4 b, e_ac5 = ac5 b, e_ac6 = ac6 b,
       e_b1 = b1 b, e_b2 = b2 b, e_mb = mb b, e_mc = mc b, e_md = md b\<rparr>)"

definition bmp180_set_oss :: "bmp180 option \<Rightarrow> int \<Rightarrow> bmp180 option res" where
  "bmp180_set_oss p oss = (case p of None \<Rightarrow> Inl NullDeref | Some b \<Rightarrow> Inr (Some (b\<lparr>b_oss := oss\<rparr>)))"

text \<open>
  The fields of a fresh \<open>malloc\<close> block are arbitrary (the argument \<open>fresh\<close>).  The device path
  is copied with its NUL into a block requested without room for it.
\<close>

definition bmp180_init :: "benv \<Rightarrow> bmp180 \<Rightarrow> int \<Rightarrow> string \<Rightarrow> (i2c_log, bmp180 option) cm" where
  "bmp180_init env fresh address path = (case be_malloc env 60 of None \<Rightarrow> ret_c None
   | Some _ \<Rightarrow> then_c (i2c_do (Malloc StructBlk 60))
     (let bmp = fresh\<lparr>b_address := address\<rparr> in
      case be_malloc env (length path) of
        None \<Rightarrow> (let bmp = bmp\<lparr>b_i2c_device := None\<rparr> in
          then_c (bmp180_init_error_cleanup bmp) (ret_c None))
      | Some usable \<Rightarrow> then_c (i2c_do (Malloc PathBlk (length path)))
        (if usable < length path + 1 then stop_c OutOfBounds
         else (let bmp = bmp\<lparr>b_i2c_device := Some path\<rparr>; file = be_open env path in
          then_c (i2c_do (OpenDev path file))
          (if file < 0 then then_c (bmp180_init_error_cleanup bmp) (ret_c None)
           else (let bmp = bmp\<lparr>b_file := file\<rparr> in
            bind_c (bmp180_set_addr env bmp) (\<lambda>err.
              if err < 0 then then_c (bmp180_init_error_cleanup bmp) (ret_c None)
              else bind_c (bmp180_read_eprom env bmp) (\<lambda>bmp. ret_c (Some (bmp\<lparr>b_oss := 0\<rparr>))))))))))"

definition bmp180_close :: "bmp180 option \<Rightarrow> (i2c_log, unit) cm" where
  "bmp180_close p = (case p of None \<Rightarrow> ret_c () | Some bmp \<Rightarrow>
     then_c (i2c_do (CloseDev (b_file bmp)))
     (then_c (if_c (b_i2c_device bmp \<noteq> None) (i2c_do (Free PathBlk)))
     (i2c_do (Free StructBlk))))"

section \<open>Byte order and ranges\<close>

lemma and_0xFFFF: "(x :: int) AND 0xFFFF = x mod 65536"
  using take_bit_eq_mask [of 16 x] by (simp add: take_bit_eq_mod mask_eq_exp_minus_1)

lemma and_0xFF: "(x :: int) AND 0xFF = x mod 256"
  using take_bit_eq_mask [of 8 x] by (simp add: take_bit_eq_mod mask_eq_exp_minus_1)

lemma swap16_eq: "swap16 d = (d mod 256) * 256 + d div 256"
proof -
  have "(d * 256) AND 0xFF00 = push_bit 8 d AND push_bit 8 0xFF" by (simp add: push_bit_eq_mult)
  also have "\<dots> = push_bit 8 (d AND 0xFF)" by (simp only: push_bit_and)
  finally show ?thesis by (simp add: swap16_def and_0xFF push_bit_eq_mult)
qed

lemma byte_split:
  fixes d :: int
  assumes "0 \<le> d" "d < 65536"
  shows "d = (d div 256) * 256 + d mod 256" "0 \<le> d div 256" "d div 256 < 256" "0 \<le> d mod 256" "d mod 256 < 256"
proof -
  show eq: "d = (d div 256) * 256 + d mod 256" by simp
  show m: "0 \<le> d mod 256" "d mod 256 < 256" by simp_all
  show "0 \<le> d div 256" using assms by (simp add: pos_imp_zdiv_nonneg_iff)
  show "d div 256 < 256" using eq m assms by linarith
qed

lemma swap16_range: "0 \<le> d \<Longrightarrow> d < 65536 \<Longrightarrow> 0 \<le> swap16 d \<and> swap16 d < 65536"
  unfolding swap16_eq using byte_split [of d] by linarith

lemma swap16_word: "swap16 (w AND 0xFFFF) = ((w mod 65536) mod 256) * 256 + (w mod 65536) div 256"
  by (simp add: and_0xFFFF swap16_eq)

text \<open>What the library returns for a big-endian 16-bit register of the sensor.\<close>

definition le_view :: "u16 \<Rightarrow> int" where
  "le_view w = (uint w mod 256) * 256 + uint w div 256"

lemma le_view_range: "0 \<le> le_view w \<and> le_view w < 65536"
proof -
  have "0 \<le> uint w" "uint w < 65536" using uint_lt2p [of w] by simp_all
  from byte_split [OF this] show ?thesis unfolding le_view_def by linarith
qed

lemma swap16_le_view: "swap16 (le_view w AND 0xFFFF) = uint w"
proof -
  have "0 \<le> uint w" "uint w < 65536" using uint_lt2p [of w] by simp_all
  note u = byte_split [OF this]
  have "le_view w mod 65536 = le_view w" using le_view_range [of w] by simp
  moreover have "le_view w mod 256 = uint w div 256" "le_view w div 256 = uint w mod 256"
    using u(2-5) by (simp_all add: le_view_def)
  ultimately show ?thesis unfolding swap16_word using u(1) by simp
qed

definition coef_val :: "bool \<Rightarrow> u16 \<Rightarrow> int" where
  "coef_val sign w = (if sign then sint w else uint w)"

lemma sint_u16: "sint (w :: u16) = (if 32767 < uint w then uint w - 65536 else uint w)"
proof -
  have r: "0 \<le> uint w" "uint w < 65536" using uint_lt2p [of w] by simp_all
  have "sint w = signed_take_bit 15 (uint w)" by (simp add: sint_uint)
  also have "\<dots> = (uint w + 32768) mod 65536 - 32768"
    using signed_take_bit_eq_take_bit_shift [of 15 "uint w"] by (simp add: take_bit_eq_mod)
  finally have eq: "sint w = (uint w + 32768) mod 65536 - 32768" .
  show ?thesis
  proof (cases "32767 < uint w")
    case True
    have "(uint w + 32768) mod 65536 = ((uint w - 32768) + 65536) mod 65536" by (simp add: add.commute)
    also have "\<dots> = uint w - 32768" using True r by (simp only: mod_add_self2) simp
    finally show ?thesis using True eq by simp
  next
    case False
    then have "(uint w + 32768) mod 65536 = uint w + 32768" using r by simp
    then show ?thesis using False eq by simp
  qed
qed

lemma read_eprom_reg_run:
  assumes "be_bus env (lg @ [RdWord (b_file bmp) reg]) = le_view w"
  shows "bmp180_read_eprom_reg env bmp reg sign lg = Inr (coef_val sign w, lg @ [RdWord (b_file bmp) reg])"
  using assms
  by (simp add: bmp180_read_eprom_reg_def i2c_read_def cm_defs Let_def coef_val_def swap16_le_view sint_u16)

lemma b_file_set_coef [simp]: "b_file (set_coef c v b) = b_file b"
  by (cases c) simp_all

fun get_coef :: "coef \<Rightarrow> bmp180 \<Rightarrow> int" where
  "get_coef AC1 b = ac1 b"
| "get_coef AC2 b = ac2 b"
| "get_coef AC3 b = ac3 b"
| "get_coef AC4 b = ac4 b"
| "get_coef AC5 b = ac5 b"
| "get_coef AC6 b = ac6 b"
| "get_coef B1 b = b1 b"
| "get_coef B2 b = b2 b"
| "get_coef MB b = mb b"
| "get_coef MC b = mc b"
| "get_coef MD b = md b"

lemma get_set_coef: "get_coef c (set_coef d v b) = (if c = d then v else get_coef c b)"
  by (cases c; cases d) simp_all

lemma read_eprom_loop_run:
  assumes "\<And>lg reg. be_bus env (lg @ [RdWord (b_file bmp) reg]) = le_view (rom reg)" and "distinct cs"
  shows "\<exists>bmp' lg'. read_eprom_loop env cs bmp lg = Inr (bmp', lg') \<and> b_file bmp' = b_file bmp \<and>
    (\<forall>c. get_coef c bmp' = (if c \<in> set cs
       then coef_val (snd (bmp180_register_table c)) (rom (fst (bmp180_register_table c)))
       else get_coef c bmp))"
  using assms
proof (induction cs arbitrary: bmp lg)
  case (Cons c cs)
  obtain reg sign where t: "bmp180_register_table c = (reg, sign)" by (cases "bmp180_register_table c")
  let ?b = "set_coef c (coef_val sign (rom reg)) bmp"
  have "bmp180_read_eprom_reg env bmp reg sign lg
      = Inr (coef_val sign (rom reg), lg @ [RdWord (b_file bmp) reg])"
    by (rule read_eprom_reg_run) (rule Cons.prems(1))
  then have step: "read_eprom_loop env (c # cs) bmp lg = read_eprom_loop env cs ?b (lg @ [RdWord (b_file bmp) reg])"
    by (simp add: t bind_c_def)
  obtain b' l' where "read_eprom_loop env cs ?b (lg @ [RdWord (b_file bmp) reg]) = Inr (b', l')"
    and "b_file b' = b_file bmp"
    and "\<forall>d. get_coef d b' = (if d \<in> set cs
       then coef_val (snd (bmp180_register_table d)) (rom (fst (bmp180_register_table d)))
       else get_coef d ?b)"
    using Cons.IH [of ?b "lg @ [RdWord (b_file bmp) reg]"] Cons.prems by auto
  then show ?case using step t Cons.prems(2) by (auto simp: get_set_coef)
qed (simp add: ret_c_def)

text \<open>
  C33. The calibration read-out decodes the sensor's big-endian EEPROM: if every word read of
  the sensor on the bus returns the register's two bytes in the library's order, all eleven
  coefficients end up with the register's value, two's complement for the eight signed ones
  and unsigned for AC4, AC5 and AC6.
\<close>

theorem read_eprom_decodes:
  assumes "\<And>lg reg. be_bus env (lg @ [RdWord (b_file bmp) reg]) = le_view (rom reg)"
  shows "\<exists>b lg'. bmp180_read_eprom env bmp lg = Inr (b, lg')
    \<and> ac1 b = sint (rom 0xAA) \<and> ac2 b = sint (rom 0xAC) \<and> ac3 b = sint (rom 0xAE)
    \<and> ac4 b = uint (rom 0xB0) \<and> ac5 b = uint (rom 0xB2) \<and> ac6 b = uint (rom 0xB4)
    \<and> b1 b = sint (rom 0xB6) \<and> b2 b = sint (rom 0xB8) \<and> mb b = sint (rom 0xBA)
    \<and> mc b = sint (rom 0xBC) \<and> md b = sint (rom 0xBE)"
proof -
  obtain b lg' where run: "bmp180_read_eprom env bmp lg = Inr (b, lg')"
    and c: "\<forall>c. get_coef c b = coef_val (snd (bmp180_register_table c)) (rom (fst (bmp180_register_table c)))"
  proof -
    have mem: "c \<in> set [AC1, AC2, AC3, AC4, AC5, AC6, B1, B2, MB, MC, MD]" for c
      by (cases c) simp_all
    show ?thesis
      using read_eprom_loop_run [of env bmp rom "[AC1, AC2, AC3, AC4, AC5, AC6, B1, B2, MB, MC, MD]" lg]
        assms mem that by (auto simp: bmp180_read_eprom_def)
  qed
  show ?thesis
    using run c [rule_format, of AC1] c [rule_format, of AC2] c [rule_format, of AC3]
      c [rule_format, of AC4] c [rule_format, of AC5] c [rule_format, of AC6] c [rule_format, of B1]
      c [rule_format, of B2] c [rule_format, of MB] c [rule_format, of MC] c [rule_format, of MD]
    by (simp add: coef_val_def)
qed

text \<open>A sensor with the calibration of the data sheet's worked example.\<close>

fun sample_rom :: "u8 \<Rightarrow> u16" where
  "sample_rom r = (if r = 0xAA then 408 else if r = 0xAC then - 72 else if r = 0xAE then - 14383
     else if r = 0xB0 then 32741 else if r = 0xB2 then 32757 else if r = 0xB4 then 23153
     else if r = 0xB6 then 6190 else if r = 0xB8 then 4 else if r = 0xBA then - 32768
     else if r = 0xBC then - 8711 else if r = 0xBE then 2868 else 0)"

definition sample_benv :: benv where
  "sample_benv = \<lparr>be_malloc = (\<lambda>n. Some (n + 8)), be_open = (\<lambda>p. 3), be_ioctl = (\<lambda>f a. 0),
     be_bus = (\<lambda>lg. case rev lg of RdWord f r # _ \<Rightarrow> le_view (sample_rom r) | _ \<Rightarrow> 0)\<rparr>"

definition sample_bmp :: bmp180 where
  "sample_bmp = \<lparr>b_file = 3, b_address = 0x77, b_oss = 0, b_i2c_device = Some ''/dev/i2c-0'',
     ac1 = 408, ac2 = - 72, ac3 = - 14383, ac4 = 32741, ac5 = 32757, ac6 = 23153,
     b1 = 6190, b2 = 4, mb = - 32768, mc = - 8711, md = 2868\<rparr>"

theorem read_eprom_decodes_witness:
  "(\<forall>lg reg. be_bus sample_benv (lg @ [RdWord (b_file sample_bmp) reg]) = le_view (sample_rom reg)) \<and>
   (\<exists>b lg'. bmp180_read_eprom sample_benv sample_bmp [] = Inr (b, lg') \<and> ac2 b = - 72 \<and> ac4 b = 32741)"
proof -
  have bus: "be_bus sample_benv (lg @ [RdWord (b_file sample_bmp) reg]) = le_view (sample_rom reg)" for lg reg
    by (simp add: sample_benv_def del: sample_rom.simps)
  then show ?thesis using read_eprom_decodes [of sample_benv sample_bmp sample_rom "[]", OF bus] by auto
qed

section \<open>Any bus keeps the measurements in range\<close>

definition eprom_wf :: "bmp180 \<Rightarrow> bool" where
  "eprom_wf b = ((\<forall>c \<in> {AC1, AC2, AC3, B1, B2, MB, MC, MD}. - 32768 \<le> get_coef c b \<and> get_coef c b \<le> 32767)
     \<and> (\<forall>c \<in> {AC4, AC5, AC6}. 0 \<le> get_coef c b \<and> get_coef c b \<le> 65535))"

lemma and_FFFF_range: "0 \<le> (w :: int) AND 0xFFFF \<and> w AND 0xFFFF < 65536"
  by (simp add: and_0xFFFF)

lemma raw_temperature_range:
  assumes "bmp180_read_raw_temperature env bmp lg = Inr (UT, lg')"
  shows "0 \<le> UT \<and> UT \<le> 65535"
proof -
  let ?w = "be_bus env (lg @ [WrByte (b_file bmp) 0xF4 0x2E, USleep 5000, RdWord (b_file bmp) 0xF6])"
  have "UT = swap16 (?w AND 0xFFFF)"
    using assms by (auto simp: bmp180_read_raw_temperature_def i2c_do_def i2c_read_def cm_defs Let_def)
  then show ?thesis using swap16_range [of "?w AND 0xFFFF"] and_FFFF_range [of ?w] by simp
qed

lemma raw_pressure_range:
  assumes "bmp180_read_raw_pressure env bmp oss lg = Inr (UP, lg')" and "0 \<le> b_oss bmp" "b_oss bmp \<le> 8"
  shows "0 \<le> UP \<and> UP < 2 ^ nat (16 + b_oss bmp)"
proof -
  obtain r0 r1 r2 :: int
    where UP: "UP = ((r0 AND 0xFF) * 65536 + (r1 AND 0xFF) * 256 + (r2 AND 0xFF)) div 2 ^ nat (8 - b_oss bmp)"
    using assms
    by (auto simp: bmp180_read_raw_pressure_def i2c_do_def i2c_read_def cm_defs Let_def shr_checked_def
        split: prod.splits if_splits)
  let ?d = "(r0 AND 0xFF) * 65536 + (r1 AND 0xFF) * 256 + (r2 AND 0xFF)"
  have b: "0 \<le> r AND 0xFF \<and> r AND 0xFF < 256" for r :: int by (simp add: and_0xFF)
  have d: "0 \<le> ?d" "?d < 16777216" using b [of r0] b [of r1] b [of r2] by linarith+
  let ?k = "nat (8 - b_oss bmp)"
  have "(16777216 :: int) = 2 ^ nat (16 + b_oss bmp) * 2 ^ ?k"
    using assms(2,3) by (simp add: power_add [symmetric] nat_add_distrib [symmetric])
  then have "?d < 2 ^ nat (16 + b_oss bmp) * 2 ^ ?k" using d(2) by simp
  moreover have "?d div 2 ^ ?k * 2 ^ ?k \<le> ?d" by (simp add: minus_mod_eq_div_mult [symmetric])
  ultimately have "?d div 2 ^ ?k * 2 ^ ?k < 2 ^ nat (16 + b_oss bmp) * 2 ^ ?k" by (rule order.strict_trans1 [rotated])
  then have "?d div 2 ^ ?k < 2 ^ nat (16 + b_oss bmp)" by (simp only: mult_less_cancel_right_pos zero_less_power zero_less_numeral)
  then show ?thesis using UP d(1) by (simp add: pos_imp_zdiv_nonneg_iff)
qed

lemma read_eprom_reg_range:
  assumes "bmp180_read_eprom_reg env bmp reg sign lg = Inr (v, lg')"
  shows "if sign then - 32768 \<le> v \<and> v \<le> 32767 else 0 \<le> v \<and> v \<le> 65535"
proof -
  obtain w where v: "v = (if sign \<and> 32767 < swap16 (w AND 0xFFFF) then swap16 (w AND 0xFFFF) - 65536
      else swap16 (w AND 0xFFFF))"
    using assms by (auto simp: bmp180_read_eprom_reg_def i2c_read_def cm_defs Let_def)
  have "0 \<le> swap16 (w AND 0xFFFF) \<and> swap16 (w AND 0xFFFF) < 65536"
    using swap16_range and_FFFF_range by blast
  then show ?thesis using v by auto
qed

lemma read_eprom_loop_range:
  assumes "read_eprom_loop env cs bmp lg = Inr (b, lg')" and "c \<in> set cs" and "distinct cs"
  shows "if snd (bmp180_register_table c) then - 32768 \<le> get_coef c b \<and> get_coef c b \<le> 32767
    else 0 \<le> get_coef c b \<and> get_coef c b \<le> 65535"
proof -
  have keep: "d \<notin> set ds \<Longrightarrow> read_eprom_loop env ds x l = Inr (y, l') \<Longrightarrow> get_coef d y = get_coef d x"
    for d ds x l y l'
    by (induction ds arbitrary: x l) (auto simp: cm_defs get_set_coef split: prod.splits sum.splits)
  show ?thesis using assms
  proof (induction cs arbitrary: bmp lg)
    case (Cons d cs)
    obtain reg sign where t: "bmp180_register_table d = (reg, sign)" by (cases "bmp180_register_table d")
    obtain v l where v: "bmp180_read_eprom_reg env bmp reg sign lg = Inr (v, l)"
      and rest: "read_eprom_loop env cs (set_coef d v bmp) l = Inr (b, lg')"
      using Cons.prems(1) by (auto simp: t bind_c_def split: sum.splits)
    show ?case
    proof (cases "c = d")
      case True
      then have "get_coef c b = v" using keep [OF _ rest, of d] Cons.prems(3) by (simp add: get_set_coef)
      then show ?thesis using read_eprom_reg_range [OF v] True t by simp
    next
      case False
      then show ?thesis using Cons.IH [OF rest] Cons.prems by auto
    qed
  qed simp
qed

lemma read_eprom_wf: "bmp180_read_eprom env bmp lg = Inr (b, lg') \<Longrightarrow> eprom_wf b"
  unfolding eprom_wf_def bmp180_read_eprom_def
  using read_eprom_loop_range [of env "[AC1, AC2, AC3, AC4, AC5, AC6, B1, B2, MB, MC, MD]" bmp lg b lg']
  by fastforce

text \<open>
  C37. A sensor object that \<open>bmp180_init\<close> returns has all coefficients in the range of their
  16-bit registers and oversampling 0, and every later raw temperature and pressure reading
  is in range, whatever the bus answers: the error codes of the I2C library (negative
  values) are masked into ordinary readings and never noticed.
\<close>

theorem bmp180_init_wf:
  assumes "bmp180_init env fresh address path lg = Inr (Some b, lg')"
  shows "eprom_wf b \<and> b_oss b = 0 \<and>
    (\<forall>l UT l'. bmp180_read_raw_temperature env b l = Inr (UT, l') \<longrightarrow> 0 \<le> UT \<and> UT \<le> 65535) \<and>
    (\<forall>oss l UP l'. bmp180_read_raw_pressure env b oss l = Inr (UP, l') \<longrightarrow> 0 \<le> UP \<and> UP < 65536)"
proof -
  obtain b0 b' l l' where r: "bmp180_read_eprom env b0 l = Inr (b', l')" and b: "b = b'\<lparr>b_oss := 0\<rparr>"
    using assms
    by (auto simp: bmp180_init_def cm_defs i2c_do_def bmp180_init_error_cleanup_def bmp180_set_addr_def Let_def
        split: option.splits if_splits sum.splits)
  have "eprom_wf b" using read_eprom_wf [OF r] by (simp add: b eprom_wf_def)
  then show ?thesis
    using raw_temperature_range raw_pressure_range [of env b] by (fastforce simp: b)
qed

theorem bmp180_init_wf_witness:
  "(\<exists>b lg'. bmp180_init sample_benv sample_bmp 0x77 ''/dev/i2c-0'' [] = Inr (Some b, lg')
     \<and> eprom_wf b \<and> b_oss b = 0)"
proof -
  have bus: "be_bus sample_benv (lg @ [RdWord (b_file x) reg]) = le_view (sample_rom reg)" for lg reg x
    by (simp add: sample_benv_def del: sample_rom.simps)
  let ?b = "sample_bmp\<lparr>b_address := 0x77, b_i2c_device := Some ''/dev/i2c-0'', b_file := 3\<rparr>"
  let ?l = "[Malloc StructBlk 60, Malloc PathBlk (length ''/dev/i2c-0''), OpenDev ''/dev/i2c-0'' 3, SetAddr 3 0x77]"
  have "distinct [AC1, AC2, AC3, AC4, AC5, AC6, B1, B2, MB, MC, MD]" by simp
  with bus obtain b lg' where e: "bmp180_read_eprom sample_benv ?b ?l = Inr (b, lg')"
    using read_eprom_loop_run [of sample_benv ?b sample_rom "[AC1, AC2, AC3, AC4, AC5, AC6, B1, B2, MB, MC, MD]" ?l]
    unfolding bmp180_read_eprom_def by blast
  have "bmp180_init sample_benv sample_bmp 0x77 ''/dev/i2c-0'' [] = Inr (Some (b\<lparr>b_oss := 0\<rparr>), lg')"
    using e by (simp add: bmp180_init_def cm_defs i2c_do_def bmp180_set_addr_def sample_benv_def Let_def)
  then show ?thesis using bmp180_init_wf by blast
qed

text \<open>
  With an allocator that gives exactly the bytes asked for, \<open>bmp180_init\<close> writes one byte
  past the block it requested for the device path, for every path.
\<close>

lemma bmp180_init_path_overflow:
  assumes "be_malloc env 60 = Some 60" and "be_malloc env (length path) = Some (length path)"
  shows "bmp180_init env fresh address path lg = Inl OutOfBounds"
  using assms by (simp add: bmp180_init_def cm_defs i2c_do_def Let_def)

text \<open>
  When \<open>bmp180_init\<close> gives up and returns NULL, the blocks it obtained are released again
  (each \<open>Malloc\<close> of its log is matched by one \<open>Free\<close>), but the device file is never closed:
  if selecting the slave address failed, its descriptor is left open.
\<close>

lemma bmp180_init_failure_releases:
  assumes "bmp180_init env fresh address path lg = Inr (None, lg')"
  shows "\<exists>evs. lg' = lg @ evs
    \<and> (\<forall>k. length (filter (\<lambda>e. e = Free k) evs) = length (filter (\<lambda>e. \<exists>n. e = Malloc k n) evs))
    \<and> (\<forall>f. CloseDev f \<notin> set evs)"
  using assms
  by (auto simp: bmp180_init_def cm_defs i2c_do_def bmp180_init_error_cleanup_def bmp180_set_addr_def Let_def
      split: option.splits if_splits sum.splits)

section \<open>The compensation and its two wrap-arounds\<close>

text \<open>
  The compensation formulas over unbounded integers.  Two places are left open: what becomes of the product of \<open>B2\<close> and the square of
  \<open>B6\<close>, and what becomes of \<open>B7\<close>.  With \<open>id\<close> for both it is the formula itself; without a value where it divides by zero.
\<close>

definition exact_X1 :: "bmp180 \<Rightarrow> int \<Rightarrow> int" where
  "exact_X1 b UT = (UT - ac6 b) * ac5 b div 32768"

definition exact_B5 :: "bmp180 \<Rightarrow> int \<Rightarrow> int" where
  "exact_B5 b UT = exact_X1 b UT + (mc b * 2048) sdiv (exact_X1 b UT + md b)"

definition comp_B3 :: "bmp180 \<Rightarrow> int \<Rightarrow> int \<Rightarrow> int" where
  "comp_B3 b B6 t = ((ac1 b * 4 + (t div 8388608 + ac2 b * B6 div 2048)) * 2 ^ nat (b_oss b) + 2) sdiv 4"

definition exact_B4 :: "bmp180 \<Rightarrow> int \<Rightarrow> int" where
  "exact_B4 b B6 = ac4 b *
     ((ac3 b * B6 div 8192 + b1 b * (B6 * B6 div 4096) div 65536 + 2) div 4 + 32768) div 32768"

definition exact_raw :: "int \<Rightarrow> int \<Rightarrow> int" where
  "exact_raw B7 B4 = (if B7 < 2147483648 then B7 * 2 div B4 else B7 div B4 * 2)"

definition exact_final :: "int \<Rightarrow> int" where
  "exact_final p = p + ((p div 256) * (p div 256) * 3038 div 65536 + - 7357 * p div 65536 + 3791) div 16"

definition comp_pressure :: "(int \<Rightarrow> int) \<Rightarrow> (int \<Rightarrow> int) \<Rightarrow> bmp180 \<Rightarrow> int \<Rightarrow> int \<Rightarrow> int res" where
  "comp_pressure sq hi b UT UP = (let B6 = exact_B5 b UT - 4000; B4 = exact_B4 b B6 in
     if exact_X1 b UT + md b = 0 \<or> B4 = 0 then Inl DivByZero
     else Inr (exact_final (exact_raw (hi ((UP - comp_B3 b B6 (sq (b2 b * (B6 * B6)))) * (50000 div 2 ^ nat (b_oss b)))) B4)))"

text \<open>The 32-bit versions of the two.\<close>

abbreviation wrapped_pressure :: "bmp180 \<Rightarrow> int \<Rightarrow> int \<Rightarrow> int res" where
  "wrapped_pressure \<equiv> comp_pressure wrap32 (\<lambda>x. x mod 4294967296)"

text \<open>
  The sensor's range: temperatures from -40.0 to 85.0 degrees and a pressure of at most 1100 hPa.
\<close>

definition operating :: "bmp180 \<Rightarrow> int \<Rightarrow> int \<Rightarrow> bool" where
  "operating b UT UP \<longleftrightarrow> - 400 \<le> (exact_B5 b UT + 8) div 16 \<and> (exact_B5 b UT + 8) div 16 \<le> 850
     \<and> (case wrapped_pressure b UT UP of Inr p \<Rightarrow> p \<le> 110000 | Inl _ \<Rightarrow> True)"

lemma abs_prod_le: "\<bar>a\<bar> \<le> A \<Longrightarrow> \<bar>b\<bar> \<le> B \<Longrightarrow> A * B \<le> C \<Longrightarrow> \<bar>a * b\<bar> \<le> (C :: int)"
  by (rule order_trans [of _ "A * B"]) (simp_all add: abs_mult mult_mono)

lemma div_bounds: "l \<le> x \<Longrightarrow> x \<le> u \<Longrightarrow> 0 < k \<Longrightarrow> l div k \<le> x div k \<and> x div k \<le> u div (k :: int)"
  by (simp add: zdiv_mono1)

lemma abs_sdiv_le: "\<bar>a sdiv b\<bar> \<le> \<bar>a :: int\<bar>"
proof (cases "b = 0")
  case False
  then have "\<bar>a\<bar> div \<bar>b\<bar> \<le> \<bar>a\<bar>" 
    using zdiv_mono2 [of "\<bar>a\<bar>" 1 "\<bar>b\<bar>"] by simp
  moreover have "0 \<le> \<bar>a\<bar> div \<bar>b\<bar>" by (simp add: div_int_pos_iff)
  ultimately show ?thesis by (simp add: signed_divide_int_def abs_mult abs_sgn_eq)
qed (simp add: signed_divide_int_def)

lemma abs_sdiv_div_le: "\<bar>a\<bar> \<le> A \<Longrightarrow> 0 < k \<Longrightarrow> k \<le> \<bar>d\<bar> \<Longrightarrow> \<bar>a sdiv d\<bar> \<le> A div (k :: int)"
proof -
  assume h: "\<bar>a\<bar> \<le> A" "0 < k" "k \<le> \<bar>d\<bar>"
  then have "\<bar>a\<bar> div \<bar>d\<bar> \<le> \<bar>a\<bar> div k" "\<bar>a\<bar> div k \<le> A div k" by (simp_all add: zdiv_mono2 zdiv_mono1)
  moreover have "\<bar>a sdiv d\<bar> = \<bar>a\<bar> div \<bar>d\<bar>"
    using h by (auto simp: signed_divide_int_def abs_mult abs_sgn_eq div_int_pos_iff)
  ultimately show ?thesis by simp
qed

lemma in_s32_abs: "\<bar>x\<bar> \<le> 2147483647 \<Longrightarrow> in_s32 x"
  by (auto simp: in_s32_def)

lemma abs_add_le: "\<bar>a\<bar> \<le> A \<Longrightarrow> \<bar>b\<bar> \<le> B \<Longrightarrow> A + B \<le> C \<Longrightarrow> \<bar>a + b\<bar> \<le> (C :: int)"
  by (rule order_trans [OF abs_triangle_ineq order_trans [OF add_mono]])

lemma shift_range:
  "- 13715 \<le> x \<and> x \<le> 13714 \<Longrightarrow> 19053 \<le> x + 32768" "- 13715 \<le> x \<and> x \<le> 13714 \<Longrightarrow> x + (32768 :: int) \<le> 46482"
  by simp_all

lemma abs_leD: "\<bar>x\<bar> \<le> X \<Longrightarrow> - X \<le> x" "\<bar>x\<bar> \<le> X \<Longrightarrow> x \<le> (X :: int)"
  by simp_all

lemma abs_rangeI: "19053 \<le> x \<Longrightarrow> x \<le> 46482 \<Longrightarrow> \<bar>x :: int\<bar> \<le> 46482"
  by simp

lemma in_s32_leI: "\<bar>x\<bar> \<le> X \<Longrightarrow> X \<le> 2147483647 \<Longrightarrow> in_s32 x"
  by (rule in_s32_abs) (rule order_trans)

lemma to_u32_mult: "to_u32 x * to_u32 y = to_u32 (x * y)"
  by (simp add: to_u32_def)

lemma uint_drop_bit_15: "uint (drop_bit 15 (w :: u32)) = uint w div 32768"
  by (simp add: drop_bit_eq_div uint_div)

lemma of_u32_small:
  assumes "uint w = p" "0 \<le> p" "p \<le> 215000"
  shows "of_u32 w = p"
proof -
  have "w = to_u32 p" using assms(1) by (auto simp: to_u32_def)
  moreover have "in_s32 p" using assms(2,3) by (simp add: in_s32_def)
  ultimately show ?thesis by simp
qed

lemma eprom_wfD:
  assumes "eprom_wf b"
  shows "\<bar>ac1 b\<bar> \<le> 32768" "\<bar>ac2 b\<bar> \<le> 32768" "\<bar>ac3 b\<bar> \<le> 32768" "\<bar>b1 b\<bar> \<le> 32768" "\<bar>mc b\<bar> \<le> 32768"
    "\<bar>md b\<bar> \<le> 32768" "0 \<le> ac4 b" "ac4 b \<le> 65535" "0 \<le> ac5 b" "ac5 b \<le> 65535" "0 \<le> ac6 b" "ac6 b \<le> 65535"
  using assms by (auto simp: eprom_wf_def)

text \<open>A temperature in range excludes a wrap-around of the first product: a product outside 32 bits gives a \<open>B5\<close> beyond 63000.\<close>

lemma X1_in_range:
  assumes "eprom_wf b" "- 6408 \<le> exact_B5 b UT" "exact_B5 b UT \<le> 13607"
  shows "in_s32 ((UT - ac6 b) * ac5 b)"
proof (rule ccontr)
  note wf = eprom_wfD [OF assms(1)]
  let ?X = "exact_X1 b UT" and ?p = "(UT - ac6 b) * ac5 b"
  assume "\<not> in_s32 ?p"
  then have "2147483648 \<le> ?p \<or> ?p \<le> - 2147483649" by (auto simp: in_s32_def)
  then have x: "65536 \<le> ?X \<or> ?X \<le> - 65536"
    using zdiv_mono1 [of 2147483648 ?p 32768] zdiv_mono1 [of ?p "- 2147483649" 32768] by (auto simp: exact_X1_def)
  then have "32768 \<le> \<bar>?X + md b\<bar>" using wf(6) by linarith
  moreover have "\<bar>mc b * 2048\<bar> \<le> 67108864" using wf(5) by linarith
  ultimately have "\<bar>(mc b * 2048) sdiv (?X + md b)\<bar> \<le> 2048" using abs_sdiv_div_le [of "mc b * 2048" 67108864 32768] by simp
  then show False using x assms(2,3) unfolding exact_B5_def by linarith
qed

lemma B5_exact:
  assumes "eprom_wf b" "0 \<le> UT" "UT \<le> 65535" "- 6408 \<le> exact_B5 b UT" "exact_B5 b UT \<le> 13607"
  shows "bmp_B5 b UT = (if exact_X1 b UT + md b = 0 then Inl DivByZero else Inr (exact_B5 b UT))"
proof -
  note wf = eprom_wfD [OF assms(1)]
  note p = X1_in_range [OF assms(1,4,5)]
  let ?X = "exact_X1 b UT"
  have "\<bar>?X\<bar> \<le> 65536"
    using div_bounds [of "- 2147483648" "(UT - ac6 b) * ac5 b" 2147483647 32768] p
    by (simp add: in_s32_def abs_le_iff exact_X1_def)
  moreover have "\<bar>(mc b * 2048) sdiv (?X + md b)\<bar> \<le> 67108864"
    using abs_sdiv_le [of "mc b * 2048" "?X + md b"] wf(5) by linarith
  moreover have "in_s32 (UT - ac6 b)" "in_s32 (mc b * 2048)" using assms wf by (auto simp: in_s32_def)
  ultimately have "in_s32 (?X + md b)" "in_s32 ((mc b * 2048) sdiv (?X + md b))"
    "in_s32 (?X + (mc b * 2048) sdiv (?X + md b))" "in_s32 (UT - ac6 b)" "in_s32 (mc b * 2048)"
    using in_s32_leI [OF abs_add_le [OF _ wf(6) order_refl, of ?X]] in_s32_leI [OF abs_add_le [OF _ _ order_refl], of ?X]
      in_s32_leI [of "(mc b * 2048) sdiv (?X + md b)"] by simp_all
  then show ?thesis using p by (simp add: bmp_B5_def exact_B5_def exact_X1_def Let_def)
qed

lemma wrap32_abs: "\<bar>wrap32 x\<bar> \<le> 2147483648"
  using wrap32_in_s32 [of x] by (auto simp: in_s32_def)

lemma B3_exact:
  assumes "eprom_wf b" "\<bar>B6\<bar> \<le> 10408" "0 \<le> b_oss b" "b_oss b \<le> 3"
  shows "bmp_B3 b B6 = comp_B3 b B6 (wrap32 (b2 b * (B6 * B6)))"
proof -
  note wf = eprom_wfD [OF assms(1)]
  have q: "\<bar>B6 * B6\<bar> \<le> 108326464" by (rule abs_prod_le [OF assms(2,2)]) simp_all
  let ?t = "wrap32 (b2 b * (B6 * B6))"
  have y1: "\<bar>?t div 8388608\<bar> \<le> 256"
    using div_bounds [of "- 2147483648" ?t 2147483648 8388608] wrap32_abs [of "b2 b * (B6 * B6)"] by (simp add: abs_le_iff)
  have x2: "\<bar>ac2 b * B6\<bar> \<le> 341049344" by (rule abs_prod_le [OF wf(2) assms(2)]) simp_all
  then have y2: "\<bar>ac2 b * B6 div 2048\<bar> \<le> 166528"
    using div_bounds [of "- 341049344" "ac2 b * B6" 341049344 2048] by (simp add: abs_le_iff)
  let ?s = "ac1 b * 4 + (?t div 8388608 + ac2 b * B6 div 2048)"
  have "b_oss b = 0 \<or> b_oss b = 1 \<or> b_oss b = 2 \<or> b_oss b = 3" using assms(3,4) by linarith
  then have k: "\<bar>2 ^ nat (b_oss b) :: int\<bar> \<le> 8" by auto
  have a1: "\<bar>ac1 b * 4\<bar> \<le> 131072" using wf(1) by linarith
  have y: "\<bar>?t div 8388608 + ac2 b * B6 div 2048\<bar> \<le> 166784" by (rule abs_add_le [OF y1 y2]) simp_all
  have s: "\<bar>?s\<bar> \<le> 297856" by (rule abs_add_le [OF a1 y]) simp_all
  have t: "\<bar>?s * 2 ^ nat (b_oss b)\<bar> \<le> 2382848" by (rule abs_prod_le [OF s k]) simp_all
  have t2: "\<bar>?s * 2 ^ nat (b_oss b) + 2\<bar> \<le> 2382850" by (rule abs_add_le [OF t, of 2 2]) simp_all
  have dd: "x div 4096 div 2048 = x div 8388608" for x :: int by (simp add: zdiv_zmult2_eq [symmetric])
  have "in_s32 (B6 * B6)" "in_s32 (ac2 b * B6)" "in_s32 (ac1 b * 4)" "in_s32 ?s"
    "in_s32 (?t div 8388608 + ac2 b * B6 div 2048)"
    "in_s32 (?s * 2 ^ nat (b_oss b))" "in_s32 (?s * 2 ^ nat (b_oss b) + 2)"
    by (rule in_s32_leI [OF q] in_s32_leI [OF x2] in_s32_leI [OF a1] in_s32_leI [OF s]
        in_s32_leI [OF y] in_s32_leI [OF t] in_s32_leI [OF t2], simp)+
  note w = this [THEN wrap32_id]
  have n: "(2 :: int) ^ 12 = 4096" "(2 :: int) ^ 11 = 2048" by simp_all
  show ?thesis unfolding bmp_B3_def comp_B3_def Let_def by (simp only: w n dd)
qed

lemma B4_exact:
  assumes "eprom_wf b" "\<bar>B6\<bar> \<le> 10408"
  shows "uint (bmp_B4 b B6) = exact_B4 b B6"
proof -
  note wf = eprom_wfD [OF assms(1)]
  have q: "\<bar>B6 * B6\<bar> \<le> 108326464" by (rule abs_prod_le [OF assms(2,2)]) simp_all
  have q': "0 \<le> B6 * B6" by simp
  have x1: "\<bar>ac3 b * B6\<bar> \<le> 341049344" by (rule abs_prod_le [OF wf(3) assms(2)]) simp_all
  then have y1: "\<bar>ac3 b * B6 div 8192\<bar> \<le> 41632"
    using div_bounds [of "- 341049344" "ac3 b * B6" 341049344 8192] by (simp add: abs_le_iff)
  have z: "\<bar>B6 * B6 div 4096\<bar> \<le> 26447"
    using div_bounds [of 0 "B6 * B6" 108326464 4096] q q' by (simp add: abs_le_iff)
  have x2: "\<bar>b1 b * (B6 * B6 div 4096)\<bar> \<le> 866615296" by (rule abs_prod_le [OF wf(4) z]) simp_all
  then have y2: "\<bar>b1 b * (B6 * B6 div 4096) div 65536\<bar> \<le> 13224"
    using div_bounds [of "- 866615296" "b1 b * (B6 * B6 div 4096)" 866615296 65536] by (simp add: abs_le_iff)
  let ?s = "ac3 b * B6 div 8192 + b1 b * (B6 * B6 div 4096) div 65536 + 2"
  have y: "\<bar>ac3 b * B6 div 8192 + b1 b * (B6 * B6 div 4096) div 65536\<bar> \<le> 54856" by (rule abs_add_le [OF y1 y2]) simp_all
  have sa: "\<bar>?s\<bar> \<le> 54858" by (rule abs_add_le [OF y, of 2 2]) simp_all
  then have s: "- 54858 \<le> ?s" "?s \<le> 54858" by (rule abs_leD)+
  let ?t = "?s div 4 + 32768"
  have "- 13715 \<le> ?s div 4 \<and> ?s div 4 \<le> 13714" using div_bounds [OF s, of 4] by simp
  then have t: "19053 \<le> ?t" "?t \<le> 46482" by (rule shift_range)+
  have ta: "\<bar>?t\<bar> \<le> 46482" using t by (rule abs_rangeI)
  have t0: "0 \<le> ?t" by (rule order_trans [OF _ t(1)]) simp
  have "ac4 b * ?t \<le> 65535 * 46482" by (rule mult_mono [OF wf(8) t(2) _ t0]) simp
  then have u2: "ac4 b * ?t < 4294967296" by (rule order.strict_trans1) simp
  have u1: "0 \<le> ac4 b * ?t" by (rule mult_nonneg_nonneg [OF wf(7) t0])
  have "uint (to_u32 (ac4 b * ?t)) = ac4 b * ?t" by (rule uint_to_u32 [OF u1 u2])
  then have "uint (drop_bit 15 (to_u32 (ac4 b) * to_u32 ?t)) = exact_B4 b B6"
    unfolding exact_B4_def to_u32_mult by (simp only: uint_drop_bit_15)
  moreover have "bmp_B4 b B6 = drop_bit 15 (to_u32 (ac4 b) * to_u32 ?t)"
  proof -
    have "in_s32 (B6 * B6)" "in_s32 (ac3 b * B6)" "in_s32 (b1 b * (B6 * B6 div 4096))" "in_s32 ?s" "in_s32 ?t"
      "in_s32 (ac3 b * B6 div 8192 + b1 b * (B6 * B6 div 4096) div 65536)"
      by (rule in_s32_leI [OF q] in_s32_leI [OF x1] in_s32_leI [OF x2] in_s32_leI [OF sa] in_s32_leI [OF y]
          in_s32_leI [OF ta], simp)+
    note w = this [THEN wrap32_id]
    have n: "(2 :: int) ^ 12 = 4096" "(2 :: int) ^ 13 = 8192" "(2 :: int) ^ 16 = 65536" "(2 :: int) ^ 2 = 4" by simp_all
    show ?thesis unfolding bmp_B4_def Let_def by (simp only: w n)
  qed
  ultimately show ?thesis by simp
qed

lemma final_exact:
  assumes "0 \<le> p" "p \<le> 215000"
  shows "bmp_final p = exact_final p"
proof -
  have h: "0 \<le> p div 256 \<and> p div 256 \<le> 839" using div_bounds [OF assms, of 256] by simp
  then have ha: "\<bar>p div 256\<bar> \<le> 839" by (simp only: abs_of_nonneg)
  have q: "\<bar>p div 256 * (p div 256)\<bar> \<le> 703921" by (rule abs_prod_le [OF ha ha]) simp_all
  have x1: "\<bar>p div 256 * (p div 256) * 3038\<bar> \<le> 2138511998" by (rule abs_prod_le [OF q, of 3038 3038]) simp_all
  have y1: "\<bar>p div 256 * (p div 256) * 3038 div 65536\<bar> \<le> 32632"
    using div_bounds [OF abs_leD [OF x1], of 65536] by (simp add: abs_le_iff)
  have pa: "\<bar>p\<bar> \<le> 215000" using assms by simp
  have x2: "\<bar>- 7357 * p\<bar> \<le> 1581755000" by (rule abs_prod_le [of "- 7357" 7357, OF _ pa]) simp_all
  have y2: "\<bar>- 7357 * p div 65536\<bar> \<le> 24136"
    using div_bounds [OF abs_leD [OF x2], of 65536] by (simp add: abs_le_iff)
  let ?s = "p div 256 * (p div 256) * 3038 div 65536 + - 7357 * p div 65536"
  have s: "\<bar>?s\<bar> \<le> 56768" by (rule abs_add_le [OF y1 y2]) simp_all
  have t: "\<bar>?s + 3791\<bar> \<le> 60559" by (rule abs_add_le [OF s, of 3791 3791]) simp_all
  have u: "\<bar>(?s + 3791) div 16\<bar> \<le> 3785"
    using div_bounds [OF abs_leD [OF t], of 16] by (simp add: abs_le_iff)
  have "in_s32 (p div 256 * (p div 256))" "in_s32 (p div 256 * (p div 256) * 3038)" "in_s32 (- 7357 * p)"
    "in_s32 ?s" "in_s32 (?s + 3791)" "in_s32 (p + (?s + 3791) div 16)"
    by (rule in_s32_leI [OF q] in_s32_leI [OF x1] in_s32_leI [OF x2] in_s32_leI [OF s] in_s32_leI [OF t]
        in_s32_leI [OF abs_add_le [OF pa u order_refl]], simp)+
  note w = this [THEN wrap32_id]
  have n: "(2 :: int) ^ 8 = 256" "(2 :: int) ^ 16 = 65536" "(2 :: int) ^ 4 = 16" by simp_all
  show ?thesis unfolding bmp_final_def exact_final_def Let_def by (simp only: w n)
qed

text \<open>The final formula takes less than a hundredth away, so a result in range comes from a value in range.\<close>

lemma final_small:
  assumes "0 \<le> p" "exact_final p \<le> 110000"
  shows "p \<le> 215000"
proof (rule ccontr)
  assume p: "\<not> p \<le> 215000"
  let ?S = "p div 256 * (p div 256) * 3038 div 65536" and ?y = "- 7357 * p div 65536"
  have "0 \<le> ?S" by (simp add: pos_imp_zdiv_nonneg_iff)
  moreover have "- 7357 * p < 65536 * ?y + 65536"
    using mult_div_mod_eq [of 65536 "- 7357 * p"] pos_mod_bound [of 65536 "- 7357 * p"] by linarith
  moreover have "?S + ?y + 3791 < 16 * ((?S + ?y + 3791) div 16) + 16"
    using mult_div_mod_eq [of 16 "?S + ?y + 3791"] pos_mod_bound [of 16 "?S + ?y + 3791"] by linarith
  ultimately show False using p assms(2) unfolding exact_final_def by linarith
qed

lemma exact_raw_nonneg: "0 \<le> B7 \<Longrightarrow> 0 \<le> B4 \<Longrightarrow> 0 \<le> exact_raw B7 B4"
  by (auto simp: exact_raw_def div_int_pos_iff)

lemma raw_exact:
  assumes B7: "0 \<le> B7" "B7 < 4294967296" and B4: "uint B = B4" "0 < B4" and small: "exact_raw B7 B4 \<le> 215000"
  shows "of_u32 (if to_u32 B7 < 0x80000000 then (to_u32 B7 * 2) div B else (to_u32 B7 div B) * 2) = exact_raw B7 B4" (is "of_u32 ?w = _")
proof -
  have u: "uint (to_u32 B7) = B7" using B7 by (simp add: to_u32_def uint_word_of_int)
  have lt: "to_u32 B7 < 0x80000000 \<longleftrightarrow> B7 < 2147483648" using u by (simp add: word_less_def)
  have nn: "0 \<le> B7 div B4" using B7 B4 by (simp add: pos_imp_zdiv_nonneg_iff)
  have "uint ?w = exact_raw B7 B4"
  proof (cases "B7 < 2147483648")
    case True
    then have "uint (to_u32 B7 * 2) = B7 * 2" using u B7 by (simp add: uint_word_ariths)
    then show ?thesis using True lt B4 by (simp add: uint_div exact_raw_def)
  next
    case False
    then have "B7 div B4 * 2 < 4294967296" using small by (simp add: exact_raw_def)
    moreover have "0 \<le> B7 div B4 * 2" using nn by simp
    ultimately have "uint (to_u32 (B7 div B4 * 2)) = B7 div B4 * 2" by (rule uint_to_u32 [rotated])
    moreover have "to_u32 B7 div B = to_u32 (B7 div B4)"
      unfolding to_u32_def word_div_def using u B4(1) by (simp add: to_u32_def)
    moreover have "(2 :: u32) = to_u32 2" by (simp add: to_u32_def)
    ultimately have "uint ((to_u32 B7 div B) * 2) = B7 div B4 * 2" by (simp only: to_u32_mult)
    then show ?thesis using False lt by (simp add: exact_raw_def)
  qed
  then show ?thesis using exact_raw_nonneg [OF B7(1), of B4] B4(2) small by (intro of_u32_small) simp_all
qed

text \<open>A reading in the range of its register and a zero level between 0 and the reading keep \<open>B7\<close> in 32 bits.\<close>

lemma B7_in_range:
  assumes "0 \<le> z" "z \<le> UP" "(UP :: int) < 2 ^ nat (16 + b_oss b)" "0 \<le> b_oss b" "b_oss b \<le> 3"
  shows "(UP - z) * (50000 div 2 ^ nat (b_oss b)) mod 4294967296 = (UP - z) * (50000 div 2 ^ nat (b_oss b))"
proof (rule mod_pos_pos_trivial)
  let ?k = "50000 div 2 ^ nat (b_oss b) :: int"
  have k: "0 \<le> ?k" by (simp add: pos_imp_zdiv_nonneg_iff)
  show "0 \<le> (UP - z) * ?k" using assms(2) k by simp
  have "(UP - z) * ?k \<le> 2 ^ nat (16 + b_oss b) * ?k" using assms(1,3) k by (intro mult_right_mono) simp_all
  moreover have "b_oss b = 0 \<or> b_oss b = 1 \<or> b_oss b = 2 \<or> b_oss b = 3" using assms(4,5) by linarith
  then have "2 ^ nat (16 + b_oss b) * ?k \<le> 3276800000" by (elim disjE) simp_all
  ultimately show "(UP - z) * ?k < 4294967296" by linarith
qed

lemma to_u32_mod: "to_u32 (x mod 4294967296) = to_u32 x"
  by (simp add: to_u32_def word_of_int_eq_iff take_bit_eq_mod)

lemma pressure_wrapped:
  assumes "eprom_wf b" "0 \<le> b_oss b" "b_oss b \<le> 3" "0 \<le> UT" "UT \<le> 65535" "operating b UT UP"
  shows "bmp_pressure b UT UP = wrapped_pressure b UT UP"
proof -
  let ?B6 = "exact_B5 b UT - 4000"
  have t: "- 6408 \<le> exact_B5 b UT" "exact_B5 b UT \<le> 13607" using assms(6) unfolding operating_def by linarith+
  note B5 = B5_exact [OF assms(1,4,5) t]
  have B6: "\<bar>?B6\<bar> \<le> 10408" using t by linarith
  have w: "wrap32 ?B6 = ?B6" by (rule wrap32_id [OF in_s32_leI [OF B6]]) simp
  note B3 = B3_exact [OF assms(1) B6 assms(2,3)] and B4 = B4_exact [OF assms(1) B6]
  have z: "bmp_B4 b ?B6 = 0 \<longleftrightarrow> exact_B4 b ?B6 = 0" using B4 by (metis uint_0_iff)
  let ?x = "(UP - comp_B3 b ?B6 (wrap32 (b2 b * (?B6 * ?B6)))) * (50000 div 2 ^ nat (b_oss b))"
  have B7: "(to_u32 UP - to_u32 (bmp_B3 b ?B6)) * to_u32 (50000 div 2 ^ nat (b_oss b)) = to_u32 (?x mod 4294967296)"
    unfolding B3 to_u32_mod by (simp add: to_u32_def)
  show ?thesis
  proof (cases "exact_X1 b UT + md b = 0 \<or> exact_B4 b ?B6 = 0")
    case True
    then show ?thesis using assms(2,3) z by (auto simp: bmp_pressure_def comp_pressure_def B5 w Let_def)
  next
    case False
    have p4: "0 < exact_B4 b ?B6" using False B4 uint_nonnegative [of "bmp_B4 b ?B6"] by linarith
    have f: "exact_final (exact_raw (?x mod 4294967296) (exact_B4 b ?B6)) \<le> 110000"
      using assms(6) False by (simp add: operating_def comp_pressure_def Let_def)
    have n: "0 \<le> exact_raw (?x mod 4294967296) (exact_B4 b ?B6)" using p4 by (intro exact_raw_nonneg) simp_all
    note s = final_small [OF n f]
    note raw = raw_exact [OF _ _ B4 p4 s, simplified]
    have B5': "bmp_B5 b UT = Inr (exact_B5 b UT)" "bmp_B4 b ?B6 \<noteq> 0" "\<not> (b_oss b < 0 \<or> 32 \<le> b_oss b)"
      using B5 False z assms(2,3) by auto
    have "bmp_pressure b UT UP = Inr (exact_final (exact_raw (?x mod 4294967296) (exact_B4 b ?B6)))"
      unfolding bmp_pressure_def B5'(1) Let_def bind_res_simps w B7 if_not_P [OF B5'(2)] if_not_P [OF B5'(3)] raw final_exact [OF n s] ..
    then show ?thesis using False by (simp add: comp_pressure_def Let_def)
  qed
qed

text \<open>
  C9. Which operations of the pressure compensation can wrap around.  For coefficients and raw temperatures in the range of their registers, and
  temperatures and pressures in the range of the sensor, the 32-bit arithmetic of the driver computes the formulas over unbounded
  integers, division by zero included, except at two places: the product of \<open>B2\<close> and the square of \<open>B6\<close> is taken modulo 2^32, and so is
  \<open>B7\<close>.  So the result is exactly that of the formulas when that product fits in 32 bits and the raw pressure is in the range of its
  register and not below the zero level \<open>B3\<close>, itself not negative.
\<close>

theorem pressure_exact:
  assumes "eprom_wf b" "0 \<le> b_oss b" "b_oss b \<le> 3" "0 \<le> UT" "UT \<le> 65535" "operating b UT UP" "B6 = exact_B5 b UT - 4000"
  shows "bmp_pressure b UT UP = comp_pressure wrap32 (\<lambda>x. x mod 4294967296) b UT UP
    \<and> (in_s32 (b2 b * (B6 * B6)) \<and> 0 \<le> comp_B3 b B6 (b2 b * (B6 * B6)) \<and> comp_B3 b B6 (b2 b * (B6 * B6)) \<le> UP \<and> UP < 2 ^ nat (16 + b_oss b)
      \<longrightarrow> bmp_pressure b UT UP = comp_pressure id id b UT UP)"
  using B7_in_range [OF _ _ _ assms(2,3)] assms(7) by (simp add: pressure_wrapped [OF assms(1-6)] comp_pressure_def Let_def)

theorem pressure_exact_witness:
  "operating sample_bmp 27898 23843 \<and> bmp_pressure sample_bmp 27898 23843 = Inr 69964 \<and> comp_pressure id id sample_bmp 27898 23843 = Inr 69964"
proof -
  have o: "operating sample_bmp 27898 23843" "eprom_wf sample_bmp" "comp_pressure id id sample_bmp 27898 23843 = Inr 69964"
    "exact_B5 sample_bmp 27898 = 2400" "in_s32 (4 * ((- 1600) * (- 1600)))" "comp_B3 sample_bmp (- 1600) (4 * ((- 1600) * (- 1600))) = 422" by code_simp+
  have b: "b_oss sample_bmp = 0" "b2 sample_bmp = 4" by (simp_all add: sample_bmp_def)
  have "bmp_pressure sample_bmp 27898 23843 = comp_pressure id id sample_bmp 27898 23843"
    using pressure_exact [of sample_bmp 27898 23843 "- 1600", THEN conjunct2] o b by simp
  then show ?thesis using o by simp
qed

text \<open>
  The first place matters inside the range of the sensor: with \<open>B2 = 46\<close> the product exceeds 32 bits at about 70 degrees (and
  below -17 degrees), and the pressure is off.  The neighbouring formula for \<open>B4\<close> shifts the square before it multiplies, this one multiplies
  first, because \<open>*\<close> binds more tightly than \<open>>>\<close>.
\<close>

lemma pressure_wraps:
  "eprom_wf (sample_bmp\<lparr>b2 := 46\<rparr>) \<and> operating (sample_bmp\<lparr>b2 := 46\<rparr>) 35500 23843
   \<and> bmp_pressure (sample_bmp\<lparr>b2 := 46\<rparr>) 35500 23843 = Inr 78760 \<and> comp_pressure id id (sample_bmp\<lparr>b2 := 46\<rparr>) 35500 23843 = Inr 78333"
  by code_simp

end
