(* ===== verification/C_Time.thy ===== *)
theory C_Time
  imports Lago_Prelude
begin

text \<open>
  The calendar functions of the C library the program uses, \<open>gmtime\<close> and \<open>timegm\<close>, on the
  proleptic Gregorian calendar.  \<open>time_t\<close> has 32 bits on the target; \<open>timegm\<close> gives \<open>-1\<close> for a
  date outside its range.
\<close>

section \<open>Broken-down time\<close>

record tm =
  tm_sec :: int
  tm_min :: int
  tm_hour :: int
  tm_mday :: int
  tm_mon :: int
  tm_year :: int

definition leap :: "int \<Rightarrow> bool" where
  "leap y \<longleftrightarrow> 4 dvd y \<and> (\<not> 100 dvd y \<or> 400 dvd y)"

definition year_len :: "int \<Rightarrow> int" where
  "year_len y = (if leap y then 366 else 365)"

definition month_len :: "int \<Rightarrow> nat \<Rightarrow> int" where
  "month_len y m = (if m = 1 then (if leap y then 29 else 28) else if m \<in> {3, 5, 8, 10} then 30 else 31)"

text \<open>Days from 1970-01-01 to the first of January of a year, and days of a year before a month.\<close>

definition leaps_to :: "int \<Rightarrow> int" where
  "leaps_to y = y div 4 - y div 100 + y div 400"

definition days_before_year :: "int \<Rightarrow> int" where
  "days_before_year y = 365 * (y - 1970) + leaps_to (y - 1) - leaps_to 1969"

fun days_before_month :: "int \<Rightarrow> nat \<Rightarrow> int" where
  "days_before_month y 0 = 0"
| "days_before_month y (Suc m) = days_before_month y m + month_len y m"

section \<open>The two functions\<close>

text \<open>A month number outside 0 to 11 carries into the year; all other fields count as they are.\<close>

definition tm_seconds :: "tm \<Rightarrow> int" where
  "tm_seconds t = (let y = tm_year t + 1900 + tm_mon t div 12; m = nat (tm_mon t mod 12) in
     (days_before_year y + days_before_month y m + (tm_mday t - 1)) * 86400
     + tm_hour t * 3600 + tm_min t * 60 + tm_sec t)"

definition timegm :: "tm \<Rightarrow> int" where
  "timegm t = (if in_s32 (tm_seconds t) then tm_seconds t else - 1)"

text \<open>Find the year of a day count, then the month of a day of the year.\<close>

function find_year :: "int \<Rightarrow> int \<Rightarrow> int \<times> int" where
  "find_year y d = (if d < 0 then find_year (y - 1) (d + year_len (y - 1))
     else if year_len y \<le> d then find_year (y + 1) (d - year_len y) else (y, d))"
  by pat_completeness auto
termination
proof (relation "measure (\<lambda>(y, d). if d < 0 then nat (400 - d) else if year_len y \<le> d then nat d else 0)")
  fix y d :: int
  assume "d < 0"
  then show "((y - 1, d + year_len (y - 1)), y, d)
      \<in> measure (\<lambda>(y, d). if d < 0 then nat (400 - d) else if year_len y \<le> d then nat d else 0)"
    by (auto simp: year_len_def split: if_splits)
next
  fix y d :: int
  assume "\<not> d < 0" "year_len y \<le> d"
  then show "((y + 1, d - year_len y), y, d)
      \<in> measure (\<lambda>(y, d). if d < 0 then nat (400 - d) else if year_len y \<le> d then nat d else 0)"
    by (auto simp: year_len_def split: if_splits)
qed simp

declare find_year.simps [simp del]

fun find_month :: "int \<Rightarrow> nat list \<Rightarrow> int \<Rightarrow> nat \<times> int" where
  "find_month y [] d = (11, d)"
| "find_month y (m # ms) d = (if d < month_len y m then (m, d) else find_month y ms (d - month_len y m))"

definition gmtime :: "int \<Rightarrow> tm" where
  "gmtime t = (let days = t div 86400; s = t mod 86400; (y, d) = find_year 1970 days;
       (m, k) = find_month y [0..<12] d in
     \<lparr>tm_sec = s mod 60, tm_min = s mod 3600 div 60, tm_hour = s div 3600, tm_mday = k + 1, tm_mon = int m,
       tm_year = y - 1900\<rparr>)"

section \<open>Years and months\<close>

lemma div_step: "0 < n \<Longrightarrow> y div n = (y - 1) div n + (if n dvd y then 1 else 0)" for n y :: int
proof -
  assume n: "0 < n"
  have y: "y = n * (y div n) + y mod n" by simp
  have b: "0 \<le> y mod n" "y mod n < n" using n by simp_all
  show ?thesis
  proof (cases "n dvd y")
    case True
    then have "y - 1 = n * (y div n - 1) + (n - 1)" by (simp add: algebra_simps)
    then have "(y - 1) div n = y div n - 1" by (rule int_div_pos_eq) (use n in simp_all)
    then show ?thesis using True by simp
  next
    case False
    then have "1 \<le> y mod n" using b by (simp add: dvd_eq_mod_eq_0)
    have "y - 1 = n * (y div n) + (y mod n - 1)" using y by linarith
    then have "(y - 1) div n = y div n" by (rule int_div_pos_eq) (use b \<open>1 \<le> y mod n\<close> in simp_all)
    then show ?thesis using False by simp
  qed
qed

lemma leaps_step: "leaps_to y = leaps_to (y - 1) + (if leap y then 1 else 0)"
proof -
  have "100 dvd y \<Longrightarrow> 4 dvd y" by (rule dvd_trans [of _ 100]) simp_all
  moreover have "400 dvd y \<Longrightarrow> 100 dvd y" by (rule dvd_trans [of _ 400]) simp_all
  moreover have "y div 4 = (y - 1) div 4 + (if 4 dvd y then 1 else 0)" by (rule div_step) simp
  moreover have "y div 100 = (y - 1) div 100 + (if 100 dvd y then 1 else 0)" by (rule div_step) simp
  moreover have "y div 400 = (y - 1) div 400 + (if 400 dvd y then 1 else 0)" by (rule div_step) simp
  ultimately show ?thesis unfolding leaps_to_def leap_def
    by (cases "4 dvd y"; cases "100 dvd y"; cases "400 dvd y") (simp_all only: if_True if_False simp_thms)
qed

lemma days_before_year_step: "days_before_year (y + 1) = days_before_year y + year_len y"
  using leaps_step [of y] by (simp add: days_before_year_def year_len_def)

lemma days_before_year_1970 [simp]: "days_before_year 1970 = 0"
  by (simp add: days_before_year_def)

lemma days_before_month_12: "days_before_month y 12 = year_len y"
  by (simp add: numeral_eq_Suc month_len_def year_len_def)

lemma find_year_sum:
  "find_year y d = (y', d') \<Longrightarrow>
   days_before_year y' + d' = days_before_year y + d \<and> 0 \<le> d' \<and> d' < year_len y'"
proof (induction y d rule: find_year.induct)
  case (1 y d)
  consider "d < 0" | "0 \<le> d" "year_len y \<le> d" | "0 \<le> d" "d < year_len y" by linarith
  then show ?case
  proof cases
    case 1
    then have "find_year (y - 1) (d + year_len (y - 1)) = (y', d')"
      using "1.prems" by (simp add: find_year.simps [of y d])
    from "1.IH"(1) [OF 1 this] show ?thesis using days_before_year_step [of "y - 1"] by simp
  next
    case 2
    then have "find_year (y + 1) (d - year_len y) = (y', d')"
      using "1.prems" by (simp add: find_year.simps [of y d])
    with "1.IH"(2) 2 show ?thesis using days_before_year_step [of y] by simp
  next
    case 3
    then show ?thesis using "1.prems" by (simp add: find_year.simps [of y d])
  qed
qed

lemma find_month_sum:
  assumes "find_month y [j..<12] d = (m, k)" "j \<le> 11" "0 \<le> d" "d < year_len y - days_before_month y j"
  shows "days_before_month y m + k = days_before_month y j + d \<and> m < 12 \<and> 0 \<le> k \<and> k < month_len y m"
  using assms
proof (induction "11 - j" arbitrary: j d)
  case 0
  then have "j = 11" by simp
  moreover have "days_before_month y 12 = days_before_month y 11 + month_len y 11"
    by (simp add: eval_nat_numeral)
  ultimately show ?case using 0 days_before_month_12 [of y] by (auto simp: upt_rec split: if_splits)
next
  case (Suc n)
  then have "[j..<12] = j # [Suc j..<12]" by (simp add: upt_rec)
  with Suc.prems have step: "if d < month_len y j then m = j \<and> k = d
      else find_month y [Suc j..<12] (d - month_len y j) = (m, k)" by (auto split: if_splits)
  show ?case
  proof (cases "d < month_len y j")
    case True
    then show ?thesis using step Suc by simp
  next
    case False
    then show ?thesis using step Suc.hyps(1) [of "Suc j" "d - month_len y j"] Suc.hyps(2) Suc.prems by simp
  qed
qed

section \<open>Laws of the clock\<close>

lemma split_sum:
  fixes t :: int
  assumes "a * 86400 + s = t" "h * 3600 + r = s" "m * 60 + c = r"
  shows "a * 86400 + h * 3600 + m * 60 + c = t"
  using assms by simp

lemma seconds_split:
  fixes t :: int
  shows "t div 86400 * 86400 + (t mod 86400 div 3600) * 3600 + (t mod 86400 mod 3600 div 60) * 60 + t mod 86400 mod 60 = t"
proof -
  have "t mod 86400 mod 3600 mod 60 = t mod 86400 mod 60" by (rule mod_mod_cancel) simp
  then show ?thesis
    using split_sum [OF div_mult_mod_eq [of t 86400] div_mult_mod_eq [of "t mod 86400" 3600]
      div_mult_mod_eq [of "t mod 86400 mod 3600" 60]] by (simp only:)
qed

lemma tm_seconds_gmtime: "tm_seconds (gmtime t) = t"
proof -
  obtain y d where y: "find_year 1970 (t div 86400) = (y, d)" by (cases "find_year 1970 (t div 86400)")
  obtain m k where m: "find_month y [0..<12] d = (m, k)" by (cases "find_month y [0..<12] d")
  note ys = find_year_sum [OF y]
  have ms: "days_before_month y m + k = d \<and> m < 12"
    using find_month_sum [of y 0 d m k] m ys by simp
  have mon: "int m div 12 = 0" "nat (int m mod 12) = m" using ms by simp_all
  have days: "days_before_year y + days_before_month y m + k = t div 86400" using ys ms by simp
  have "tm_seconds (gmtime t) = t div 86400 * 86400 + (t mod 86400 div 3600) * 3600
      + (t mod 86400 mod 3600 div 60) * 60 + t mod 86400 mod 60"
    unfolding tm_seconds_def gmtime_def Let_def y m prod.case tm.simps mon diff_add_cancel add_0_right
      add_diff_cancel_right' days ..
  then show ?thesis using seconds_split [of t] by (simp only:)
qed

text \<open>The fields \<open>gmtime\<close> gives are in range.\<close>

lemma gmtime_range:
  "0 \<le> tm_sec (gmtime t) \<and> tm_sec (gmtime t) < 60" "0 \<le> tm_min (gmtime t) \<and> tm_min (gmtime t) < 60"
  "0 \<le> tm_hour (gmtime t) \<and> tm_hour (gmtime t) < 24"
proof -
  have s: "0 \<le> t mod 86400" "t mod 86400 < 86400" by simp_all
  have f: "tm_sec (gmtime t) = t mod 86400 mod 60" "tm_min (gmtime t) = t mod 86400 mod 3600 div 60"
    "tm_hour (gmtime t) = t mod 86400 div 3600"
    by (simp_all add: gmtime_def Let_def del: mod_mod_trivial split: prod.splits)
  have d: "0 \<le> x \<Longrightarrow> x < b * c \<Longrightarrow> 0 < c \<Longrightarrow> 0 \<le> x div c \<and> x div c < b" for x b c :: int
  proof -
    assume x: "0 \<le> x" "x < b * c" "0 < c"
    have "x div c * c \<le> x" using x(3) by (simp add: minus_mod_eq_div_mult [symmetric])
    then have "x div c * c < b * c" using x(2) by simp
    then show ?thesis using x(1,3) by (simp add: pos_imp_zdiv_nonneg_iff)
  qed
  show "0 \<le> tm_sec (gmtime t) \<and> tm_sec (gmtime t) < 60" unfolding f by simp
  show "0 \<le> tm_min (gmtime t) \<and> tm_min (gmtime t) < 60" unfolding f by (rule d) simp_all
  show "0 \<le> tm_hour (gmtime t) \<and> tm_hour (gmtime t) < 24" unfolding f by (rule d) (simp_all add: s)
qed

text \<open>
  The interface a clock user relies on: encoding and decoding are inverse on the valid times,
  and adding one to the seconds of a decoded time encodes the next one.
\<close>

locale wall_clock =
  fixes enc :: "'t \<Rightarrow> int" and dec :: "int \<Rightarrow> 't" and tick :: "'t \<Rightarrow> 't" and valid :: "int \<Rightarrow> bool"
  assumes enc_dec: "valid t \<Longrightarrow> enc (dec t) = t"
    and enc_tick: "valid t \<Longrightarrow> valid (t + 1) \<Longrightarrow> enc (tick (dec t)) = t + 1"
begin

lemma ticks:
  assumes "\<And>i. i \<le> n \<Longrightarrow> valid (t + int i)"
  shows "((\<lambda>c. dec (enc (tick c))) ^^ n) (dec t) = dec (t + int n)"
  using assms
proof (induction n)
  case (Suc n)
  have e: "t + int (Suc n) = t + int n + 1" by simp
  have v: "valid (t + int n)" "valid (t + int n + 1)" using Suc.prems [of n] Suc.prems [of "Suc n"] unfolding e by simp_all
  have "((\<lambda>c. dec (enc (tick c))) ^^ Suc n) (dec t) = dec (enc (tick (dec (t + int n))))"
    using Suc by simp
  then show ?case unfolding e enc_tick [OF v] .
qed simp

end

definition tm_tick :: "tm \<Rightarrow> tm" where
  "tm_tick t = t\<lparr>tm_sec := tm_sec t + 1\<rparr>"

lemma tm_seconds_tick: "tm_seconds (tm_tick t) = tm_seconds t + 1"
  by (simp add: tm_seconds_def tm_tick_def Let_def)

interpretation utc: wall_clock timegm gmtime tm_tick in_s32
  by unfold_locales (simp_all add: timegm_def tm_seconds_gmtime tm_seconds_tick)

end
