(* ===== verification/Lago_State.thy ===== *)
theory Lago_State
  imports Gps Bmp180 C_Time
begin

text \<open>
  The globals of the data acquisition program, \<^verbatim>\<open>projects/lago_v1_5/src/lago.h\<close>, as the last links
  of the chain of records, and the rest of the environment the program runs in.
\<close>

section \<open>Command line\<close>

record args =
  fReadReg :: bool
  fWriteReg :: bool
  fGetCfgStatus :: bool
  fSetCfgReg :: bool
  fToFile :: bool
  fToStdout :: bool
  fGetPT :: bool
  fGetGPS :: bool
  fInitSystem :: bool
  fGetXADC :: bool
  fGetHst :: bool
  fFile :: bool
  fCount :: bool
  fByte :: bool
  fData :: bool
  fRegValue :: bool
  fshowversion :: bool
  charAction :: string
  charReg :: string
  scRegister :: string
  charFile :: string
  charCount :: string
  scByte :: string
  charRegValue :: string
  n_dev :: int
  reg_off :: u32
  reg_val :: int
  histo_nsamples :: int

section \<open>Acquisition\<close>

text \<open>Counters of the metadata block; \<open>long int\<close> has 32 bits.\<close>

record mtd =
  mtd_seconds :: int
  mtd_bl0 :: int
  mtd_bl1 :: int
  mtd_bl20 :: int
  mtd_bl21 :: int
  mtd_iBin :: int
  mtd_cbl :: int
  mtd_dp :: int
  mtd_cdp :: int
  mtd_pulse_cnt :: int
  mtd_pulse_pnt :: int

text \<open>
  The output handle \<open>fhout\<close>: NULL, the standard output, or a data file, by its number in the
  list of files opened so far (path, text, still open).
\<close>

datatype handle = HNull | HStdout | HFile nat

record data_file =
  f_path :: string
  f_text :: string
  f_open :: bool

text \<open>What the interrupt device gives for one wait: results of \<open>write\<close>, \<open>poll\<close> and \<open>read\<close>.\<close>

record irq_ev =
  irq_wr :: int
  irq_poll :: int
  irq_rd :: int

text \<open>The calls that give back a mapping or a descriptor.\<close>

datatype os_ev = Munmap dev nat | CloseFd int

record lago = uart_st +
  args :: args
  interrupted :: bool
  histo_limit :: int
  histo_position :: int
  limit :: int
  current :: int
  position :: int
  g_data :: loc
  r1 :: int
  r2 :: int
  hack :: int
  fFirstTime :: bool
  fhout :: handle
  files :: "data_file list"
  charCurrentFile :: string
  charCurrentMetaData :: string
  fileTime :: int
  fileDate :: tm
  falseGPS :: bool
  mtd :: mtd
  trig_cnt :: "int list"
  gps_lat :: rat
  gps_lon :: rat
  gps_alt :: rat
  i2c :: i2c_log
  time_calls :: nat
  not_gps :: bool
  os_log :: "os_ev list"
  sleeps :: "nat list"

text \<open>
  The environment: registers and devices, the sensor's bus, \<open>pow\<close>, the results of the calls of
  \<open>time(NULL)\<close>, the text \<open>ctime_r\<close> gives, the host name, whether a file can be opened, whether a
  thread can be created, the words of the two histogram memories, the contents of the stack, of the memory
  \<open>malloc\<close> gives for the sensor object and of an uninitialised position.
\<close>

record lenv =
  le_z :: zenv
  le_b :: benv
  le_pow :: "rat \<Rightarrow> rat \<Rightarrow> rat"
  le_time :: "nat \<Rightarrow> int"
  le_ctime :: "int \<Rightarrow> string"
  le_host :: string
  le_fopen :: "string \<Rightarrow> bool"
  le_thread :: int
  le_hst :: "nat \<Rightarrow> nat \<Rightarrow> u32"
  le_stack :: string
  le_fresh :: bmp180
  le_loc :: loc

section \<open>Helpers\<close>

definition args_c :: "(args \<Rightarrow> args) \<Rightarrow> ('a lago_scheme, unit) cm" where
  [cm_defs]: "args_c f = mod_c (\<lambda>s. s\<lparr>args := f (args s)\<rparr>)"

text \<open>Run a sensor operation on the bus log of the program state.\<close>

definition i2c_c :: "(i2c_log, 'b) cm \<Rightarrow> ('a lago_scheme, 'b) cm" where
  [cm_defs]: "i2c_c m = (\<lambda>s. case m (i2c s) of Inl e \<Rightarrow> Inl e | Inr (v, lg) \<Rightarrow> Inr (v, s\<lparr>i2c := lg\<rparr>))"

definition time_c :: "lenv \<Rightarrow> ('a lago_scheme, int) cm" where
  [cm_defs]: "time_c env = (\<lambda>s. Inr (le_time env (time_calls s), s\<lparr>time_calls := Suc (time_calls s)\<rparr>))"

definition usleep_c :: "nat \<Rightarrow> ('a lago_scheme, unit) cm" where
  [cm_defs]: "usleep_c n = mod_c (\<lambda>s. s\<lparr>sleeps := sleeps s @ [n]\<rparr>)"

text \<open>\<open>fprintf(fhout, ...)\<close>: to the standard output or to the open file; through NULL it stops.\<close>

definition app_text :: "string \<Rightarrow> data_file \<Rightarrow> data_file" where
  "app_text t f = f\<lparr>f_text := f_text f @ t\<rparr>"

definition out_c :: "string \<Rightarrow> ('a lago_scheme, unit) cm" where
  "out_c t = (\<lambda>s. case fhout s of
       HNull \<Rightarrow> Inl NullDeref
     | HStdout \<Rightarrow> Inr ((), s\<lparr>c_out := c_out s @ t\<rparr>)
     | HFile k \<Rightarrow> if k < length (files s) \<and> f_open (files s ! k)
         then Inr ((), s\<lparr>files := (files s)[k := app_text t (files s ! k)]\<rparr>) else Inl OutOfBounds)"

lemma lago_c_Inr [cm_inv]:
  "args_c f s = Inr (u, s') \<longleftrightarrow> s' = s\<lparr>args := f (args s)\<rparr>"
  "time_c env s = Inr (v, s') \<longleftrightarrow> v = le_time env (time_calls s) \<and> s' = s\<lparr>time_calls := Suc (time_calls s)\<rparr>"
  "usleep_c n s = Inr (u, s') \<longleftrightarrow> s' = s\<lparr>sleeps := sleeps s @ [n]\<rparr>"
  "i2c_c m s = Inr (x, s') \<longleftrightarrow> (\<exists>lg. m (i2c s) = Inr (x, lg) \<and> s' = s\<lparr>i2c := lg\<rparr>)"
  by (auto simp: cm_defs split: sum.splits)

end
