(* ===== verification/Lago_Args.thy ===== *)
theory Lago_Args
  imports Lago_State
begin

text \<open>
  Command line of the acquisition program: \<open>StrcpyS\<close>, \<open>parse_param\<close> and \<open>show_usage\<close> of
  \<^verbatim>\<open>projects/lago_v1_5/src/lago.c\<close>.  The global character arrays are represented by the strings
  they hold; that \<open>StrcpyS\<close> leaves that string in the array is a lemma about the raw bytes.
\<close>

section \<open>Copying an argument\<close>

definition strncpy_c :: "string \<Rightarrow> string \<Rightarrow> nat \<Rightarrow> string res" where
  "strncpy_c dst src n = (if length dst < n then Inl OutOfBounds
     else Inr (take n (src @ replicate n nul) @ drop n dst))"

definition StrcpyS :: "string \<Rightarrow> nat \<Rightarrow> string option \<Rightarrow> string res" where
  "StrcpyS szDst cchDst szSrc = (if 0 < cchDst then
       (case szSrc of None \<Rightarrow> Inl NullDeref | Some src \<Rightarrow>
          bind_res (strncpy_c szDst src (cchDst - 1)) (\<lambda>d.
            if cchDst \<le> length d then Inr (d[cchDst - 1 := nul]) else Inl OutOfBounds))
     else Inr szDst)"

definition copied :: "nat \<Rightarrow> string option \<Rightarrow> string res" where
  "copied n src = (case src of None \<Rightarrow> Inl NullDeref | Some s \<Rightarrow> Inr (take (n - 1) s))"

definition MAXCHRLEN :: nat where "MAXCHRLEN = 1024"
definition MAXFILENAMELEN :: nat where "MAXFILENAMELEN = 255"

text \<open>\<open>argv[k]\<close>: the entry after the last argument is NULL, the ones beyond it are not ours.\<close>

definition arg_at :: "string list \<Rightarrow> nat \<Rightarrow> string option res" where
  "arg_at argv k = (if k < length argv then Inr (Some (argv ! k))
     else if k = length argv then Inr None else Inl OutOfBounds)"

definition copy_arg :: "nat \<Rightarrow> string list \<Rightarrow> nat \<Rightarrow> string res" where
  "copy_arg n argv k = bind_res (arg_at argv k) (copied n)"

section \<open>parse\_param\<close>

definition reset_flags :: "args \<Rightarrow> args" where
  "reset_flags a = a\<lparr>fReadReg := False, fWriteReg := False, fGetCfgStatus := False, fSetCfgReg := False,
     fToFile := False, fToStdout := False, fGetPT := False, fGetGPS := False, fFile := False, fCount := False,
     fByte := False, fData := False, fRegValue := False, fGetXADC := False, fGetHst := False\<rparr>"

text \<open>The action flag: the value of an early return, or \<open>None\<close> to go on with the register.\<close>

definition parse_action :: "string \<Rightarrow> ('a lago_scheme, int option) cm" where
  "parse_action act =
     (if act = ''-r'' then then_c (args_c (\<lambda>a. a\<lparr>fReadReg := True\<rparr>)) (ret_c None)
      else if act = ''-w'' then then_c (args_c (\<lambda>a. a\<lparr>fWriteReg := True\<rparr>)) (ret_c None)
      else if act = ''-a'' then then_c (args_c (\<lambda>a. a\<lparr>fGetCfgStatus := True\<rparr>)) (ret_c (Some 1))
      else if act = ''-v'' then then_c (args_c (\<lambda>a. a\<lparr>fshowversion := True\<rparr>)) (ret_c (Some 0))
      else if act = ''-s'' then then_c (args_c (\<lambda>a. a\<lparr>fSetCfgReg := True\<rparr>)) (ret_c None)
      else if act = ''-f'' then then_c (args_c (\<lambda>a. a\<lparr>fToFile := True\<rparr>)) (ret_c None)
      else if act = ''-o'' then then_c (args_c (\<lambda>a. a\<lparr>fToStdout := True\<rparr>)) (ret_c (Some 1))
      else if act = ''-t'' then then_c (args_c (\<lambda>a. a\<lparr>fGetPT := True\<rparr>)) (ret_c (Some 1))
      else if act = ''-g'' then then_c (args_c (\<lambda>a. a\<lparr>fGetGPS := True\<rparr>)) (ret_c (Some 1))
      else if act = ''-i'' then then_c (args_c (\<lambda>a. a\<lparr>fInitSystem := True\<rparr>)) (ret_c (Some 1))
      else if act = ''-x'' then then_c (args_c (\<lambda>a. a\<lparr>fGetXADC := True\<rparr>)) (ret_c (Some 1))
      else if act = ''-m'' then then_c (args_c (\<lambda>a. a\<lparr>fGetHst := True\<rparr>)) (ret_c None)
      else ret_c (Some 0))"

definition device_no :: "string \<Rightarrow> int option" where
  "device_no r = (if r = ''intc'' then Some 0 else if r = ''cfg'' then Some 1
     else if r = ''sts'' then Some 2 else if r = ''xadc'' then Some 3 else None)"

definition parse_device :: "string list \<Rightarrow> ('a lago_scheme, int) cm" where
  "parse_device argv =
     bind_c (lift_c (copy_arg MAXCHRLEN argv 2)) (\<lambda>reg.
     then_c (args_c (\<lambda>a. a\<lparr>charReg := reg\<rparr>))
     (case device_no reg of None \<Rightarrow> ret_c 0
      | Some d \<Rightarrow> then_c (args_c (\<lambda>a. a\<lparr>n_dev := d\<rparr>))
        (bind_c (lift_c (arg_at argv 3)) (\<lambda>p3. case p3 of None \<Rightarrow> stop_c NullDeref | Some a3 \<Rightarrow>
         then_c (args_c (\<lambda>a. a\<lparr>reg_off := strtoul16 a3\<rparr>))
         (bind_c (get_c (\<lambda>s. fWriteReg (args s))) (\<lambda>w.
           if w then bind_c (lift_c (arg_at argv 4)) (\<lambda>p4. case p4 of None \<Rightarrow> stop_c NullDeref | Some a4 \<Rightarrow>
             then_c (args_c (\<lambda>a. a\<lparr>reg_val := of_u32 (strtoul16 a4)\<rparr>)) (ret_c 1))
           else ret_c 1))))))"

definition parse_histogram :: "string list \<Rightarrow> ('a lago_scheme, int) cm" where
  "parse_histogram argv = bind_c (lift_c (arg_at argv 2)) (\<lambda>p. case p of
       Some a2 \<Rightarrow> (let v = take 15 a2 in
         then_c (args_c (\<lambda>a. a\<lparr>charRegValue := v\<rparr>))
         (if atoi v > 10000000 \<or> atoi v \<le> 0
          then then_c (printf (''Error: maximum value for NSAMPLES is 10000000. It should be a positive number'' @ nl))
            (stop_c (ExitWith 1))
          else then_c (args_c (\<lambda>a. a\<lparr>histo_nsamples := atoi v\<rparr>)) (ret_c 1)))
     | None \<Rightarrow> bind_c (get_c (\<lambda>s. histo_nsamples (args s))) (\<lambda>n.
         then_c (printf (''histo_nsamples es: '' @ fmt_d n @ nl))
         (then_c (printf (''Error: No NSAMPLES provided'' @ nl)) (ret_c 0))))"

definition cfg_name :: "string \<Rightarrow> cfg_reg option" where
  "cfg_name r =
     (if r = ''t1'' then Some CFG_TRLVL_1 else if r = ''t2'' then Some CFG_TRLVL_2
      else if r = ''st1'' then Some CFG_STRLVL_1 else if r = ''st2'' then Some CFG_STRLVL_2
      else if r = ''hv1'' then Some CFG_HV1 else if r = ''hv2'' then Some CFG_HV2
      else if r = ''ov1'' then Some CFG_HV1 else if r = ''ov2'' then Some CFG_HV2
      else if r = ''ov3'' then Some CFG_HV3 else if r = ''ov4'' then Some CFG_HV4
      else if r = ''sc1'' then Some CFG_TR_SCAL_A else if r = ''sc2'' then Some CFG_TR_SCAL_B
      else None)"

definition is_voltage :: "string \<Rightarrow> bool" where
  "is_voltage r \<longleftrightarrow> starts_with ''hv'' r \<or> starts_with ''ov'' r"

definition parse_set :: "string list \<Rightarrow> ('a lago_scheme, int) cm" where
  "parse_set argv =
     bind_c (lift_c (copy_arg MAXCHRLEN argv 2)) (\<lambda>reg.
     then_c (args_c (\<lambda>a. a\<lparr>charReg := reg\<rparr>))
     (case cfg_name reg of None \<Rightarrow> ret_c 0
      | Some c \<Rightarrow> then_c (args_c (\<lambda>a. a\<lparr>reg_off := cfg_off c\<rparr>))
        (bind_c (lift_c (copy_arg 16 argv 3)) (\<lambda>v.
         then_c (args_c (\<lambda>a. a\<lparr>charRegValue := v\<rparr>))
         (if is_voltage reg then
            (if atoi v > 2500 then then_c (printf (''Error: maximum voltage is 2500 mV'' @ nl)) (stop_c (ExitWith 1))
             else then_c (args_c (\<lambda>a. a\<lparr>fRegValue := True\<rparr>)) (ret_c 1))
          else ret_c 1)))))"

definition parse_file :: "string list \<Rightarrow> ('a lago_scheme, int) cm" where
  "parse_file argv = bind_c (lift_c (arg_at argv 2)) (\<lambda>p. case p of
       Some a2 \<Rightarrow> then_c (args_c (\<lambda>a. a\<lparr>charFile := take (MAXFILENAMELEN - 1) a2, fFile := True\<rparr>)) (ret_c 1)
     | None \<Rightarrow> ret_c 0)"

text \<open>The loop over option pairs; the result is \<open>False\<close> when it makes \<open>parse_param\<close> return 0.\<close>

fun parse_options :: "string list \<Rightarrow> ('a lago_scheme, bool) cm" where
  "parse_options [] = ret_c True"
| "parse_options (opt # rest) =
     (if opt = ''-f'' then (case rest of [] \<Rightarrow> ret_c False | v # vs \<Rightarrow>
        then_c (args_c (\<lambda>a. a\<lparr>charFile := take 15 v, fFile := True\<rparr>)) (parse_options vs))
      else if opt = ''-c'' then (case rest of [] \<Rightarrow> ret_c False | v # vs \<Rightarrow>
        then_c (args_c (\<lambda>a. a\<lparr>charCount := take 15 v, fCount := True\<rparr>)) (parse_options vs))
      else if opt = ''-b'' then (case rest of [] \<Rightarrow> ret_c False | v # vs \<Rightarrow>
        then_c (args_c (\<lambda>a. a\<lparr>scByte := take 15 v, fByte := True\<rparr>)) (parse_options vs))
      else ret_c False)"

definition parse_other :: "string list \<Rightarrow> ('a lago_scheme, int) cm" where
  "parse_other argv =
     bind_c (lift_c (copy_arg MAXCHRLEN argv 2)) (\<lambda>reg.
     then_c (args_c (\<lambda>a. a\<lparr>scRegister := reg\<rparr>))
     (bind_c (parse_options (drop 3 argv)) (\<lambda>ok.
      if \<not> ok then ret_c 0
      else bind_c (get_c args) (\<lambda>a.
        if fWriteReg a \<and> \<not> fByte a then then_c (printf (''Error: No byte value provided'' @ nl)) (ret_c 0)
        else if fToFile a \<and> \<not> fFile a then then_c (printf (''Error: No filename provided'' @ nl)) (ret_c 0)
        else ret_c 1))))"

text \<open>The whole function; its last branch is an argument, so that its reachability can be stated.\<close>

definition parse_register :: "(string list \<Rightarrow> ('a lago_scheme, int) cm) \<Rightarrow> string list \<Rightarrow> ('a lago_scheme, int) cm" where
  "parse_register other argv = bind_c (get_c args) (\<lambda>a.
     if fReadReg a \<or> fWriteReg a then parse_device argv
     else if fGetHst a then parse_histogram argv
     else if fSetCfgReg a then parse_set argv
     else if fToFile a then parse_file argv
     else other argv)"

definition parse_param_with :: "(string list \<Rightarrow> ('a lago_scheme, int) cm) \<Rightarrow> string list \<Rightarrow> ('a lago_scheme, int) cm" where
  "parse_param_with other argv =
     then_c (args_c reset_flags)
     (if length argv < 2 then ret_c 0
      else bind_c (lift_c (copy_arg MAXCHRLEN argv 1)) (\<lambda>act.
        then_c (args_c (\<lambda>a. a\<lparr>charAction := act\<rparr>))
        (bind_c (parse_action act) (\<lambda>r. case r of Some v \<Rightarrow> ret_c v
         | None \<Rightarrow> parse_register other argv))))"

definition parse_param :: "string list \<Rightarrow> ('a lago_scheme, int) cm" where
  "parse_param = parse_param_with parse_other"

section \<open>show\_usage\<close>

definition tab :: string where
  "tab = [CHR 0x09]"

definition VERSION :: int where "VERSION = 2"
definition REVISION :: int where "REVISION = 5"
definition DATAVERSION :: int where "DATAVERSION = 5"

definition show_usage :: "string \<Rightarrow> ('a lago_scheme, unit) cm" where
  "show_usage progname = bind_c (get_c (\<lambda>s. fshowversion (args s))) (\<lambda>v.
     if v then printf (''LAGO ACQUA BRC v'' @ fmt_d VERSION @ ''r'' @ fmt_d REVISION @ '' data v'' @ fmt_d DATAVERSION @ nl)
     else seq_c [
       printf (nl @ tab @ ''The LAGO ACQUA suite'' @ nl),
       printf (tab @ ''Data acquisition system for the LAGO BRC electronic'' @ nl),
       printf (tab @ ''(c) 2012-Today, The LAGO Project, http://lagoproject.net'' @ nl),
       printf (tab @ ''(c) 2012, LabDPR, http://labdpr.cab.cnea.gov.ar'' @ nl),
       printf (nl @ tab @ ''The LAGO Project, lago@lagoproject.org'' @ nl),
       printf (nl @ tab @ ''DPR Lab. 2021'' @ nl),
       printf (tab @ ''H. Arnaldi, lharnaldi@gmail.com'' @ nl),
       printf (tab @ ''X. Bertou, bertou@gmail.com'' @ nl),
       printf (tab @ ''LAGO v'' @ fmt_d VERSION @ ''r'' @ fmt_d REVISION @ '' comms soft'' @ nl @ nl),
       printf (''Usage: '' @ progname @ '' <action> <register> <value> [options]'' @ nl),
       printf (nl @ tab @ ''Actions:'' @ nl),
       printf (tab @ ''-a'' @ tab @ tab @ tab @ tab @ ''Get all registers status'' @ nl),
       printf (tab @ ''-s'' @ tab @ tab @ tab @ tab @ ''Set registers'' @ nl),
       printf (tab @ ''-f'' @ tab @ tab @ tab @ tab @ ''Start DAQ and save data to file'' @ nl),
       printf (tab @ ''-o'' @ tab @ tab @ tab @ tab @ ''Start DAQ and send data to stdout'' @ nl),
       printf (tab @ ''-g'' @ tab @ tab @ tab @ tab @ ''Get GPS data'' @ nl),
       printf (tab @ ''-t'' @ tab @ tab @ tab @ tab @ ''Get Pressure and Temperature data'' @ nl),
       printf (tab @ ''-i'' @ tab @ tab @ tab @ tab @ ''Initialise registers to default values'' @ nl),
       printf (tab @ ''-x'' @ tab @ tab @ tab @ tab @ ''Read the voltage in the XADC channels'' @ nl),
       printf (tab @ ''-m'' @ tab @ tab @ tab @ tab @ ''Get amplitude histograms from both channels'' @ nl),
       printf (tab @ ''-v'' @ tab @ tab @ tab @ tab @ ''Show DAQ version'' @ nl),
       printf (nl @ tab @ ''Registers:'' @ nl),
       printf (tab @ ''t1, t2'' @ tab @ tab @ tab @ tab @ ''Specify triggers 1 and 2'' @ nl),
       printf (tab @ ''sc1, sc2'' @ tab @ tab @ tab @ ''Specify scaling factor 1 and 2'' @ nl),
       printf (tab @ ''hv1, hv2'' @ tab @ tab @ tab @ ''Specify high voltages'' @ nl),
       printf (tab @ ''ov1, ov2, ov3, ov4'' @ tab @ tab @ ''Specify output voltages'' @ nl),
       printf (nl @ tab @ ''Options:'' @ nl),
       printf (tab @ ''-f <filename>'' @ tab @ tab @ tab @ ''Specify file name'' @ nl),
       printf (tab @ ''-m <nsamples>'' @ tab @ tab @ tab @ ''Specify number of samples in histograms'' @ nl),
       printf (nl @ nl)])"

section \<open>Laws\<close>

text \<open>
  The bytes \<open>StrcpyS\<close> leaves in an array of at least the given size: a terminated string, the
  argument cut to the size less one.
\<close>

lemma StrcpyS_string:
  assumes "0 < n" "n \<le> length dst" "nul \<notin> set src"
  shows "\<exists>b. StrcpyS dst n (Some src) = Inr b \<and> length b = length dst \<and> cstr b = copied n (Some src)"
proof -
  obtain k where n: "n = Suc k" using assms(1) by (cases n) auto
  let ?t = "take k (src @ replicate k nul)"
  let ?d = "?t @ drop k dst"
  have t: "length ?t = k" by simp
  have st: "StrcpyS dst n (Some src) = Inr (?d[k := nul])"
    using assms(2) t by (simp add: StrcpyS_def strncpy_c_def n)
  obtain y ys where d: "drop k dst = y # ys" using assms(2) n by (cases "drop k dst") auto
  have b: "?d[k := nul] = ?t @ nul # ys" unfolding d using list_update_length [of ?t y ys nul] unfolding t .
  have "?t = take k src @ replicate (k - length src) nul" by (simp add: take_append min_def)
  then obtain r where "?d[k := nul] = take k src @ nul # r"
    unfolding b by (cases "k - length src") simp_all
  moreover have "nul \<notin> set (take k src)" using assms(3) by (meson in_set_takeD)
  ultimately have "cstr (?d[k := nul]) = Inr (take k src)" by simp
  then show ?thesis using st assms(2) n by (simp add: copied_def)
qed

definition mode_flags :: "args \<Rightarrow> bool list" where
  "mode_flags a = [fReadReg a, fWriteReg a, fGetCfgStatus a, fSetCfgReg a, fToFile a, fToStdout a, fGetPT a,
     fGetGPS a, fInitSystem a, fGetXADC a, fGetHst a]"

lemmas parse_defs = parse_param_with_def parse_device_def parse_histogram_def parse_set_def parse_file_def
  copy_arg_def arg_at_def copied_def cm_defs

text \<open>Parsing the second stage keeps the mode flags and sets the value flag only for a checked voltage.\<close>

lemma mode_flags_update [simp]:
  "mode_flags (a\<lparr>fReadReg := b\<rparr>) = (mode_flags a)[0 := b]"
  "mode_flags (a\<lparr>fWriteReg := b\<rparr>) = (mode_flags a)[1 := b]"
  "mode_flags (a\<lparr>fGetCfgStatus := b\<rparr>) = (mode_flags a)[2 := b]"
  "mode_flags (a\<lparr>fSetCfgReg := b\<rparr>) = (mode_flags a)[3 := b]"
  "mode_flags (a\<lparr>fToFile := b\<rparr>) = (mode_flags a)[4 := b]"
  "mode_flags (a\<lparr>fToStdout := b\<rparr>) = (mode_flags a)[5 := b]"
  "mode_flags (a\<lparr>fGetPT := b\<rparr>) = (mode_flags a)[6 := b]"
  "mode_flags (a\<lparr>fGetGPS := b\<rparr>) = (mode_flags a)[7 := b]"
  "mode_flags (a\<lparr>fInitSystem := b\<rparr>) = (mode_flags a)[8 := b]"
  "mode_flags (a\<lparr>fGetXADC := b\<rparr>) = (mode_flags a)[9 := b]"
  "mode_flags (a\<lparr>fGetHst := b\<rparr>) = (mode_flags a)[10 := b]"
  by (simp_all add: mode_flags_def eval_nat_numeral)

lemma mode_flags_other [simp]:
  "mode_flags (a\<lparr>fFile := x0\<rparr>) = mode_flags a"
  "mode_flags (a\<lparr>fCount := x1\<rparr>) = mode_flags a"
  "mode_flags (a\<lparr>fByte := x2\<rparr>) = mode_flags a"
  "mode_flags (a\<lparr>fRegValue := x3\<rparr>) = mode_flags a"
  "mode_flags (a\<lparr>fshowversion := x4\<rparr>) = mode_flags a"
  "mode_flags (a\<lparr>charAction := x5\<rparr>) = mode_flags a"
  "mode_flags (a\<lparr>charReg := x6\<rparr>) = mode_flags a"
  "mode_flags (a\<lparr>scRegister := x7\<rparr>) = mode_flags a"
  "mode_flags (a\<lparr>charFile := x8\<rparr>) = mode_flags a"
  "mode_flags (a\<lparr>charCount := x9\<rparr>) = mode_flags a"
  "mode_flags (a\<lparr>scByte := x10\<rparr>) = mode_flags a"
  "mode_flags (a\<lparr>charRegValue := x11\<rparr>) = mode_flags a"
  "mode_flags (a\<lparr>n_dev := x12\<rparr>) = mode_flags a"
  "mode_flags (a\<lparr>reg_off := x13\<rparr>) = mode_flags a"
  "mode_flags (a\<lparr>reg_val := x14\<rparr>) = mode_flags a"
  "mode_flags (a\<lparr>histo_nsamples := x15\<rparr>) = mode_flags a"
  by (simp_all add: mode_flags_def)

lemma parse_device_modes: "parse_device argv s = Inr (v, s') \<Longrightarrow> mode_flags (args s') = mode_flags (args s)"
  by (auto simp: parse_device_def cm_inv split: option.splits if_splits)

lemma parse_histogram_modes: "parse_histogram argv s = Inr (v, s') \<Longrightarrow> mode_flags (args s') = mode_flags (args s)"
  by (auto simp: parse_histogram_def Let_def cm_inv split: option.splits if_splits)

lemma parse_set_inv:
  assumes "parse_set argv s = Inr (v, s')"
  obtains reg where "copy_arg MAXCHRLEN argv 2 = Inr reg" "cfg_name reg = None" "v = 0"
      "s' = s\<lparr>args := (args s)\<lparr>charReg := reg\<rparr>\<rparr>"
  | reg c val where "copy_arg MAXCHRLEN argv 2 = Inr reg" "cfg_name reg = Some c" "copy_arg 16 argv 3 = Inr val" "v = 1"
      "is_voltage reg \<Longrightarrow> atoi val \<le> 2500"
      "s' = s\<lparr>args := (args s)\<lparr>charReg := reg, reg_off := cfg_off c, charRegValue := val,
         fRegValue := is_voltage reg \<or> fRegValue (args s)\<rparr>\<rparr>"
proof -
  from assms obtain reg where reg: "copy_arg MAXCHRLEN argv 2 = Inr reg" by (auto simp: parse_set_def cm_inv)
  show thesis
  proof (cases "cfg_name reg")
    case None
    then show thesis using assms reg that(1) by (simp add: parse_set_def cm_defs)
  next
    case (Some c)
    then obtain val where val: "copy_arg 16 argv 3 = Inr val"
      using assms reg by (simp add: parse_set_def cm_defs split: sum.splits)
    show thesis
    proof (cases "is_voltage reg")
      case True
      then have "atoi val \<le> 2500" "v = 1"
        "s' = s\<lparr>args := (args s)\<lparr>charReg := reg, reg_off := cfg_off c, charRegValue := val, fRegValue := True\<rparr>\<rparr>"
        using assms reg Some val by (simp_all add: parse_set_def cm_defs split: if_splits)
      then show thesis using that(2) [OF reg Some val] True by simp
    next
      case False
      then have "v = 1" "s' = s\<lparr>args := (args s)\<lparr>charReg := reg, reg_off := cfg_off c, charRegValue := val\<rparr>\<rparr>"
        using assms reg Some val by (simp_all add: parse_set_def cm_defs)
      then show thesis using that(2) [OF reg Some val] False by simp
    qed
  qed
qed

lemma parse_set_modes: "parse_set argv s = Inr (v, s') \<Longrightarrow> mode_flags (args s') = mode_flags (args s)"
  by (erule parse_set_inv) simp_all

lemma parse_file_modes: "parse_file argv s = Inr (v, s') \<Longrightarrow> mode_flags (args s') = mode_flags (args s)"
  by (auto simp: parse_file_def cm_inv split: option.splits if_splits)

lemma parse_action_none:
  assumes "parse_action act s = Inr (None, s')"
  shows "fReadReg (args s') \<or> fWriteReg (args s') \<or> fGetHst (args s') \<or> fSetCfgReg (args s') \<or> fToFile (args s')"
  using assms unfolding parse_action_def by (auto simp: cm_inv split: if_split_asm)

lemma parse_action_modes:
  assumes "parse_action act s = Inr (r, s')" and "mode_flags (args s) = replicate 11 False"
  shows "r = Some 0 \<or> length (filter id (mode_flags (args s'))) = 1"
  using assms unfolding parse_action_def
  by (simp add: cm_inv split: if_split_asm; elim exE conjE; simp add: cm_inv eval_nat_numeral)

lemma parse_register_modes:
  assumes "fReadReg (args t) \<or> fWriteReg (args t) \<or> fGetHst (args t) \<or> fSetCfgReg (args t) \<or> fToFile (args t)"
    and "parse_register other argv t = Inr (v, s')"
  shows "mode_flags (args s') = mode_flags (args t)"
  using assms parse_device_modes [of argv t v s'] parse_histogram_modes [of argv t v s'] parse_set_modes [of argv t v s']
    parse_file_modes [of argv t v s']
  by (auto simp: parse_register_def cm_inv split: if_splits)

text \<open>
  The last branch of \<open>parse_param\<close>, which copies a register name and reads the options \<open>-f\<close>, \<open>-c\<close>
  and \<open>-b\<close>, is dead: whatever stands in its place, the function behaves the same.
\<close>

lemma options_branch_dead: "parse_param_with other argv s = parse_param argv s"
proof -
  have stage2: "parse_register other argv t = parse_register parse_other argv t"
    if "parse_action act u = Inr (None, t)" for act u t
    using parse_action_none [OF that] by (auto simp: parse_register_def bind_c_def get_c_def)
  have "(case r of Some v \<Rightarrow> ret_c v | None \<Rightarrow> parse_register other argv) t
      = (case r of Some v \<Rightarrow> ret_c v | None \<Rightarrow> parse_register parse_other argv) t"
    if "parse_action act u = Inr (r, t)" for act u r t
    using that stage2 by (cases r) auto
  then have "bind_c (parse_action act) (\<lambda>r. case r of Some v \<Rightarrow> ret_c v | None \<Rightarrow> parse_register other argv) u
      = bind_c (parse_action act) (\<lambda>r. case r of Some v \<Rightarrow> ret_c v | None \<Rightarrow> parse_register parse_other argv) u" for act u
    unfolding bind_c_def [of "parse_action act"] by (cases "parse_action act u") auto
  then have "bind_c (parse_action act) (\<lambda>r. case r of Some v \<Rightarrow> ret_c v | None \<Rightarrow> parse_register other argv)
      = bind_c (parse_action act) (\<lambda>r. case r of Some v \<Rightarrow> ret_c v | None \<Rightarrow> parse_register parse_other argv)" for act
    by blast
  then show ?thesis unfolding parse_param_def parse_param_with_def by (simp only:)
qed

lemma parse_one_mode:
  assumes "parse_param argv s = Inr (1, s')" and "\<not> fInitSystem (args s)"
  shows "length (filter id (mode_flags (args s'))) = 1"
proof -
  let ?s = "s\<lparr>args := reset_flags (args s)\<rparr>"
  obtain act r t where t: "parse_action act (?s\<lparr>args := (args ?s)\<lparr>charAction := act\<rparr>\<rparr>) = Inr (r, t)"
    and rest: "(case r of Some v \<Rightarrow> ret_c v | None \<Rightarrow> parse_register parse_other argv) t = Inr (1, s')"
    using assms(1) unfolding parse_param_def parse_param_with_def by (auto simp: cm_inv split: if_splits)
  have "mode_flags (args (?s\<lparr>args := (args ?s)\<lparr>charAction := act\<rparr>\<rparr>)) = replicate 11 False"
    using assms(2) by (simp add: mode_flags_def reset_flags_def eval_nat_numeral)
  note one = parse_action_modes [OF t this]
  show ?thesis
  proof (cases r)
    case None
    have "mode_flags (args s') = mode_flags (args t)"
      using parse_register_modes [OF parse_action_none [OF t [unfolded None]]] rest None by simp
    then show ?thesis using one None by simp
  next
    case (Some v)
    then show ?thesis using one rest by (simp add: ret_c_def)
  qed
qed

text \<open>
  C18. When \<open>parse_param\<close> accepts a command line, exactly one of the eleven modes is selected, so
  the dispatch in \<open>main\<close> is unambiguous.
\<close>

theorem parse_param_one_mode:
  assumes "parse_param argv s = Inr (1, s')" and "\<not> fInitSystem (args s)"
  shows "length (filter id (mode_flags (args s'))) = 1"
  using assms by (rule parse_one_mode)


definition sample_args :: args where
  "sample_args = \<lparr>fReadReg = False, fWriteReg = False, fGetCfgStatus = False, fSetCfgReg = False, fToFile = False,
     fToStdout = False, fGetPT = False, fGetGPS = False, fInitSystem = False, fGetXADC = False, fGetHst = False,
     fFile = False, fCount = False, fByte = False, fData = False, fRegValue = False, fshowversion = False,
     charAction = [], charReg = [], scRegister = [], charFile = [], charCount = [], scByte = [], charRegValue = [],
     n_dev = 0, reg_off = 0, reg_val = 0, histo_nsamples = 0\<rparr>"

definition sample_lago :: lago where
  "sample_lago = uart_st.extend sample_uart \<lparr>args = sample_args, interrupted = False, histo_limit = 0,
     histo_position = 0, limit = 0, current = 0, position = 0, g_data = loc0, r1 = 0, r2 = 0, hack = 0,
     fFirstTime = True, fhout = HNull, files = [], charCurrentFile = [], charCurrentMetaData = [], fileTime = 0, fileDate = gmtime 0, falseGPS = False,
     mtd = \<lparr>mtd_seconds = 0, mtd_bl0 = 0, mtd_bl1 = 0, mtd_bl20 = 0, mtd_bl21 = 0, mtd_iBin = 0, mtd_cbl = 0,
       mtd_dp = 0, mtd_cdp = 0, mtd_pulse_cnt = 0, mtd_pulse_pnt = 0\<rparr>,
     trig_cnt = replicate 8 0, gps_lat = 0, gps_lon = 0, gps_alt = 0, i2c = [], time_calls = 0, not_gps = False, os_log = [], sleeps = []\<rparr>"

lemma sample_lago_args [simp]: "args sample_lago = sample_args"
  by (simp add: sample_lago_def uart_st.defs sample_uart_def zio.defs)

theorem parse_param_one_mode_witness:
  "\<exists>s'. parse_param [''lago'', ''-s'', ''hv1'', ''900''] sample_lago = Inr (1, s') \<and> fSetCfgReg (args s')
    \<and> length (filter id (mode_flags (args s'))) = 1"
proof -
  have v: "atoi ''900'' = 900" by code_simp
  obtain s' where s': "parse_param [''lago'', ''-s'', ''hv1'', ''900''] sample_lago = Inr (1, s')" "fSetCfgReg (args s')"
    by (simp add: parse_param_def parse_param_with_def parse_action_def parse_register_def parse_set_def cm_defs
        copy_arg_def arg_at_def copied_def MAXCHRLEN_def reset_flags_def cfg_name_def is_voltage_def v)
  moreover have "\<not> fInitSystem (args sample_lago)" by (simp add: sample_args_def)
  ultimately show ?thesis using parse_param_one_mode by blast
qed

lemma parse_action_set:
  assumes "parse_action act u = Inr (r, t)" "fSetCfgReg (args t)" "\<not> fSetCfgReg (args u)"
  shows "r = None \<and> t = u\<lparr>args := (args u)\<lparr>fSetCfgReg := True\<rparr>\<rparr>"
proof (cases "act = ''-s''")
  case True
  then show ?thesis using assms(1) by (simp add: parse_action_def cm_defs)
next
  case False
  have "fSetCfgReg (args t) = fSetCfgReg (args u)"
    using assms(1) False unfolding parse_action_def
    by (simp add: cm_defs split: if_split_asm) (erule conjE, hypsubst, simp)+
  then show ?thesis using assms by simp
qed

lemma parse_param_inv:
  assumes "parse_param argv s = Inr (v, s')" "2 \<le> length argv"
  obtains act r t where
    "parse_action act (s\<lparr>args := (reset_flags (args s))\<lparr>charAction := act\<rparr>\<rparr>) = Inr (r, t)"
    "(case r of Some v \<Rightarrow> ret_c v | None \<Rightarrow> parse_register parse_other argv) t = Inr (v, s')"
  using assms unfolding parse_param_def parse_param_with_def by (auto simp: cm_inv split: if_splits)

text \<open>
  C17. The voltage guard: an accepted request to set a register names one of the twelve known
  registers, is marked as a voltage exactly when the name is one of the voltage registers, and a
  voltage is at most 2500 mV; a voltage above 2500 mV makes the program exit with status 1.
\<close>

theorem voltage_guard:
  "(parse_param argv s = Inr (1, s') \<and> 2 \<le> length argv \<and> fSetCfgReg (args s') \<longrightarrow>
     (\<exists>c. cfg_name (charReg (args s')) = Some c \<and> reg_off (args s') = cfg_off c)
     \<and> (fRegValue (args s') \<longleftrightarrow> is_voltage (charReg (args s')))
     \<and> (fRegValue (args s') \<longrightarrow> atoi (charRegValue (args s')) \<le> 2500))
   \<and> (cfg_name reg \<noteq> None \<and> is_voltage reg \<and> atoi (take 15 val) > 2500 \<longrightarrow>
     parse_param [prog, ''-s'', reg, val] s = Inl (ExitWith 1))"
proof (intro conjI impI)
  assume a: "parse_param argv s = Inr (1, s') \<and> 2 \<le> length argv \<and> fSetCfgReg (args s')"
  then obtain act r t where t: "parse_action act (s\<lparr>args := (reset_flags (args s))\<lparr>charAction := act\<rparr>\<rparr>) = Inr (r, t)"
    and rest: "(case r of Some v \<Rightarrow> ret_c v | None \<Rightarrow> parse_register parse_other argv) t = Inr (1, s')"
    by (blast elim: parse_param_inv)
  let ?u = "s\<lparr>args := (reset_flags (args s))\<lparr>charAction := act\<rparr>\<rparr>"
  have "mode_flags (args s') = mode_flags (args t)"
    using rest t parse_register_modes [OF parse_action_none [of act ?u t], of parse_other argv 1 s']
    by (cases r) (simp_all add: cm_inv)
  then have "fSetCfgReg (args t)" using a by (simp add: mode_flags_def)
  then have r: "r = None" and tu: "t = ?u\<lparr>args := (args ?u)\<lparr>fSetCfgReg := True\<rparr>\<rparr>"
    using parse_action_set [OF t] by (simp_all add: reset_flags_def)
  have "parse_set argv t = Inr (1, s')" using rest tu by (simp add: r parse_register_def cm_defs reset_flags_def)
  then have "(\<exists>c. cfg_name (charReg (args s')) = Some c \<and> reg_off (args s') = cfg_off c)
     \<and> (fRegValue (args s') \<longleftrightarrow> is_voltage (charReg (args s')))
     \<and> (is_voltage (charReg (args s')) \<longrightarrow> atoi (charRegValue (args s')) \<le> 2500)"
  proof (cases rule: parse_set_inv)
    case (2 reg c val)
    have "\<not> fRegValue (args t)" by (simp add: tu reset_flags_def)
    then show ?thesis using 2 by simp
  qed simp
  then show "\<exists>c. cfg_name (charReg (args s')) = Some c \<and> reg_off (args s') = cfg_off c"
    "fRegValue (args s') = is_voltage (charReg (args s'))"
    "fRegValue (args s') \<Longrightarrow> atoi (charRegValue (args s')) \<le> 2500"
    by simp_all
next
  assume a: "cfg_name reg \<noteq> None \<and> is_voltage reg \<and> atoi (take 15 val) > 2500"
  then have reg: "take 1023 reg = reg" by (auto simp: cfg_name_def split: if_splits)
  from a obtain c where "cfg_name reg = Some c" "is_voltage reg" "atoi (take 15 val) > 2500" by auto
  with reg show "parse_param [prog, ''-s'', reg, val] s = Inl (ExitWith 1)"
    by (simp add: parse_param_def parse_param_with_def parse_action_def parse_register_def parse_set_def cm_defs
        copy_arg_def arg_at_def copied_def MAXCHRLEN_def reset_flags_def)
qed

theorem voltage_guard_witness:
  "parse_param [''lago'', ''-s'', ''ov3'', ''2501''] sample_lago = Inl (ExitWith 1)"
proof -
  have "cfg_name ''ov3'' \<noteq> None \<and> is_voltage ''ov3'' \<and> atoi (take 15 ''2501'') > 2500" by code_simp
  then show ?thesis using voltage_guard [of _ sample_lago _ "''ov3''" "''2501''" "''lago''"] by blast
qed

text \<open>
  The register actions without their operands crash: the NULL that ends \<open>argv\<close> is copied from.
\<close>

lemma missing_operand_crashes:
  assumes "act \<in> {''-r'', ''-w'', ''-s''}"
  shows "parse_param [prog, act] s = Inl NullDeref"
  using assms
  by (auto simp: parse_param_def parse_param_with_def parse_action_def parse_register_def parse_device_def parse_set_def cm_defs
      copy_arg_def arg_at_def copied_def MAXCHRLEN_def reset_flags_def)

end
