(* ===== verification/Lago_Daq.thy ===== *)
theory Lago_Daq
  imports Lago_Args
begin

text \<open>
  The readout of the acquisition program: \<open>new_file\<close> and \<open>read_buffer\<close> of
  \<^verbatim>\<open>projects/lago_v1_5/src/lago.c\<close>.  The FPGA writes 32-bit words into a ring in the contiguous
  memory; every call of \<open>read_buffer\<close> consumes the words between the last one read and the
  position of the writer, turns each into a line of text, and keeps the clock and the hourly files.
\<close>

section \<open>Data files\<close>

definition file_name :: "string \<Rightarrow> bool \<Rightarrow> tm \<Rightarrow> string \<Rightarrow> string" where
  "file_name base nogps d ext = take 1023 (base @ (if nogps then ''_nogps_'' else ''_'')
     @ fmt_0d 4 (tm_year d + 1900) @ ''_'' @ fmt_0d 2 (tm_mon d + 1) @ ''_'' @ fmt_0d 2 (tm_mday d) @ ''_''
     @ fmt_0d 2 (tm_hour d) @ ''h00'' @ ext)"

definition close_out :: "('a lago_scheme, unit) cm" where
  "close_out = mod_c (\<lambda>s. case fhout s of
       HFile k \<Rightarrow> s\<lparr>files := (files s)[k := (files s ! k)\<lparr>f_open := False\<rparr>]\<rparr>
     | _ \<Rightarrow> s)"

definition sync_date :: "('a lago_scheme, unit) cm" where
  "sync_date = mod_c (\<lambda>s. let t = timegm (fileDate s) in s\<lparr>fileTime := t, fileDate := gmtime t\<rparr>)"

definition open_out :: "lenv \<Rightarrow> ('a lago_scheme, unit) cm" where
  "open_out env = (\<lambda>s. if le_fopen env (charCurrentFile s)
     then Inr ((), s\<lparr>fhout := HFile (length (files s)),
       files := files s @ [\<lparr>f_path = charCurrentFile s, f_text = [], f_open = True\<rparr>]\<rparr>)
     else Inr ((), s\<lparr>fhout := HNull\<rparr>))"

definition next_file :: "lenv \<Rightarrow> ('a lago_scheme, unit) cm" where
  "next_file env =
     then_c close_out
     (then_c sync_date
     (then_c (mod_c (\<lambda>s. s\<lparr>charCurrentFile := file_name (charFile (args s)) (falseGPS s) (fileDate s) ''.dat'',
         charCurrentMetaData := file_name (charFile (args s)) (falseGPS s) (fileDate s) ''.mtd''\<rparr>))
     (then_c (open_out env)
     (bind_c (get_c (\<lambda>s. ''Opening file '' @ charCurrentFile s @ '' at '' @ fmt_0d 2 (tm_hour (fileDate s)) @ ''h''
          @ fmt_0d 2 (tm_min (fileDate s)) @ '' for data taking'' @ nl)) eprintf))))"

definition header_text :: "string list" where
  "header_text = [
     ''# v 5'' @ nl,
     ''# #'' @ nl,
     ''# # This is a LAGO raw data file, version 5'' @ nl,
     ''# # It contains the following data:'' @ nl,
     ''# #   <N1> <N2>        : line with values of the 2 ADC for a triggered pulse'' @ nl,
     ''# #   # t <C> <V>      : end of a trigger'' @ nl,
     ''# #                      gives the channel trigger (<C>: 3 bit mask) and 125 MHz clock count (<V>) of the trigger time'' @ nl,
     ''# #   # c <C>          : internal trigger counter'' @ nl,
     ''# #   # x f <V>        : 125 MHz frequency'' @ nl,
     ''# #   # x t <V>        : temperature value'' @ nl,
     ''# #   # x p <V>        : pressure value'' @ nl,
     ''# #   # x r1 <V>       : pulse rate at channel 1'' @ nl,
     ''# #   # x r2 <V>       : pulse rate at channel 2'' @ nl,
     ''# #   # x h <HH:MM:SS> <DD/MM/YYYY> <S> : GPS time (every new second, last number is seconds since EPOCH)'' @ nl,
     ''# #   # x s <T> C <P> hPa <A> m : temperature <T>, pressure <P> and altitude (from pressure) <A>'' @ nl,
     ''# #   # x g <LAT> <LON> <ALT>   : GPS data - latitude, longitude, altitude'' @ nl,
     ''# #   # x v <HV1> <HV2>         : HV voltages for channels 1 and 2'' @ nl,
     ''# #   # x b <B1> <B2> <B3>      : baselines (NOT IMPLEMENTED IN LAGO)'' @ nl,
     ''# # In case of error, an unfinished line will be finished by # E @@@'' @ nl,
     ''# # Followed by a line with # E <N> and the error message in human readable format, where <N> is the error code:'' @ nl,
     ''# #   # E 1 : read timeout of 2 seconds'' @ nl,
     ''# #   # E 2 : too many buffer reading tries'' @ nl,
     ''# #   # E 3 : unknown word from FPGA'' @ nl,
     ''# #'' @ nl,
     ''# # Current registers setting'' @ nl,
     ''# #'' @ nl]"

definition out_cfg_d :: "lenv \<Rightarrow> string \<Rightarrow> cfg_reg \<Rightarrow> ('a lago_scheme, unit) cm" where
  "out_cfg_d env lbl r = bind_c (dev_read (le_z env) Cfg (cfg_off r)) (\<lambda>v. out_c (lbl @ fmt_d (of_u32 v) @ nl))"

definition out_cfg_mV :: "lenv \<Rightarrow> string \<Rightarrow> cfg_reg \<Rightarrow> ('a lago_scheme, unit) cm" where
  "out_cfg_mV env lbl r = bind_c (dev_read (le_z env) Cfg (cfg_off r)) (\<lambda>v. out_c (lbl @ fmt_f 1 (hv_mV v) @ '' mV'' @ nl))"

definition file_header :: "lenv \<Rightarrow> int \<Rightarrow> ('a lago_scheme, unit) cm" where
  "file_header env currt =
     then_c (seq_c (map out_c header_text))
     (then_c (seq_c [out_cfg_d env ''# x c T1 '' CFG_TRLVL_1, out_cfg_d env ''# x c T2 '' CFG_TRLVL_2,
         out_cfg_mV env ''# x c HV1 '' CFG_HV1, out_cfg_mV env ''# x c HV2 '' CFG_HV2,
         out_cfg_d env ''# x c SC1 '' CFG_TR_SCAL_A, out_cfg_d env ''# x c SC2 '' CFG_TR_SCAL_B,
         out_c (''# # This file was started on '' @ le_host env @ nl),
         out_c (''# # Machine local time was '' @ le_ctime env currt)])
     (bind_c (get_c falseGPS) (\<lambda>f.
      then_c (if_c f (out_c (''# # WARNING, there is no GPS, using PC time'' @ nl)))
      (out_c (''# #'' @ nl)))))"

definition new_file :: "lenv \<Rightarrow> ('a lago_scheme, int) cm" where
  "new_file env = bind_c (time_c env) (\<lambda>currt.
     bind_c (get_c (\<lambda>s. fToStdout (args s))) (\<lambda>so.
     then_c (if_c (\<not> so) (next_file env))
     (then_c (file_header env currt) (ret_c 0))))"

section \<open>The words from the FPGA\<close>

text \<open>The two 16-bit samples of a word, and the value printed for one.\<close>

definition ch_lo :: "u32 \<Rightarrow> int" where
  "ch_lo wo = wrap16 (uint wo mod 65536)"

definition ch_hi :: "u32 \<Rightarrow> int" where
  "ch_hi wo = wrap16 (uint wo div 65536)"

definition sample_value :: "int \<Rightarrow> int" where
  "sample_value ch = wrap16 ((ch div 8192) * 16384 + (ch div 8192) * 32768 + ch)"

definition mtd_c :: "(mtd \<Rightarrow> mtd) \<Rightarrow> ('a lago_scheme, unit) cm" where
  [cm_defs]: "mtd_c f = mod_c (\<lambda>s. s\<lparr>mtd := f (mtd s)\<rparr>)"

definition count_sample :: "int \<Rightarrow> int \<Rightarrow> mtd \<Rightarrow> mtd" where
  "count_sample c0 c1 m = (let m = m\<lparr>mtd_iBin := wrap32 (mtd_iBin m + 1)\<rparr> in
     if mtd_iBin m = 1 then m\<lparr>mtd_bl0 := wrap32 (mtd_bl0 m + c0), mtd_bl20 := wrap32 (mtd_bl20 m + c0 * c0),
       mtd_bl1 := wrap32 (mtd_bl1 m + c1), mtd_bl21 := wrap32 (mtd_bl21 m + c1 * c1),
       mtd_cbl := wrap32 (mtd_cbl m + 1)\<rparr> else m)"

definition sample_word :: "u32 \<Rightarrow> ('a lago_scheme, unit) cm" where
  "sample_word wo =
     then_c (out_c (fmt_wd 5 (sample_value (ch_lo wo)) @ '' '' @ fmt_wd 5 (sample_value (ch_hi wo)) @ nl))
     (mtd_c (count_sample (ch_lo wo) (ch_hi wo)))"

definition trigger_word :: "u32 \<Rightarrow> ('a lago_scheme, unit) cm" where
  "trigger_word wo = (let trig = uint (drop_bit 27 wo AND 7) in
     then_c (out_c (''# t '' @ fmt_d trig @ '' '' @ fmt_d (uint (wo AND 0x7FFFFFF)) @ nl))
     (then_c (mod_c (\<lambda>s. s\<lparr>trig_cnt := (trig_cnt s)[nat trig := wrap32 (trig_cnt s ! nat trig + 1)]\<rparr>))
     (mtd_c (\<lambda>m. m\<lparr>mtd_iBin := 0\<rparr>))))"

definition count_pulses :: "int \<Rightarrow> mtd \<Rightarrow> mtd" where
  "count_pulses n m = (let m = m\<lparr>mtd_pulse_pnt := mtd_pulse_cnt m\<rparr>; m = m\<lparr>mtd_pulse_cnt := n\<rparr>;
       m = m\<lparr>mtd_dp := wrap32 (mtd_pulse_cnt m - mtd_pulse_pnt m - 1)\<rparr> in
     if mtd_dp m > 0 \<and> mtd_pulse_pnt m \<noteq> 0 then m\<lparr>mtd_cdp := wrap32 (mtd_cdp m + mtd_dp m)\<rparr> else m)"

definition counter_word :: "u32 \<Rightarrow> ('a lago_scheme, unit) cm" where
  "counter_word wo = (let n = uint (wo AND 0x3FFFFFFF) in
     then_c (mtd_c (count_pulses n)) (out_c (''# c '' @ fmt_d n @ nl)))"

text \<open>
  The second: advance the clock or take the time of the word, rotate the file on a new hour.
  Where C leaves the order of evaluation of arguments open, the registers are read from left to
  right.
\<close>

definition new_hour :: "lenv \<Rightarrow> ('a lago_scheme, unit) cm" where
  "new_hour env = bind_c (get_c (\<lambda>s. fToStdout (args s))) (\<lambda>so. if_c (\<not> so) (then_c (new_file env) (ret_c ())))"

definition date_c :: "(tm \<Rightarrow> tm) \<Rightarrow> ('a lago_scheme, unit) cm" where
  [cm_defs]: "date_c f = mod_c (\<lambda>s. s\<lparr>fileDate := f (fileDate s)\<rparr>)"

definition tick_pc :: "lenv \<Rightarrow> ('a lago_scheme, unit) cm" where
  "tick_pc env = then_c (date_c (\<lambda>d. d\<lparr>tm_sec := tm_sec d + 1\<rparr>))
     (bind_c (get_c fileDate) (\<lambda>d.
        if tm_sec d = 60 \<and> tm_min d = 59 then new_hour env else sync_date))"

definition byte_at :: "nat \<Rightarrow> u32 \<Rightarrow> int" where
  "byte_at k wo = uint (drop_bit k wo AND 0xFF)"

definition tick_gps :: "lenv \<Rightarrow> u32 \<Rightarrow> ('a lago_scheme, unit) cm" where
  "tick_gps env wo = bind_c (get_c fileDate) (\<lambda>d.
     then_c (if_c (uint (to_u32 (tm_hour d)) \<noteq> byte_at 16 wo)
       (then_c (if_c (uint (to_u32 (tm_hour d)) > byte_at 16 wo) (date_c (\<lambda>d. d\<lparr>tm_mday := tm_mday d + 1\<rparr>)))
       (then_c (date_c (\<lambda>d. d\<lparr>tm_hour := byte_at 16 wo\<rparr>)) (new_hour env))))
     (date_c (\<lambda>d. d\<lparr>tm_hour := byte_at 16 wo, tm_min := byte_at 8 wo, tm_sec := byte_at 0 wo\<rparr>)))"

definition HV_DIV :: rat where
  "HV_DIV = f64 (31949 / 10000000)"

definition date_line :: "tm \<Rightarrow> int \<Rightarrow> int \<Rightarrow> string" where
  "date_line d t w = ''# x h   '' @ fmt_0d 2 (tm_hour d) @ '':'' @ fmt_0d 2 (tm_min d) @ '':'' @ fmt_0d 2 (tm_sec d)
     @ '' '' @ fmt_0d 2 (tm_mday d) @ ''/'' @ fmt_0d 2 (tm_mon d + 1) @ ''/'' @ fmt_0d 4 (tm_year d + 1900)
     @ '' '' @ fmt_d t @ '' '' @ fmt_d w @ nl"

definition slow_control :: "lenv \<Rightarrow> ('a lago_scheme, unit) cm" where
  "slow_control env =
     bind_c (get_voltage (le_z env) (xadc_off XADC_AI2)) (\<lambda>v2.
     bind_c (get_voltage (le_z env) (xadc_off XADC_AI3)) (\<lambda>v3.
     then_c (out_c (''# x v '' @ fmt_f 1 (f64 (v2 / HV_DIV)) @ '' '' @ fmt_f 1 (f64 (v3 / HV_DIV)) @ nl))
     (bind_c (get_c hack) (\<lambda>h.
      then_c (mod_c (\<lambda>s. s\<lparr>hack := wrap32 (hack s + 1)\<rparr>))
     (bind_c (get_temp_AD592 (le_z env) (xadc_off XADC_AI0)) (\<lambda>t0.
      bind_c (get_temp_AD592 (le_z env) (xadc_off XADC_AI1)) (\<lambda>t1.
      then_c (out_c (''# p '' @ fmt_u (to_u32 h) @ '' '' @ fmt_f 1 t0 @ '' '' @ fmt_f 1 t1 @ nl))
     (bind_c (get_c hack) (\<lambda>h.
      then_c (if_c (h mod 60 = 0) (printf nl))
     (bind_c (get_c (\<lambda>s. ''rates '' @ fmt_wd 5 (r1 s) @ '' '' @ fmt_wd 5 (r2 s) @ '', PPS '' @ fmt_u (to_u32 (hack s))
          @ ''        '' @ [CHR 0x0D])) printf))))))))))"

definition pps_word :: "lenv \<Rightarrow> u32 \<Rightarrow> ('a lago_scheme, unit) cm" where
  "pps_word env wo = bind_c (get_c falseGPS) (\<lambda>f.
     then_c (if f then tick_pc env else tick_gps env wo)
     (then_c (mtd_c (\<lambda>m. m\<lparr>mtd_seconds := wrap32 (mtd_seconds m + 1)\<rparr>))
     (then_c sync_date
     (bind_c (get_c (\<lambda>s. date_line (fileDate s) (fileTime s) (uint (wo AND 0x03FFFFFF)))) (\<lambda>l.
      then_c (out_c l) (slow_control env))))))"

definition coord_of :: "u32 \<Rightarrow> rat" where
  "coord_of wo = of_int (wrap32 (uint (wo AND 0xFFFFFF) * 256) div 256) / 65536"

definition gps_word :: "u32 \<Rightarrow> ('a lago_scheme, unit) cm" where
  "gps_word wo = (let k = uint (drop_bit 24 wo AND 7) in
     if k = 0 then mod_c (\<lambda>s. s\<lparr>gps_lat := coord_of wo\<rparr>)
     else if k = 1 then mod_c (\<lambda>s. s\<lparr>gps_lon := coord_of wo\<rparr>)
     else if k = 2 then then_c (mod_c (\<lambda>s. s\<lparr>gps_alt := coord_of wo\<rparr>))
       (bind_c (get_c g_data) (\<lambda>g. out_c (''# x g '' @ fmt_f 6 (l_latitude g) @ '' '' @ fmt_f 6 (l_longitude g) @ '' ''
          @ fmt_f 2 (l_altitude g) @ nl)))
     else ret_c ())"

definition unknown_word :: "u32 \<Rightarrow> ('a lago_scheme, unit) cm" where
  "unknown_word wo = then_c (out_c (''# E @@@'' @ nl))
     (out_c (''# E 3 - unknown word from FPGA: '' @ fmt_d (uint (drop_bit 27 wo)) @ '' '' @ fmt_x (drop_bit 27 wo) @ nl))"

definition meta_word :: "lenv \<Rightarrow> bmp180 option \<Rightarrow> u32 \<Rightarrow> ('a lago_scheme, unit) cm" where
  "meta_word env bmp wo = (let k = uint (drop_bit 27 wo) in
     if k = 0x18 then out_c (''# x f '' @ fmt_d (uint (wo AND 0x07FFFFFF)) @ '' '' @ nl)
     else if k = 0x19 then bind_c (i2c_c (bmp180_temperature (le_b env) bmp)) (\<lambda>t.
       out_c (''# x t '' @ fmt_f 1 t @ '' '' @ nl))
     else if k = 0x1A then bind_c (i2c_c (bmp180_pressure (le_b env) bmp)) (\<lambda>p.
       out_c (''# x p '' @ fmt_f 2 (f64 (p / 100)) @ '' '' @ nl))
     else if k = 0x1B then pps_word env wo
     else if k = 0x1C then gps_word wo
     else if k = 0x1D then then_c (out_c (''# r1 '' @ fmt_d (uint (wo AND 0x00FFFFFF)) @ '' '' @ nl))
       (mod_c (\<lambda>s. s\<lparr>r1 := uint (wo AND 0x00FFFFFF)\<rparr>))
     else if k = 0x1E then then_c (out_c (''# r2 '' @ fmt_d (uint (wo AND 0x00FFFFFF)) @ '' '' @ nl))
       (mod_c (\<lambda>s. s\<lparr>r2 := uint (wo AND 0x00FFFFFF)\<rparr>))
     else unknown_word wo)"

definition handle_word :: "lenv \<Rightarrow> bmp180 option \<Rightarrow> u32 \<Rightarrow> ('a lago_scheme, unit) cm" where
  "handle_word env bmp wo = (let k = uint (drop_bit 30 wo) in
     if k = 0 then sample_word wo
     else if k = 1 then trigger_word wo
     else if k = 2 then counter_word wo
     else meta_word env bmp wo)"

section \<open>read\_buffer\<close>

text \<open>The date of a run with a GPS: a fixed one, whose year field is the calendar year.\<close>

definition gps_start_date :: "tm \<Rightarrow> tm" where
  "gps_start_date d = d\<lparr>tm_sec := 55, tm_min := 55, tm_hour := 10, tm_mday := 29, tm_mon := 8, tm_year := 2018\<rparr>"

definition first_call :: "lenv \<Rightarrow> ('a lago_scheme, unit) cm" where
  "first_call env =
     bind_c (dev_read (le_z env) Cfg (cfg_off CFG_RESET_GRAL)) (\<lambda>v.
     bind_c (time_c env) (\<lambda>t.
     then_c (mod_c (\<lambda>s. s\<lparr>fileTime := t, fileDate := gmtime t\<rparr>))
     (then_c (if drop_bit 4 v AND 1 = 1 then mod_c (\<lambda>s. s\<lparr>falseGPS := True\<rparr>)
        else then_c (date_c gps_start_date) sync_date)
     (then_c (new_file env) (mod_c (\<lambda>s. s\<lparr>fFirstTime := False\<rparr>))))))"

text \<open>The bytes to read: the adjusted \<open>current\<close>, and the start and end of the loop.\<close>

definition read_window :: "int \<Rightarrow> int \<Rightarrow> int \<Rightarrow> int \<times> int \<times> int" where
  "read_window bound cur pos = (let cur = (if cur = bound - 4 then - 4 else cur) in
     if cur < pos + 4 then (cur, cur + 4, pos)
     else if cur > pos then (cur, cur + 4, bound)
     else (cur, 0, bound))"

definition cma_word :: "(nat \<Rightarrow> u32) \<Rightarrow> nat \<Rightarrow> ('a lago_scheme, u32) cm" where
  "cma_word ram i = (\<lambda>s. case ptrs s Cma of
       Null \<Rightarrow> Inl NullDeref | MapFailed \<Rightarrow> Inl OutOfBounds
     | Mapped n \<Rightarrow> if i + 4 \<le> n then Inr (ram i, s\<lparr>accs := accs s @ [Rd Cma (word_of_nat i)]\<rparr>) else Inl OutOfBounds)"

definition read_step :: "lenv \<Rightarrow> bmp180 option \<Rightarrow> (nat \<Rightarrow> u32) \<Rightarrow> nat \<Rightarrow> ('a lago_scheme, unit) cm" where
  "read_step env bmp ram i = bind_c (cma_word ram i) (\<lambda>wo.
     then_c (handle_word env bmp wo) (mod_c (\<lambda>s. s\<lparr>current := int i\<rparr>)))"

definition read_buffer :: "lenv \<Rightarrow> (nat \<Rightarrow> u32) \<Rightarrow> int \<Rightarrow> bmp180 option \<Rightarrow> ('a lago_scheme, int) cm" where
  "read_buffer env ram pos bmp =
     bind_c (get_c args) (\<lambda>a.
     then_c (if_c (fToStdout a) (mod_c (\<lambda>s. s\<lparr>fhout := HStdout\<rparr>)))
     (bind_c (get_c fFirstTime) (\<lambda>f.
     then_c (if_c f (first_call env))
     (bind_c (get_c (\<lambda>s. read_window (limit s) (current s) (wrap32 (pos * 8)))) (\<lambda>(cur, readinit, readend).
      then_c (mod_c (\<lambda>s. s\<lparr>current := cur\<rparr>))
      (then_c (if_c (cur \<noteq> wrap32 (pos * 8))
         (for_c (stride 4 (unat (to_u32 readinit)) (unat (to_u32 readend))) (read_step env bmp ram)))
      (ret_c 1)))))))"

end
