(* ===== verification/Daq_Ring.thy ===== *)
theory Daq_Ring
  imports Lago_Daq
begin

text \<open>
  The readout of the ring buffer: the byte offsets that successive calls of \<open>read_buffer\<close> read are
  consecutive positions of the ring, whatever the words are, so no word is lost or seen twice.
  The abstract ring reader of this theory is what \<open>read_window\<close> refines.
\<close>

section \<open>What handling a word leaves alone\<close>

text \<open>The reads of the sample memory, from the log of accesses.\<close>

fun cma_of :: "access \<Rightarrow> u32 list" where
  "cma_of (Rd d off) = (if d = Cma then [off] else [])"
| "cma_of (Wr d off v) = []"

definition cma_reads :: "'a zio_scheme \<Rightarrow> u32 list" where
  "cma_reads s = concat (map cma_of (accs s))"

text \<open>The same for the memory that release 1.0 maps at a fixed address.\<close>

fun mem_of :: "access \<Rightarrow> u32 list" where
  "mem_of (Rd d off) = (if d = Mem then [off] else [])"
| "mem_of (Wr d off v) = []"

definition mem_reads :: "'a zio_scheme \<Rightarrow> u32 list" where
  "mem_reads s = concat (map mem_of (accs s))"

text \<open>How often the position register of the writer has been read.\<close>

definition pos_looks :: "'a zio_scheme \<Rightarrow> nat" where
  "pos_looks s = length (filter (\<lambda>a. a = Rd Sts 0) (accs s))"

text \<open>What the main loop relies on: the configuration registers, its flags and the mappings, and which reads have been made.\<close>

definition main_view :: "'a lago_scheme \<Rightarrow> (u32 \<Rightarrow> u32) \<times> args \<times> bool \<times> int \<times> (dev \<Rightarrow> ptr) \<times> u32 list \<times> nat" where
  "main_view s = (cfg_mem s, args s, interrupted s, position s, ptrs s, mem_reads s, pos_looks s)"

definition ring_view :: "'a lago_scheme \<Rightarrow> int \<times> int \<times> (dev \<Rightarrow> ptr) \<times> u32 list \<times> (u32 \<Rightarrow> u32) \<times> args \<times> bool \<times> int \<times> (dev \<Rightarrow> ptr) \<times> u32 list \<times> nat" where
  "ring_view s = (current s, limit s, ptrs s, cma_reads s, main_view s)"

named_theorems ring_frame "operations that leave the ring view alone"

lemma ring_view_update [simp]:
  "ring_view (s\<lparr>c_out := a\<rparr>) = ring_view s" "ring_view (s\<lparr>c_err := a\<rparr>) = ring_view s"
  "ring_view (s\<lparr>files := b\<rparr>) = ring_view s" "ring_view (s\<lparr>fhout := h\<rparr>) = ring_view s"
  "ring_view (s\<lparr>fileTime := t\<rparr>) = ring_view s" "ring_view (s\<lparr>fileDate := d\<rparr>) = ring_view s"
  "ring_view (s\<lparr>charCurrentFile := a\<rparr>) = ring_view s" "ring_view (s\<lparr>charCurrentMetaData := a\<rparr>) = ring_view s"
  "ring_view (s\<lparr>time_calls := n\<rparr>) = ring_view s" "ring_view (s\<lparr>i2c := lg\<rparr>) = ring_view s"
  "ring_view (s\<lparr>mtd := m\<rparr>) = ring_view s" "ring_view (s\<lparr>trig_cnt := xs\<rparr>) = ring_view s"
  "ring_view (s\<lparr>hack := k\<rparr>) = ring_view s" "ring_view (s\<lparr>r1 := k\<rparr>) = ring_view s"
  "ring_view (s\<lparr>r2 := k\<rparr>) = ring_view s" "ring_view (s\<lparr>gps_lat := q\<rparr>) = ring_view s"
  "ring_view (s\<lparr>gps_lon := q\<rparr>) = ring_view s" "ring_view (s\<lparr>gps_alt := q\<rparr>) = ring_view s"
  "ring_view (s\<lparr>falseGPS := f\<rparr>) = ring_view s" "ring_view (s\<lparr>fFirstTime := f\<rparr>) = ring_view s"
  by (simp_all add: ring_view_def cma_reads_def mem_reads_def main_view_def pos_looks_def)

lemma frame_out_c [ring_frame]: "pres (\<lambda>s. ring_view s = c) (out_c t)"
  by (auto simp: pres_def out_c_def split: handle.splits if_splits)

lemma frame_printf [ring_frame]:
  "pres (\<lambda>s. ring_view s = c) (printf t)" "pres (\<lambda>s. ring_view s = c) (eprintf t)"
  by (auto simp: pres_def printf_Inr)

lemma frame_time [ring_frame]: "pres (\<lambda>s. ring_view s = c) (time_c env)"
  by (auto simp: pres_def lago_c_Inr)

lemma frame_i2c [ring_frame]: "pres (\<lambda>s. ring_view s = c) (i2c_c m)"
  by (auto simp: pres_def lago_c_Inr)

lemma frame_dev_read [ring_frame]: "d \<noteq> Cma \<Longrightarrow> d \<noteq> Mem \<Longrightarrow> d \<noteq> Sts \<Longrightarrow> pres (\<lambda>s. ring_view s = c) (dev_read env d off)"
  by (auto simp: pres_def dev_read_def dev_check_def cm_defs ring_view_def cma_reads_def mem_reads_def main_view_def pos_looks_def split: ptr.splits if_splits)

lemma frame_voltage [ring_frame]:
  "pres (\<lambda>s. ring_view s = c) (get_voltage env off)" "pres (\<lambda>s. ring_view s = c) (get_temp_AD592 env off)"
  unfolding get_voltage_def get_temp_AD592_def Let_def by (intro pres_intro ring_frame; simp)+

lemma frame_simple [ring_frame]:
  "pres (\<lambda>s. ring_view s = c) close_out" "pres (\<lambda>s. ring_view s = c) sync_date"
  "pres (\<lambda>s. ring_view s = c) (open_out env)" "pres (\<lambda>s. ring_view s = c) (mtd_c f)"
  "pres (\<lambda>s. ring_view s = c) (date_c g)"
  by (auto simp: pres_def close_out_def sync_date_def open_out_def cm_defs Let_def split: handle.splits if_splits)

lemma frame_new_file [ring_frame]: "pres (\<lambda>s. ring_view s = c) (new_file env)"
  unfolding new_file_def next_file_def file_header_def out_cfg_d_def out_cfg_mV_def
  by (intro pres_intro ring_frame pres_mod) (auto intro!: pres_intro ring_frame)

lemma frame_ticks [ring_frame]:
  "pres (\<lambda>s. ring_view s = c) (new_hour env)" "pres (\<lambda>s. ring_view s = c) (tick_pc env)"
  "pres (\<lambda>s. ring_view s = c) (tick_gps env wo)" "pres (\<lambda>s. ring_view s = c) (slow_control env)"
proof -
  show h: "pres (\<lambda>s. ring_view s = c) (new_hour env)"
    unfolding new_hour_def by (intro pres_intro ring_frame)
  show "pres (\<lambda>s. ring_view s = c) (tick_pc env)" "pres (\<lambda>s. ring_view s = c) (tick_gps env wo)"
    unfolding tick_pc_def tick_gps_def by (intro pres_intro ring_frame h)+
  show "pres (\<lambda>s. ring_view s = c) (slow_control env)"
    unfolding slow_control_def by (intro pres_intro ring_frame pres_mod) simp
qed

lemma frame_words:
  "pres (\<lambda>s. ring_view s = c) (sample_word wo)" "pres (\<lambda>s. ring_view s = c) (trigger_word wo)"
  "pres (\<lambda>s. ring_view s = c) (counter_word wo)" "pres (\<lambda>s. ring_view s = c) (pps_word env wo)"
  "pres (\<lambda>s. ring_view s = c) (gps_word wo)" "pres (\<lambda>s. ring_view s = c) (unknown_word wo)"
  unfolding sample_word_def trigger_word_def counter_word_def pps_word_def gps_word_def unknown_word_def Let_def
  by (intro pres_intro ring_frame pres_mod; simp)+

lemma frame_handle_word [ring_frame]: "pres (\<lambda>s. ring_view s = c) (handle_word env bmp wo)"
  unfolding handle_word_def meta_word_def Let_def by (intro pres_intro ring_frame frame_words pres_mod) simp_all

lemma frame_first_call [ring_frame]: "pres (\<lambda>s. ring_view s = c) (first_call env)"
  unfolding first_call_def by (intro pres_intro ring_frame pres_mod) simp_all

text \<open>A call of \<open>read_buffer\<close> leaves the registers, the flags and the mappings alone.\<close>

lemma main_frame: "(\<And>c. pres (\<lambda>s. ring_view s = c) m) \<Longrightarrow> pres (\<lambda>s. main_view s = d) m"
  unfolding pres_def ring_view_def by blast

lemma frame_cma_word: "pres (\<lambda>s. main_view s = d) (cma_word ram i)"
  by (auto simp: pres_def cma_word_def main_view_def mem_reads_def pos_looks_def split: ptr.splits if_splits)

lemma main_frame_read_buffer: "pres (\<lambda>s. main_view s = d) (read_buffer env ram pos bmp)"
  unfolding read_buffer_def read_step_def
  by (intro pres_intro frame_cma_word main_frame [OF frame_handle_word] main_frame [OF frame_first_call] pres_mod)
    (simp_all add: main_view_def mem_reads_def pos_looks_def)

section \<open>One pass over a list of offsets\<close>

lemma read_step_view:
  assumes "read_step env bmp ram i s = Inr (u, s')"
  shows "current s' = int i \<and> limit s' = limit s \<and> ptrs s' = ptrs s \<and> cma_reads s' = cma_reads s @ [word_of_nat i]
    \<and> (\<exists>n. ptrs s Cma = Mapped n \<and> i + 4 \<le> n)"
proof -
  obtain wo t u' t' where w: "cma_word ram i s = Inr (wo, t)" and h: "handle_word env bmp wo t = Inr (u', t')"
    and s': "s' = t'\<lparr>current := int i\<rparr>"
    using assms by (auto simp: read_step_def cm_inv)
  have t: "t = s\<lparr>accs := accs s @ [Rd Cma (word_of_nat i)]\<rparr>" "\<exists>n. ptrs s Cma = Mapped n \<and> i + 4 \<le> n"
    using w by (auto simp: cma_word_def split: ptr.splits if_splits)
  have "ring_view t' = ring_view t" using presD [OF frame_handle_word h] by simp
  then show ?thesis using t s' by (auto simp: ring_view_def cma_reads_def mem_reads_def main_view_def pos_looks_def)
qed

lemma read_steps_view:
  assumes "for_c xs (read_step env bmp ram) s = Inr (u, s')"
  shows "current s' = (if xs = [] then current s else int (last xs)) \<and> limit s' = limit s \<and> ptrs s' = ptrs s
    \<and> cma_reads s' = cma_reads s @ map word_of_nat xs \<and> (\<forall>i \<in> set xs. \<exists>n. ptrs s Cma = Mapped n \<and> i + 4 \<le> n)"
  using assms
proof (induction xs arbitrary: s)
  case (Cons x xs)
  then obtain v t where st: "read_step env bmp ram x s = Inr (v, t)" and rest: "for_c xs (read_step env bmp ram) t = Inr (u, s')"
    by (auto split: sum.splits)
  show ?case using read_step_view [OF st] Cons.IH [OF rest] by auto
qed simp

section \<open>The abstract ring reader\<close>

text \<open>
  A ring of \<open>B\<close> bytes with the reader at \<open>h\<close>: shown the writer at \<open>p\<close>, it reads up to \<open>p\<close>, or, when
  the writer has wrapped around, up to the end of the ring.
\<close>

definition ring_end :: "nat \<Rightarrow> nat \<Rightarrow> nat \<Rightarrow> nat" where
  "ring_end B h p = (if h \<le> p then p else B)"

definition ring_ok :: "nat \<Rightarrow> int \<Rightarrow> nat \<Rightarrow> bool" where
  "ring_ok B cur h \<longleftrightarrow> 8 dvd B \<and> int B < 2147483648 \<and> 8 dvd h \<and> h < B \<and> (cur = int h - 4 \<or> (h = 0 \<and> cur = int B - 4))"

lemma read_window_refines:
  assumes "ring_ok B cur h" "8 dvd p" "p \<le> B"
  shows "read_window (int B) cur (int p) = (int h - 4, int h, int (ring_end B h p))" "int h - 4 \<noteq> int p"
proof -
  have "\<not> h \<le> p \<Longrightarrow> int p + 4 \<le> int h - 4"
  proof -
    assume "\<not> h \<le> p"
    moreover obtain a b where "h = 8 * a" "p = 8 * b" using assms by (auto simp: ring_ok_def elim!: dvdE)
    ultimately show ?thesis by simp
  qed
  then show "read_window (int B) cur (int p) = (int h - 4, int h, int (ring_end B h p))"
    using assms by (auto simp: read_window_def ring_end_def ring_ok_def Let_def)
  obtain a b where ab: "h = 8 * a" "p = 8 * b" using assms by (auto simp: ring_ok_def elim!: dvdE)
  show "int h - 4 \<noteq> int p"
  proof
    assume "int h - 4 = int p"
    then have "8 * int a - 4 = 8 * int b" using ab by simp
    then show False by presburger
  qed
qed

lemma window_words:
  assumes "ring_ok B cur h" "p \<le> B"
  shows "unat (to_u32 (int h)) = h" "unat (to_u32 (int (ring_end B h p))) = ring_end B h p"
proof -
  have "int B < 2147483648" "h < B" using assms(1) unfolding ring_ok_def by blast+
  moreover have "ring_end B h p \<le> B" using assms(2) by (simp add: ring_end_def)
  ultimately have "ring_end B h p < 4294967296" "h < 4294967296" by linarith+
  then show "unat (to_u32 (int h)) = h" "unat (to_u32 (int (ring_end B h p))) = ring_end B h p"
    by (simp_all add: to_u32_def unat_of_nat)
qed

lemma ring_end_bounds:
  assumes "ring_ok B cur h" "8 dvd p" "p \<le> B"
  obtains n where "ring_end B h p = h + 4 * n" "h + 4 * n \<le> B" "even n"
proof -
  obtain a b c where "h = 8 * a" "p = 8 * b" "B = 8 * c" using assms by (auto simp: ring_ok_def elim!: dvdE)
  then have "\<exists>k. ring_end B h p = h + 8 * k \<and> h + 8 * k \<le> B"
    using assms by (intro exI [of _ "(if a \<le> b then b else c) - a"]) (auto simp: ring_end_def ring_ok_def)
  then obtain k where "ring_end B h p = h + 4 * (2 * k)" "h + 4 * (2 * k) \<le> B" by auto
  then show thesis using that by simp
qed

lemma stride_last: "0 < n \<Longrightarrow> last (stride 4 h (h + 4 * n)) = h + 4 * n - 4"
  by (simp only: stride_mult zero_less_numeral) (simp add: last_map)

lemma ring_step:
  assumes "ring_ok B cur h" "h + 4 * n \<le> B" "even n" "0 < n"
  shows "ring_ok B (int (last (stride 4 h (h + 4 * n)))) ((h + 4 * n) mod B)"
proof -
  obtain a k where ak: "h = 8 * a" "n = 2 * k" using assms(1,3) by (auto simp: ring_ok_def elim!: dvdE)
  have l: "int (last (stride 4 h (h + 4 * n))) = int (h + 4 * n) - 4"
    using stride_last [OF assms(4), of h] assms(4) by simp
  have d: "8 dvd h + 4 * n" using ak by simp
  show ?thesis
  proof (cases "h + 4 * n = B")
    case True
    then show ?thesis using assms(1) l by (simp add: ring_ok_def)
  next
    case False
    then have "(h + 4 * n) mod B = h + 4 * n" using assms(2) by simp
    then show ?thesis using assms(1,2) l d False by (simp add: ring_ok_def)
  qed
qed

text \<open>The offsets of one window are consecutive positions of the ring.\<close>

lemma window_ring:
  assumes "h + 4 * n \<le> B" "0 < B"
  shows "stride 4 h (h + 4 * n) = map (\<lambda>j. (h + 4 * j) mod B) [0..<n]"
  using assms by (auto simp: stride_mult)

lemma ring_mod: "((h + 4 * m) mod B + 4 * n) mod B = (h + 4 * (m + n)) mod (B :: nat)"
  using mod_add_left_eq [of "h + 4 * m" B "4 * n"] by (simp only: distrib_left add.assoc)

lemma ring_append_word:
  "map (\<lambda>j. w ((h + 4 * j) mod B)) [0..<m] @ map (\<lambda>j. w (((h + 4 * m) mod B + 4 * j) mod B)) [0..<n]
   = map (\<lambda>j. w ((h + 4 * j) mod (B :: nat))) [0..<m + n]"
proof -
  have "[0..<m + n] = [0..<m] @ map (\<lambda>j. m + j) [0..<n]"
    using upt_add_eq_append [of 0 m n] map_add_upt [of m n] by (simp add: add.commute)
  then show ?thesis by (simp add: ring_mod)
qed

section \<open>Successive calls\<close>

text \<open>
  The contract of a reader of a ring of words, and what follows for any sequence of its
  calls: the log of positions grows by consecutive ones.
\<close>

locale ring_reader =
  fixes call :: "'c \<Rightarrow> ('s, 'r) cm" and valid :: "'c \<Rightarrow> 's \<Rightarrow> bool" and reads :: "'s \<Rightarrow> 'w list"
    and here :: "'s \<Rightarrow> nat \<Rightarrow> bool" and ring_size :: "'s \<Rightarrow> nat" and word_at :: "nat \<Rightarrow> 'w"
  assumes call_contiguous: "here s h \<Longrightarrow> valid c s \<Longrightarrow> call c s = Inr (r, s') \<Longrightarrow>
      ring_size s' = ring_size s \<and> (\<exists>n. reads s' = reads s @ map (\<lambda>j. word_at ((h + 4 * j) mod ring_size s)) [0..<n]
        \<and> here s' ((h + 4 * n) mod ring_size s))"
    and here_less: "here s h \<Longrightarrow> h < ring_size s"
    and valid_stable: "call c s = Inr (r, s') \<Longrightarrow> here s h \<Longrightarrow> valid c s \<Longrightarrow> valid d s \<Longrightarrow> valid d s'"
begin

lemma calls_contiguous:
  assumes "here s h" "\<forall>c \<in> set cs. valid c s" "for_c cs (\<lambda>c. then_c (call c) (ret_c ())) s = Inr (u, s')"
  shows "ring_size s' = ring_size s \<and> (\<exists>n. reads s' = reads s @ map (\<lambda>j. word_at ((h + 4 * j) mod ring_size s)) [0..<n]
    \<and> here s' ((h + 4 * n) mod ring_size s))"
  using assms
proof (induction cs arbitrary: s h)
  case Nil
  then show ?case using here_less [of s h] by (intro conjI exI [of _ 0]) auto
next
  case (Cons c cs)
  then obtain r t where c: "call c s = Inr (r, t)" and rest: "for_c cs (\<lambda>c. then_c (call c) (ret_c ())) t = Inr (u, s')"
    by (auto simp: cm_inv split: sum.splits)
  obtain m where m: "ring_size t = ring_size s" "reads t = reads s @ map (\<lambda>j. word_at ((h + 4 * j) mod ring_size s)) [0..<m]"
      "here t ((h + 4 * m) mod ring_size s)"
    using call_contiguous [OF Cons.prems(1) _ c] Cons.prems(2) by auto
  have v: "\<forall>c \<in> set cs. valid c t" using valid_stable [OF c Cons.prems(1)] Cons.prems(2) by auto
  obtain n where n: "ring_size s' = ring_size t" "here s' (((h + 4 * m) mod ring_size s + 4 * n) mod ring_size t)"
      "reads s' = reads t @ map (\<lambda>j. word_at (((h + 4 * m) mod ring_size s + 4 * j) mod ring_size t)) [0..<n]"
    using Cons.IH [OF m(3) v rest] by auto
  have "reads s' = reads s @ map (\<lambda>j. word_at ((h + 4 * j) mod ring_size s)) [0..<m + n]"
    using n m ring_append_word [of word_at h "ring_size s" m n] by simp
  moreover have "((h + 4 * m) mod ring_size s + 4 * n) mod ring_size s = (h + 4 * (m + n)) mod ring_size s"
    by (rule ring_mod)
  ultimately show ?case using n m by auto
qed

end

text \<open>\<open>read_buffer\<close> is such a reader; a call is given the contents of the memory and the writer's position.\<close>

definition rb_call :: "lenv \<Rightarrow> bmp180 option \<Rightarrow> (nat \<Rightarrow> u32) \<times> int \<Rightarrow> ('a lago_scheme, int) cm" where
  "rb_call env bmp c = read_buffer env (fst c) (snd c) bmp"

definition rb_valid :: "(nat \<Rightarrow> u32) \<times> int \<Rightarrow> 'a lago_scheme \<Rightarrow> bool" where
  "rb_valid c s \<longleftrightarrow> 0 \<le> snd c \<and> 8 * snd c \<le> limit s"

definition rb_at :: "'a lago_scheme \<Rightarrow> nat \<Rightarrow> bool" where
  "rb_at s h \<longleftrightarrow> 0 \<le> limit s \<and> ring_ok (nat (limit s)) (current s) h"

lemma read_buffer_raw:
  assumes "read_buffer env ram pos bmp s = Inr (r, s')" "read_window (limit s) (current s) (wrap32 (pos * 8)) = (cur, i, e)" "cur \<noteq> wrap32 (pos * 8)"
  obtains t u where "ring_view t = (cur, limit s, ptrs s, cma_reads s, main_view s)"
    "for_c (stride 4 (unat (to_u32 i)) (unat (to_u32 e))) (read_step env bmp ram) t = Inr (u, s')"
proof -
  obtain v1 v2 s1 s2 where s1: "(if_c (fToStdout (args s)) (mod_c (\<lambda>s. s\<lparr>fhout := HStdout\<rparr>))) s = Inr (v1, s1)"
    and s2: "if_c (fFirstTime s1) (first_call env) s1 = Inr (v2, s2)"
    and run: "(case read_window (limit s2) (current s2) (wrap32 (pos * 8)) of (cur, readinit, readend) \<Rightarrow>
      then_c (mod_c (\<lambda>s. s\<lparr>current := cur\<rparr>))
      (then_c (if_c (cur \<noteq> wrap32 (pos * 8))
         (for_c (stride 4 (unat (to_u32 readinit)) (unat (to_u32 readend))) (read_step env bmp ram)))
      (ret_c 1))) s2 = Inr (r, s')"
    using assms(1) unfolding read_buffer_def by (auto simp: bind_c_Inr then_c_Inr get_c_def)
  have "ring_view s1 = ring_view s" using s1 by (auto simp: cm_inv split: if_splits)
  moreover have "ring_view s2 = ring_view s1"
    using presD [OF pres_if_c [OF frame_first_call] s2, of "ring_view s1"] by simp
  ultimately have v: "ring_view s2 = ring_view s" by simp
  then have cl: "limit s2 = limit s" "current s2 = current s" by (simp_all add: ring_view_def)
  obtain v4 where "for_c (stride 4 (unat (to_u32 i)) (unat (to_u32 e))) (read_step env bmp ram) (s2\<lparr>current := cur\<rparr>) = Inr (v4, s')"
    using run assms(3) unfolding cl assms(2) by (auto simp: cm_inv split: if_splits)
  moreover have "ring_view (s2\<lparr>current := cur\<rparr>) = (cur, limit s, ptrs s, cma_reads s, main_view s)"
    using v by (simp add: ring_view_def cma_reads_def mem_reads_def main_view_def pos_looks_def)
  ultimately show thesis using that by blast
qed

lemma read_buffer_window:
  assumes "rb_at s h" "0 \<le> pos" "8 * pos \<le> limit s" "read_buffer env ram pos bmp s = Inr (r, s')"
  obtains t u where "ring_view t = (int h - 4, limit s, ptrs s, cma_reads s, main_view s)"
    "for_c (stride 4 h (ring_end (nat (limit s)) h (nat (8 * pos)))) (read_step env bmp ram) t = Inr (u, s')"
proof -
  let ?B = "nat (limit s)" and ?p = "nat (8 * pos)"
  have ok: "ring_ok ?B (current s) h" and B: "limit s = int ?B" using assms(1) by (auto simp: rb_at_def)
  have p: "8 dvd ?p" "?p \<le> ?B" "wrap32 (pos * 8) = int ?p"
    using assms(2,3) ok by (auto simp: nat_mult_distrib ring_ok_def in_s32_def)
  note w = read_window_refines [OF ok p(1,2), folded B p(3)]
  show thesis using read_buffer_raw [OF assms(4) w] that unfolding window_words [OF ok p(2)] by blast
qed

lemma read_buffer_contiguous:
  assumes "rb_at s h" "rb_valid c s" "rb_call env bmp c s = Inr (r, s')"
  shows "limit s' = limit s \<and> (\<exists>n. ring_end (nat (limit s)) h (nat (8 * snd c)) = h + 4 * n
    \<and> cma_reads s' = cma_reads s @ map (\<lambda>j. word_of_nat ((h + 4 * j) mod nat (limit s))) [0..<n]
    \<and> rb_at s' ((h + 4 * n) mod nat (limit s)))"
proof -
  let ?B = "nat (limit s)" and ?p = "nat (8 * snd c)"
  have ok: "ring_ok ?B (current s) h" "0 \<le> limit s" using assms(1) by (auto simp: rb_at_def)
  have pos: "0 \<le> snd c" "8 * snd c \<le> limit s" using assms(2) by (auto simp: rb_valid_def)
  have p: "8 dvd ?p" "?p \<le> ?B" using pos by (auto simp: nat_mult_distrib)
  obtain t u where t: "ring_view t = (int h - 4, limit s, ptrs s, cma_reads s, main_view s)"
    and run: "for_c (stride 4 h (ring_end ?B h ?p)) (read_step env bmp (fst c)) t = Inr (u, s')"
    using read_buffer_window [OF assms(1) pos] assms(3) unfolding rb_call_def by blast
  obtain n where n: "ring_end ?B h ?p = h + 4 * n" "h + 4 * n \<le> ?B" "even n"
    using ring_end_bounds [OF ok(1) p] by blast
  note view = read_steps_view [OF run [unfolded n(1)]]
  have lim: "limit s' = limit s" using view t by (simp add: ring_view_def)
  have reads: "cma_reads s' = cma_reads s @ map (\<lambda>j. word_of_nat ((h + 4 * j) mod ?B)) [0..<n]"
    using view t window_ring [OF n(2)] ok by (auto simp: ring_view_def ring_ok_def)
  have "ring_ok ?B (current s') ((h + 4 * n) mod ?B)"
  proof (cases "n = 0")
    case True
    then show ?thesis using view t ok(1) by (auto simp: ring_view_def ring_ok_def)
  next
    case False
    then have "stride 4 h (h + 4 * n) \<noteq> []" by (simp add: stride_mult)
    then show ?thesis using view ring_step [OF ok(1) n(2,3)] False by simp
  qed
  then show ?thesis using lim reads n(1) ok(2) by (auto simp: rb_at_def)
qed

interpretation daq: ring_reader "rb_call env bmp" rb_valid cma_reads rb_at "\<lambda>s. nat (limit s)" word_of_nat for env bmp
proof
  fix s :: "'a lago_scheme" and h c r s'
  assume "rb_at s h" "rb_valid c s" "rb_call env bmp c s = Inr (r, s')"
  from read_buffer_contiguous [OF this]
  show "nat (limit s') = nat (limit s) \<and> (\<exists>n. cma_reads s' = cma_reads s @ map (\<lambda>j. word_of_nat ((h + 4 * j) mod nat (limit s))) [0..<n]
      \<and> rb_at s' ((h + 4 * n) mod nat (limit s)))" by auto
next
  fix s :: "'a lago_scheme" and c r s' h d
  assume "rb_call env bmp c s = Inr (r, s')" "rb_at s h" "rb_valid c s" "rb_valid d s"
  then show "rb_valid d s'" using read_buffer_contiguous [of s h c env bmp r s'] by (simp add: rb_valid_def)
qed (auto simp: rb_at_def ring_ok_def)

section \<open>Properties\<close>

definition run_calls :: "lenv \<Rightarrow> bmp180 option \<Rightarrow> ((nat \<Rightarrow> u32) \<times> int) list \<Rightarrow> ('a lago_scheme, unit) cm" where
  "run_calls env bmp calls = for_c calls (\<lambda>c. then_c (read_buffer env (fst c) (snd c) bmp) (ret_c ()))"

text \<open>
  C7. Contiguous readout: over any sequence of calls of \<open>read_buffer\<close>, with any memory contents, sensor and writer
  positions inside the ring, the offsets read from the sample memory are
  consecutive words of the ring starting at the reader's place: none is skipped and none is read
  twice, across calls and across the wrap-around at \<open>limit\<close>.
\<close>

theorem ring_readout_contiguous:
  assumes "0 \<le> limit s" "ring_ok (nat (limit s)) (current s) h"
    and "\<forall>c \<in> set calls. 0 \<le> snd c \<and> 8 * snd c \<le> limit s" and "run_calls env bmp calls s = Inr (u, s')"
  shows "\<exists>n. cma_reads s' = cma_reads s @ map (\<lambda>j. word_of_nat ((h + 4 * j) mod nat (limit s))) [0..<n]
    \<and> limit s' = limit s \<and> ring_ok (nat (limit s)) (current s') ((h + 4 * n) mod nat (limit s))"
proof -
  have "rb_at s h" "\<forall>c \<in> set calls. rb_valid c s" using assms(1-3) by (auto simp: rb_at_def rb_valid_def)
  from daq.calls_contiguous [OF this, unfolded rb_call_def, OF assms(4) [unfolded run_calls_def]]
  obtain n where n: "cma_reads s' = cma_reads s @ map (\<lambda>j. word_of_nat ((h + 4 * j) mod nat (limit s))) [0..<n]"
    "rb_at s' ((h + 4 * n) mod nat (limit s))" "nat (limit s') = nat (limit s)" by blast
  then have "0 \<le> limit s'" by (simp add: rb_at_def)
  then have "limit s' = limit s" using assms(1) n(3) by (metis int_nat_eq)
  then show ?thesis using n by (auto simp: rb_at_def)
qed

text \<open>A run on a ring of 16 bytes that wraps around.\<close>

definition ring_lago :: lago where
  "ring_lago = sample_lago\<lparr>args := sample_args\<lparr>fToStdout := True\<rparr>, fFirstTime := False, limit := 16, current := - 4,
     ptrs := (\<lambda>_. Mapped 16)\<rparr>"

definition sample_lenv :: lenv where
  "sample_lenv = \<lparr>le_z = sample_env, le_b = sample_benv, le_pow = (\<lambda>_ _. 1), le_time = (\<lambda>n. int n), le_ctime = (\<lambda>_. nl),
     le_host = ''rp'', le_fopen = (\<lambda>_. True), le_thread = 0, le_hst = (\<lambda>_ _. 0),
     le_stack = replicate 256 nul, le_fresh = sample_bmp, le_loc = loc0\<rparr>"

lemma handle_zero:
  "fhout s = HStdout \<Longrightarrow> \<exists>s'. handle_word env bmp 0 s = Inr ((), s') \<and> fhout s' = HStdout
     \<and> fFirstTime s' = fFirstTime s \<and> args s' = args s"
  by (simp add: handle_word_def sample_word_def out_c_def cm_defs Let_def)

lemma zero_steps:
  assumes "\<forall>i \<in> set xs. i + 4 \<le> n" "fhout s = HStdout" "ptrs s Cma = Mapped n"
  shows "\<exists>s'. for_c xs (read_step env bmp (\<lambda>_. 0)) s = Inr ((), s') \<and> fFirstTime s' = fFirstTime s \<and> args s' = args s"
  using assms
proof (induction xs arbitrary: s)
  case (Cons x xs)
  let ?t = "s\<lparr>accs := accs s @ [Rd Cma (word_of_nat x)]\<rparr>"
  obtain t where h: "handle_word env bmp 0 ?t = Inr ((), t)" "fhout t = HStdout" "fFirstTime t = fFirstTime s" "args t = args s"
    using handle_zero [of ?t] Cons.prems(2) by auto
  have "ring_view t = ring_view ?t" using presD [OF frame_handle_word h(1)] by simp
  then have "ptrs t = ptrs s" by (simp add: ring_view_def)
  then show ?case
    using Cons.IH [of "t\<lparr>current := int x\<rparr>"] Cons.prems h
    by (simp add: read_step_def cma_word_def cm_defs)
qed simp

lemma read_buffer_later:
  assumes "\<not> fFirstTime s" "fToStdout (args s)" "rb_at s h" "0 \<le> pos" "8 * pos \<le> limit s"
  shows "read_buffer env ram pos bmp s =
    (case for_c (stride 4 h (ring_end (nat (limit s)) h (nat (8 * pos)))) (read_step env bmp ram)
        (s\<lparr>fhout := HStdout, current := int h - 4\<rparr>) of Inl e \<Rightarrow> Inl e | Inr (_, s') \<Rightarrow> Inr (1, s'))"
proof -
  let ?B = "nat (limit s)" and ?p = "nat (8 * pos)"
  have ok: "ring_ok ?B (current s) h" and B: "limit s = int ?B" using assms(3) by (auto simp: rb_at_def)
  have p: "8 dvd ?p" "?p \<le> ?B" "wrap32 (pos * 8) = int ?p"
    using assms(4,5) ok by (auto simp: nat_mult_distrib ring_ok_def in_s32_def)
  note w = read_window_refines [OF ok p(1,2), folded B]
  note u = window_words [OF ok p(2)]
  show ?thesis using assms(1,2) w by (simp add: read_buffer_def cm_defs p(3) u split: sum.splits)
qed


lemma ring_lago_at: "rb_at ring_lago 0" "\<not> fFirstTime ring_lago" "fToStdout (args ring_lago)" "limit ring_lago = 16"
  by (simp_all add: ring_lago_def rb_at_def ring_ok_def)

lemma ring_lago_reads:
  "\<exists>s' s''. read_buffer sample_lenv (\<lambda>_. 0) 1 None ring_lago = Inr (1, s')
     \<and> read_buffer sample_lenv (\<lambda>_. 0) 1 None s' = Inr (1, s'')"
proof -
  have e: "ring_end 16 0 8 = 8" "ring_end 16 8 8 = 8" by (simp_all add: ring_end_def)
  obtain s' where s': "for_c (stride 4 0 8) (read_step sample_lenv None (\<lambda>_. 0))
      (ring_lago\<lparr>fhout := HStdout, current := int 0 - 4\<rparr>) = Inr ((), s')"
    and keep: "\<not> fFirstTime s'" "fToStdout (args s')"
    using zero_steps [of "stride 4 0 8" 16 "ring_lago\<lparr>fhout := HStdout, current := int 0 - 4\<rparr>" sample_lenv None]
    by (auto simp: ring_lago_def stride.simps)
  then have r: "read_buffer sample_lenv (\<lambda>_. 0) 1 None ring_lago = Inr (1, s')"
    using read_buffer_later [OF ring_lago_at(2,3,1), of 1] by (simp add: ring_lago_at e)
  have v: "rb_valid ((\<lambda>_. 0), 1) ring_lago" "rb_call sample_lenv None (\<lambda>_. 0, 1) ring_lago = Inr (1, s')"
    using r by (simp_all add: rb_call_def rb_valid_def ring_lago_at)
  from read_buffer_contiguous [OF ring_lago_at(1) v]
  obtain n where "limit s' = 16" "8 = 4 * n" "rb_at s' (4 * n mod 16)" by (auto simp: ring_lago_at e)
  then have at: "rb_at s' 8" "limit s' = 16" by (metis mod_less numeral_less_iff semiring_norm)+
  from read_buffer_later [OF keep at(1), of 1 sample_lenv "\<lambda>_. 0" None]
  have "read_buffer sample_lenv (\<lambda>_. 0) 1 None s' = Inr (1, s'\<lparr>fhout := HStdout, current := 4\<rparr>)"
    by (simp add: at(2) e cm_defs)
  with r show ?thesis by blast
qed

theorem ring_readout_contiguous_witness:
  "\<exists>s'. run_calls sample_lenv None [(\<lambda>_. 0, 1)] ring_lago = Inr ((), s')
    \<and> (\<exists>n. cma_reads s' = cma_reads ring_lago @ map (\<lambda>j. word_of_nat ((0 + 4 * j) mod 16)) [0..<n])"
proof -
  obtain s' where "read_buffer sample_lenv (\<lambda>_. 0) 1 None ring_lago = Inr (1, s')" using ring_lago_reads by blast
  then have r: "run_calls sample_lenv None [(\<lambda>_. 0, 1)] ring_lago = Inr ((), s')" by (simp add: run_calls_def cm_defs)
  have ok: "0 \<le> limit ring_lago" "ring_ok (nat (limit ring_lago)) (current ring_lago) 0"
    "\<forall>c \<in> set [(\<lambda>_ :: nat. 0 :: u32, 1 :: int)]. 0 \<le> snd c \<and> 8 * snd c \<le> limit ring_lago"
    using ring_lago_at by (simp_all add: rb_at_def)
  have e: "nat (limit ring_lago) = 16" by (simp add: ring_lago_at)
  show ?thesis using r ring_readout_contiguous [OF ok r] unfolding e by blast
qed

text \<open>
  C34. Progress: a call that returns has read every word up to the writer's position, or, when the
  writer has wrapped around, every word up to the end of the ring; after two calls that see the same position the
  reader has caught up with the writer.
\<close>

theorem ring_catches_up:
  assumes "0 \<le> limit s" "ring_ok (nat (limit s)) (current s) h" "0 \<le> pos" "8 * pos < limit s"
    and "read_buffer env ram pos bmp s = Inr (r, s')" "read_buffer env ram' pos bmp s' = Inr (r', s'')"
  shows "(\<exists>n. h + 4 * n = (if int h \<le> 8 * pos then nat (8 * pos) else nat (limit s))
      \<and> cma_reads s' = cma_reads s @ map (\<lambda>j. word_of_nat (h + 4 * j)) [0..<n])
    \<and> (current s'' + 4) mod limit s = 8 * pos"
proof -
  let ?B = "nat (limit s)" and ?p = "nat (8 * pos)"
  have a: "rb_at s h" "rb_valid (ram, pos) s" using assms(1-4) by (auto simp: rb_at_def rb_valid_def)
  obtain n where lim: "limit s' = limit s" and n: "ring_end ?B h ?p = h + 4 * n"
      "cma_reads s' = cma_reads s @ map (\<lambda>j. word_of_nat ((h + 4 * j) mod ?B)) [0..<n]" "rb_at s' ((h + 4 * n) mod ?B)"
    using read_buffer_contiguous [OF a, of env bmp r s'] assms(5) unfolding rb_call_def by auto
  have hB: "h < ?B" "?p < ?B" using assms(2,4) by (auto simp: ring_ok_def)
  have le: "h + 4 * n \<le> ?B" using n(1) hB by (auto simp: ring_end_def split: if_splits)
  have "map (\<lambda>j. word_of_nat ((h + 4 * j) mod ?B)) [0..<n] = (map (\<lambda>j. word_of_nat (h + 4 * j)) [0..<n] :: u32 list)"
    using le by auto
  moreover have "h + 4 * n = (if int h \<le> 8 * pos then ?p else ?B)"
    using n(1) assms(3) by (auto simp: ring_end_def le_nat_iff split: if_splits)
  moreover have "(current s'' + 4) mod limit s = 8 * pos"
  proof -
    let ?h = "(h + 4 * n) mod ?B"
    have "?h \<le> ?p" using n(1) hB by (auto simp: ring_end_def split: if_splits)
    obtain m where m: "ring_end ?B ?h ?p = ?h + 4 * m" "rb_at s'' ((?h + 4 * m) mod ?B)" "limit s'' = limit s"
      using read_buffer_contiguous [OF n(3), of "(ram', pos)" env bmp r' s''] assms(3,4,6) lim
      by (auto simp: rb_call_def rb_valid_def)
    then have "rb_at s'' ?p" using \<open>?h \<le> ?p\<close> hB by (simp add: ring_end_def)
    then show ?thesis using m(3) assms(1,3,4) by (auto simp: rb_at_def ring_ok_def)
  qed
  ultimately show ?thesis using n(2) by auto
qed


theorem ring_catches_up_witness:
  "\<exists>s' s''. read_buffer sample_lenv (\<lambda>_. 0) 1 None ring_lago = Inr (1, s')
     \<and> read_buffer sample_lenv (\<lambda>_. 0) 1 None s' = Inr (1, s'') \<and> (current s'' + 4) mod 16 = 8"
proof -
  obtain s' s'' where r: "read_buffer sample_lenv (\<lambda>_. 0) 1 None ring_lago = Inr (1, s')"
    "read_buffer sample_lenv (\<lambda>_. 0) 1 None s' = Inr (1, s'')" using ring_lago_reads by blast
  have ok: "0 \<le> limit ring_lago" "ring_ok (nat (limit ring_lago)) (current ring_lago) 0" "0 \<le> (1 :: int)"
    "8 * 1 < limit ring_lago"
    using ring_lago_at by (simp_all add: rb_at_def)
  show ?thesis using r ring_catches_up [OF ok r] by (auto simp: ring_lago_at)
qed

end
