(* ===== verification/Lago_Main.thy ===== *)
theory Lago_Main
  imports Daq_Ring
begin

text \<open>
  The main program of \<^verbatim>\<open>projects/lago_v1_5/src/lago.c\<close>: waiting for the interrupt, the two interrupt threads,
  and \<open>main\<close> with its modes.  The thread \<open>main\<close> creates on the first access shares the interrupt
  device and the global \<open>position\<close> with the acquisition loop; a run of the loop is described by the
  sequence in which the passes of \<open>main\<close>, the waits of the thread and the signal happen.
\<close>

section \<open>Interrupts\<close>

definition void_c :: "('s, 'a) cm \<Rightarrow> ('s, unit) cm" where
  [cm_defs]: "void_c m = then_c m (ret_c ())"

definition close_c :: "int \<Rightarrow> ('a lago_scheme, unit) cm" where
  [cm_defs]: "close_c fd = mod_c (\<lambda>s. s\<lparr>os_log := os_log s @ [CloseFd fd]\<rparr>)"

definition munmap_c :: "dev \<Rightarrow> nat \<Rightarrow> ('a lago_scheme, unit) cm" where
  [cm_defs]: "munmap_c d n = mod_c (\<lambda>s. s\<lparr>os_log := os_log s @ [Munmap d n]\<rparr>)"

definition signal_handler :: "('a lago_scheme, unit) cm" where
  "signal_handler = mod_c (\<lambda>s. s\<lparr>interrupted := True\<rparr>)"

text \<open>\<open>perror(t)\<close>; what the system says after the text of the program is left out.\<close>

definition irq_failure :: "string \<Rightarrow> int \<Rightarrow> ('a lago_scheme, 'b) cm" where
  "irq_failure t fd = then_c (eprintf t) (then_c (close_c fd) (stop_c (ExitWith 1)))"

definition ack_interrupt :: "lenv \<Rightarrow> dev \<Rightarrow> ('a lago_scheme, unit) cm" where
  "ack_interrupt env d = bind_c (dev_read (le_z env) d (intc_off INTC_IPR)) (\<lambda>value.
     if_c (value AND 1 \<noteq> 0)
       (then_c (dev_write d (intc_off INTC_IAR) 1)
       (bind_c (dev_read (le_z env) Sts (sts_off STS_WRITER)) (\<lambda>w. mod_c (\<lambda>s. s\<lparr>position := of_u32 w\<rparr>)))))"

definition wait_for_interrupt :: "lenv \<Rightarrow> int \<Rightarrow> dev \<Rightarrow> irq_ev \<Rightarrow> ('a lago_scheme, int) cm" where
  "wait_for_interrupt env fd_int d ev =
     (if irq_wr ev \<noteq> 4 then irq_failure ''write'' fd_int
      else if irq_poll ev \<ge> 1 then
        (if irq_rd ev = 4 then then_c (ack_interrupt env d) (ret_c (irq_poll ev))
         else irq_failure ''poll()'' fd_int)
      else ret_c (irq_poll ev))"

definition wait_intc :: "lenv \<Rightarrow> irq_ev \<Rightarrow> ('a lago_scheme, int) cm" where
  "wait_intc env ev = bind_c (get_c (\<lambda>s. fds s Intc)) (\<lambda>fd. wait_for_interrupt env fd Intc ev)"

section \<open>The interrupt threads\<close>

text \<open>The registers a position fix goes to; coordinates are in units of 1/65536.\<close>

definition isr_pass :: "lenv \<Rightarrow> ('a lago_scheme, unit) cm" where
  "isr_pass env =
     bind_c (get_c g_data) (\<lambda>g0.
     bind_c (gps_location (le_stack env) g0) (\<lambda>g.
     then_c (mod_c (\<lambda>s. s\<lparr>g_data := g\<rparr>))
     (bind_c (lift_c (float_to_s32 (l_times g))) (\<lambda>g_tim.
      bind_c (lift_c (float_to_s32 (l_date g))) (\<lambda>g_dat.
      bind_c (lift_c (float_to_s32 (f64 (l_latitude g * 65536)))) (\<lambda>g_lat.
      bind_c (lift_c (float_to_s32 (f64 (l_longitude g * 65536)))) (\<lambda>g_lon.
      bind_c (lift_c (float_to_s32 (f64 (l_altitude g * 65536)))) (\<lambda>g_alt.
      bind_c (lift_c (float_to_s32 (l_satellites g))) (\<lambda>g_sat.
      seq_c [dev_write Cfg (cfg_off CFG_TIME) (to_u32 g_tim),
        dev_write Cfg (cfg_off CFG_DATE) (to_u32 g_dat),
        dev_write Cfg (cfg_off CFG_LATITUDE) (to_u32 g_lat),
        dev_write Cfg (cfg_off CFG_LONGITUDE) (to_u32 g_lon),
        dev_write Cfg (cfg_off CFG_ALTITUDE) (to_u32 g_alt),
        dev_write Cfg (cfg_off CFG_SATELLITE) (to_u32 g_sat)]))))))))) "

text \<open>The endless loops of the threads, over the waits that happen.\<close>

definition thread_isr :: "lenv \<Rightarrow> irq_ev list \<Rightarrow> ('a lago_scheme, unit) cm" where
  "thread_isr env evs = then_c (gps_init (le_z env))
     (for_c evs (\<lambda>ev. bind_c (wait_intc env ev) (\<lambda>r. if_c (r \<noteq> 0) (isr_pass env))))"

definition thread_isr_not_gps :: "lenv \<Rightarrow> irq_ev list \<Rightarrow> ('a lago_scheme, unit) cm" where
  "thread_isr_not_gps env evs = for_c evs (\<lambda>ev. void_c (wait_intc env ev))"

section \<open>Set-up\<close>

definition sensor_setup :: "lenv \<Rightarrow> ('a lago_scheme, bmp180 option) cm" where
  "sensor_setup env = bind_c (i2c_c (bmp180_init (le_b env) (le_fresh env) 0x77 ''/dev/i2c-0'')) (\<lambda>bmp.
     bind_c (lift_c (bmp180_dump_eprom bmp)) (\<lambda>eprom. lift_c (bmp180_set_oss bmp 1)))"

definition devices_init :: "lenv \<Rightarrow> ('a lago_scheme, unit) cm" where
  "devices_init env = seq_c [void_c (intc_init (le_z env)), void_c (hst0_init (le_z env)), void_c (hst1_init (le_z env)),
     void_c (cfg_init (le_z env)), void_c (sts_init (le_z env)), void_c (xadc_init (le_z env)), void_c (cma_init (le_z env))]"

definition writer_address :: "lenv \<Rightarrow> ('a lago_scheme, unit) cm" where
  "writer_address env = then_c (rd_reg_value (le_z env) 1 (cfg_off CFG_WR_ADDR) False)
     (bind_c (get_c dev_size) (\<lambda>sz. void_c (wr_reg_value 1 (cfg_off CFG_WR_ADDR) (of_u32 sz) False)))"

definition first_access :: "lenv \<Rightarrow> ('a lago_scheme, unit) cm" where
  "first_access env = bind_c (dev_read (le_z env) Cfg (cfg_off CFG_RESET_GRAL)) (\<lambda>v.
     if_c (v = 0) (seq_c [
       printf (''Initializing registers...'' @ nl),
       void_c (init_system (le_z env)),
       if le_thread env \<noteq> 0 then then_c (eprintf (''pthread_create :: error '' @ nl)) (stop_c (ExitWith 1))
         else mod_c (\<lambda>s. s\<lparr>not_gps := True\<rparr>),
       void_c enable_interrupt]))"

section \<open>Modes\<close>

definition print_weather :: "lenv \<Rightarrow> bmp180 option \<Rightarrow> ('a lago_scheme, unit) cm" where
  "print_weather env bmp = (if bmp \<noteq> None then
       bind_c (i2c_c (bmp180_temperature (le_b env) bmp)) (\<lambda>t.
       bind_c (i2c_c (bmp180_pressure (le_b env) bmp)) (\<lambda>p.
       bind_c (i2c_c (bmp180_altitude (le_pow env) (le_b env) bmp)) (\<lambda>alt.
       then_c (printf (''Temperature = '' @ fmt_f 1 t @ '', Pressure = '' @ fmt_f 2 (f64 (p / 100))
         @ '', Altitude= '' @ fmt_f 1 alt @ nl))
       (i2c_c (bmp180_close bmp)))))
     else printf (''Error! NO BMP device is present!'' @ nl))"

definition print_gps :: "lenv \<Rightarrow> ('a lago_scheme, unit) cm" where
  "print_gps env = bind_c (dev_read (le_z env) Cfg (cfg_off CFG_RESET_GRAL)) (\<lambda>v.
     if drop_bit 4 v AND 1 = 1 then printf (''No GPS device is present or enabled!!!'' @ nl)
     else void_c (gps_print_data (le_z env) (le_stack env) (le_loc env)))"

definition print_xadc :: "lenv \<Rightarrow> ('a lago_scheme, unit) cm" where
  "print_xadc env = (let volt = (\<lambda>lbl a. bind_c (get_voltage (le_z env) (xadc_off a)) (\<lambda>v. printf (lbl @ fmt_f 3 v @ nl)));
       hv = (\<lambda>lbl a. bind_c (get_voltage (le_z env) (xadc_off a)) (\<lambda>v.
         printf (lbl @ fmt_f 3 v @ '' V ('' @ fmt_f 1 (f64 (v / HV_DIV)) @ '' V)'' @ nl)));
       temp = (\<lambda>lbl a. bind_c (get_temp_AD592 (le_z env) (xadc_off a)) (\<lambda>t.
         printf (lbl @ fmt_f 1 t @ '' '' @ [CHR 0xC2, CHR 0xBA] @ ''C'' @ nl))) in
     seq_c [printf (''Reading XADC channels...'' @ nl),
       volt ''Voltage CH1: '' XADC_AI0, volt ''Voltage CH2: '' XADC_AI1,
       hv ''Voltage CH3: '' XADC_AI2, hv ''Voltage CH4: '' XADC_AI3,
       temp ''Base temperature CH1: '' XADC_AI0, temp ''Base temperature CH2: '' XADC_AI1])"

text \<open>\<open>reg_val = rd_reg_value(1, r, 0); wr_reg_value(1, r, f(reg_val), 0);\<close>\<close>

definition reg_rmw :: "lenv \<Rightarrow> cfg_reg \<Rightarrow> (int \<Rightarrow> int) \<Rightarrow> ('a lago_scheme, unit) cm" where
  "reg_rmw env r f = bind_c (rd_reg_value (le_z env) 1 (cfg_off r) False) (\<lambda>v.
     then_c (args_c (\<lambda>a. a\<lparr>reg_val := v\<rparr>)) (void_c (wr_reg_value 1 (cfg_off r) (f v) False)))"

text \<open>The histogram memories are copied whole, 16384 words each, and printed side by side.\<close>

definition HIST_WORDS :: nat where "HIST_WORDS = 16384"

definition bram_ok :: "'a lago_scheme \<Rightarrow> dev \<Rightarrow> bool" where
  "bram_ok s d = mapped s d (4 * HIST_WORDS)"

definition copy_bram :: "dev \<Rightarrow> ('a lago_scheme, unit) cm" where
  "copy_bram d = (\<lambda>s. case ptrs s d of Null \<Rightarrow> Inl NullDeref
     | _ \<Rightarrow> if bram_ok s d then Inr ((), s) else Inl OutOfBounds)"

definition print_histograms :: "lenv \<Rightarrow> ('a lago_scheme, unit) cm" where
  "print_histograms env = then_c (copy_bram Hst0) (then_c (copy_bram Hst1)
     (for_c [0..<HIST_WORDS] (\<lambda>i. printf (fmt_d (of_u32 (le_hst env 0 i)) @ '' '' @ fmt_d (of_u32 (le_hst env 1 i)) @ nl))))"

text \<open>The polling loop; the number bounds the polls, and \<open>Blocked\<close> means that it was not enough.\<close>

fun hist_loop :: "nat \<Rightarrow> lenv \<Rightarrow> ('a lago_scheme, unit) cm" where
  "hist_loop fuel env s = (if \<not> histo_position s < histo_limit s then Inr ((), s)
     else case fuel of 0 \<Rightarrow> Inl Blocked
     | Suc n \<Rightarrow> bind_c (rd_reg_value (le_z env) 2 (sts_off STS_HST0) False) (\<lambda>p.
         then_c (mod_c (\<lambda>s. s\<lparr>histo_position := p\<rparr>))
         (bind_c (get_c histo_limit) (\<lambda>lm.
          then_c (if p \<ge> lm then print_histograms env else usleep_c 100) (hist_loop n env)))) s)"

declare hist_loop.simps [simp del]

definition run_histogram :: "nat \<Rightarrow> lenv \<Rightarrow> ('a lago_scheme, unit) cm" where
  "run_histogram fuel env =
     then_c (mod_c (\<lambda>s. s\<lparr>histo_limit := histo_nsamples (args s) - 2\<rparr>))
     (then_c (reg_rmw env CFG_RESET_GRAL (\<lambda>v. v AND NOT 0x20))
     (then_c (reg_rmw env CFG_RESET_GRAL (\<lambda>v. v AND NOT 0x40))
     (then_c (usleep_c 100)
     (bind_c (get_c histo_limit) (\<lambda>lm.
      then_c (reg_rmw env CFG_HST0 (\<lambda>v. v OR (lm + 1)))
     (then_c (reg_rmw env CFG_HST1 (\<lambda>v. v OR (lm + 1)))
     (then_c (reg_rmw env CFG_RESET_GRAL (\<lambda>v. v OR 0x20))
     (then_c (reg_rmw env CFG_RESET_GRAL (\<lambda>v. v OR 0x40))
     (then_c (hist_loop fuel env)
     (then_c (reg_rmw env CFG_RESET_GRAL (\<lambda>v. v AND NOT 0x20))
     (reg_rmw env CFG_RESET_GRAL (\<lambda>v. v AND NOT 0x40))))))))))))"

section \<open>Acquisition\<close>

datatype daq_ev = Sigint | ThreadWait irq_ev | Pass irq_ev "nat \<Rightarrow> u32"

fun daq_loop :: "lenv \<Rightarrow> bmp180 option \<Rightarrow> daq_ev list \<Rightarrow> ('a lago_scheme, unit) cm" where
  "daq_loop env bmp [] = (\<lambda>s. if interrupted s then Inr ((), s) else Inl Blocked)"
| "daq_loop env bmp (Sigint # es) = then_c signal_handler (daq_loop env bmp es)"
| "daq_loop env bmp (ThreadWait ev # es) = bind_c (get_c not_gps) (\<lambda>t.
     then_c (if_c t (thread_isr_not_gps env [ev])) (daq_loop env bmp es))"
| "daq_loop env bmp (Pass ev ram # es) = bind_c (get_c interrupted) (\<lambda>i.
     if i then ret_c ()
     else then_c (wait_intc env ev) (bind_c (get_c position) (\<lambda>pos.
       then_c (read_buffer env ram pos bmp) (daq_loop env bmp es))))"

text \<open>\<open>reg_val = dev_read(cfg_ptr, CFG_RESET_GRAL_OFFSET); dev_write(cfg_ptr, CFG_RESET_GRAL_OFFSET, f(reg_val));\<close>\<close>

definition gral_rmw :: "lenv \<Rightarrow> (u32 \<Rightarrow> u32) \<Rightarrow> ('a lago_scheme, unit) cm" where
  "gral_rmw env f = bind_c (dev_read (le_z env) Cfg (cfg_off CFG_RESET_GRAL)) (\<lambda>v.
     then_c (args_c (\<lambda>a. a\<lparr>reg_val := of_u32 v\<rparr>)) (dev_write Cfg (cfg_off CFG_RESET_GRAL) (f v)))"

definition run_daq :: "lenv \<Rightarrow> bmp180 option \<Rightarrow> daq_ev list \<Rightarrow> ('a lago_scheme, unit) cm" where
  "run_daq env bmp evs =
     then_c (mod_c (\<lambda>s. s\<lparr>limit := 1024 * 1024 * 8, current := - 4\<rparr>))
     (then_c (seq_c [gral_rmw env (\<lambda>v. v OR 2), gral_rmw env (\<lambda>v. v OR 1), gral_rmw env (\<lambda>v. v OR 4)])
     (then_c (daq_loop env bmp evs)
     (seq_c [gral_rmw env (\<lambda>v. v AND NOT 1), gral_rmw env (\<lambda>v. v AND NOT 4), gral_rmw env (\<lambda>v. v AND NOT 2)])))"

section \<open>main\<close>

definition set_register :: "('a lago_scheme, unit) cm" where
  "set_register = bind_c (get_c args) (\<lambda>a.
     if fRegValue a then set_voltage (reg_off a) (atoi (charRegValue a))
     else void_c (wr_reg_value 1 (reg_off a) (atoi (charRegValue a)) True))"

definition run_mode :: "nat \<Rightarrow> lenv \<Rightarrow> bmp180 option \<Rightarrow> daq_ev list \<Rightarrow> ('a lago_scheme, unit) cm" where
  "run_mode fuel env bmp evs = bind_c (get_c args) (\<lambda>a.
     if fReadReg a then void_c (rd_reg_value (le_z env) (n_dev a) (reg_off a) True)
     else if fWriteReg a then void_c (wr_reg_value (n_dev a) (reg_off a) (reg_val a) True)
     else if fSetCfgReg a then set_register
     else if fGetCfgStatus a then void_c (rd_cfg_status (le_z env))
     else if fGetPT a then print_weather env bmp
     else if fGetGPS a then print_gps env
     else if fInitSystem a then then_c (printf (''Initializing registers...'' @ nl)) (void_c (init_system (le_z env)))
     else if fGetXADC a then print_xadc env
     else if fGetHst a then run_histogram fuel env
     else if_c (fToFile a \<or> fToStdout a) (run_daq env bmp evs))"

definition release_devices :: "lenv \<Rightarrow> ('a lago_scheme, unit) cm" where
  "release_devices env = (let pg = pagesize (le_z env) in
     then_c (for_c [Intc, Cfg, Sts, Xadc, Hst0, Hst1] (\<lambda>d. munmap_c d pg))
     (for_c [Intc, Cfg, Sts, Xadc, Hst0, Hst1] (\<lambda>d. bind_c (get_c (\<lambda>s. fds s d)) close_c)))"

definition main :: "nat \<Rightarrow> lenv \<Rightarrow> daq_ev list \<Rightarrow> string list \<Rightarrow> ('a lago_scheme, int) cm" where
  "main fuel env evs argv =
     bind_c (sensor_setup env) (\<lambda>bmp.
     bind_c (parse_param argv) (\<lambda>ok.
     if ok = 0 then bind_c (lift_c (arg_at argv 0)) (\<lambda>p. case p of None \<Rightarrow> stop_c NullDeref
       | Some progname \<Rightarrow> then_c (show_usage progname) (ret_c 1))
     else then_c (seq_c [devices_init env, writer_address env, first_access env,
         run_mode fuel env bmp evs, release_devices env]) (ret_c 0)))"

end
