(* ===== verification/Daq_Total.thy ===== *)
theory Daq_Total
  imports Lago_Main
begin

text \<open>
  When the readout returns: with the devices mapped, a sensor that answers and a file system that opens the
  hourly files, every word from the FPGA is handled and every call of \<open>read_buffer\<close> returns as long as
  the part of the ring it reads is mapped; past the mapping no call returns.
\<close>

section \<open>The state in which words can be handled\<close>

fun handle_ok :: "handle \<Rightarrow> data_file list \<Rightarrow> bool" where
  "handle_ok HNull fs = False"
| "handle_ok HStdout fs = True"
| "handle_ok (HFile k) fs = (k < length fs \<and> f_open (fs ! k))"

definition out_ok :: "'a lago_scheme \<Rightarrow> bool" where
  "out_ok s = handle_ok (fhout s) (files s)"

definition devs_ok :: "'a zio_scheme \<Rightarrow> bool" where
  "devs_ok s \<longleftrightarrow> mapped s Cfg 92 \<and> mapped s Xadc 1024"

text \<open>Before the first file is open only the standard output can be written to.\<close>

definition can_open :: "'a lago_scheme \<Rightarrow> bool" where
  "can_open s \<longleftrightarrow> devs_ok s \<and> (fToStdout (args s) \<longrightarrow> out_ok s)"

definition ready :: "'a lago_scheme \<Rightarrow> bool" where
  "ready s \<longleftrightarrow> devs_ok s \<and> out_ok s"

definition env_ok :: "lenv \<Rightarrow> bmp180 option \<Rightarrow> bool" where
  "env_ok env bmp \<longleftrightarrow> (\<forall>path. le_fopen env path)
     \<and> (\<forall>lg. \<exists>v lg'. bmp180_temperature (le_b env) bmp lg = Inr (v, lg'))
     \<and> (\<forall>lg. \<exists>v lg'. bmp180_pressure (le_b env) bmp lg = Inr (v, lg'))"

lemma ready_can_open: "ready s \<Longrightarrow> can_open s"
  by (simp add: ready_def can_open_def)

lemma ready_update [simp]:
  "ready (s\<lparr>c_out := a\<rparr>) = ready s" "ready (s\<lparr>c_err := a\<rparr>) = ready s"
  "ready (s\<lparr>fileTime := t\<rparr>) = ready s" "ready (s\<lparr>fileDate := d\<rparr>) = ready s"
  "ready (s\<lparr>time_calls := n\<rparr>) = ready s" "ready (s\<lparr>i2c := lg\<rparr>) = ready s"
  "ready (s\<lparr>mtd := m\<rparr>) = ready s" "ready (s\<lparr>trig_cnt := xs\<rparr>) = ready s"
  "ready (s\<lparr>hack := k\<rparr>) = ready s" "ready (s\<lparr>r1 := k\<rparr>) = ready s" "ready (s\<lparr>r2 := k\<rparr>) = ready s"
  "ready (s\<lparr>gps_lat := q\<rparr>) = ready s" "ready (s\<lparr>gps_lon := q\<rparr>) = ready s" "ready (s\<lparr>gps_alt := q\<rparr>) = ready s"
  "ready (s\<lparr>accs := ac\<rparr>) = ready s" "ready (s\<lparr>current := c\<rparr>) = ready s" "ready (s\<lparr>falseGPS := f\<rparr>) = ready s"
  "ready (s\<lparr>fFirstTime := f\<rparr>) = ready s" "ready (s\<lparr>cfg_mem := cm\<rparr>) = ready s" "ready (s\<lparr>position := p\<rparr>) = ready s"
  "ready (s\<lparr>interrupted := f\<rparr>) = ready s"
  by (simp_all add: ready_def devs_ok_def out_ok_def mapped_def)

lemma can_open_update [simp]:
  "can_open (s\<lparr>time_calls := n\<rparr>) = can_open s" "can_open (s\<lparr>accs := ac\<rparr>) = can_open s"
  "can_open (s\<lparr>fileTime := t\<rparr>) = can_open s" "can_open (s\<lparr>fileDate := d\<rparr>) = can_open s"
  "can_open (s\<lparr>falseGPS := f\<rparr>) = can_open s"
  by (simp_all add: can_open_def devs_ok_def out_ok_def mapped_def)

section \<open>Handling a word returns\<close>

lemma runs_out_c [runs_intro]: "runs ready (out_c t)"
proof -
  have "ready s \<Longrightarrow> \<exists>v s'. out_c t s = Inr (v, s') \<and> ready s'" for s :: "'a lago_scheme"
    by (cases "fhout s") (auto simp: out_c_def ready_def devs_ok_def out_ok_def mapped_def app_text_def)
  then show ?thesis by (simp add: runs_def)
qed

lemma runs_simple [runs_intro]:
  "runs ready (printf t)" "runs ready (eprintf t)" "runs ready (time_c env)" "runs ready (mtd_c f)"
  "runs ready (date_c g)" "runs ready sync_date"
  by (auto simp: runs_def cm_defs sync_date_def Let_def)

lemma runs_cfg_read [runs_intro]: "runs ready (dev_read env Cfg (cfg_off r))"
  by (auto simp: runs_def ready_def devs_ok_def out_ok_def)

lemma xadc_check: "ready s \<Longrightarrow> dev_check Xadc (xadc_off a) s = Inr ((), s)"
  by (cases a) (auto simp: ready_def devs_ok_def mapped_def dev_check_def xadc_vaux_def split: ptr.splits)

lemma runs_voltage [runs_intro]: "runs ready (get_voltage env (xadc_off a))"
  by (simp add: runs_def get_voltage_def dev_read_def cm_defs xadc_check)

lemma runs_temp [runs_intro]: "runs ready (get_temp_AD592 env (xadc_off a))"
  unfolding get_temp_AD592_def by (intro runs_intro)

lemma runs_header: "runs ready (file_header env t)"
  unfolding file_header_def out_cfg_d_def out_cfg_mV_def
  by (intro runs_intro) (auto intro!: runs_intro simp del: cfg_off.simps)

lemma new_file_run:
  assumes "env_ok env bmp" "can_open s"
  shows "\<exists>s'. new_file env s = Inr (0, s') \<and> ready s'"
proof -
  let ?s = "s\<lparr>time_calls := Suc (time_calls s)\<rparr>"
  have "\<exists>t. if_c (\<not> fToStdout (args ?s)) (next_file env) ?s = Inr ((), t) \<and> ready t"
  proof (cases "fToStdout (args s)")
    case True
    then show ?thesis using assms(2) by (simp add: if_c_def can_open_def ready_def devs_ok_def out_ok_def mapped_def)
  next
    case False
    then show ?thesis using assms
      by (auto simp: if_c_def next_file_def close_out_def sync_date_def open_out_def cm_defs env_ok_def
          can_open_def ready_def devs_ok_def out_ok_def mapped_def Let_def split: handle.splits)
  qed
  then obtain t where t: "if_c (\<not> fToStdout (args ?s)) (next_file env) ?s = Inr ((), t)" "ready t" by blast
  obtain v t' where "file_header env (le_time env (time_calls s)) t = Inr (v, t')" "ready t'"
    using runsD [OF runs_header t(2)] by blast
  then show ?thesis using t(1) by (simp add: new_file_def cm_defs)
qed

lemma runs_new_hour: "env_ok env bmp \<Longrightarrow> runs ready (new_hour env)"
proof -
  assume e: "env_ok env bmp"
  have "runs ready (new_file env)" using new_file_run [OF e ready_can_open] by (force simp: runs_def)
  then show ?thesis unfolding new_hour_def by (intro runs_intro)
qed

lemma runs_pps: "env_ok env bmp \<Longrightarrow> runs ready (pps_word env wo)"
  unfolding pps_word_def tick_pc_def tick_gps_def slow_control_def
  by (intro runs_intro runs_new_hour runs_mod) simp_all

lemma runs_i2c: "(\<And>lg. \<exists>v lg'. m lg = Inr (v, lg')) \<Longrightarrow> runs ready (i2c_c m)"
  by (auto simp: runs_def lago_c_Inr) (metis ready_update(6))

lemma runs_handle_word:
  assumes e: "env_ok env bmp"
  shows "runs ready (handle_word env bmp wo)"
proof -
  have b: "runs ready (i2c_c (bmp180_temperature (le_b env) bmp))" "runs ready (i2c_c (bmp180_pressure (le_b env) bmp))"
    using e by (auto simp: env_ok_def intro!: runs_i2c)
  show ?thesis
    unfolding handle_word_def meta_word_def sample_word_def trigger_word_def counter_word_def gps_word_def unknown_word_def Let_def
    by (intro runs_intro runs_pps [OF e] b runs_mod) simp_all
qed


section \<open>A call returns\<close>

lemma read_steps_run:
  assumes e: "env_ok env bmp" and "\<forall>i \<in> set xs. i + 4 \<le> n" "ready s" "ptrs s Cma = Mapped n"
  shows "\<exists>s'. for_c xs (read_step env bmp ram) s = Inr ((), s') \<and> ready s'"
  using assms(2-)
proof (induction xs arbitrary: s)
  case (Cons x xs)
  let ?t = "s\<lparr>accs := accs s @ [Rd Cma (word_of_nat x)]\<rparr>"
  obtain u t where h: "handle_word env bmp (ram x) ?t = Inr (u, t)" "ready t"
    using runsD [OF runs_handle_word [OF e], of ?t "ram x"] Cons.prems by auto
  have "ring_view t = ring_view ?t" using presD [OF frame_handle_word h(1)] by simp
  then have "ptrs t = ptrs s" by (simp add: ring_view_def)
  then show ?case
    using Cons.IH [of "t\<lparr>current := int x\<rparr>"] Cons.prems h by (simp add: read_step_def cma_word_def cm_defs)
qed simp

lemma first_call_run:
  assumes "env_ok env bmp" "can_open s"
  shows "\<exists>s'. first_call env s = Inr ((), s') \<and> ready s'"
proof -
  define s1 where "s1 = s\<lparr>accs := accs s @ [Rd Cfg (cfg_off CFG_RESET_GRAL)], time_calls := Suc (time_calls s),
    fileTime := le_time env (time_calls s), fileDate := gmtime (le_time env (time_calls s))\<rparr>"
  define s2 where "s2 = (if drop_bit 4 (cfg_mem s (cfg_off CFG_RESET_GRAL)) AND 1 = 1 then s1\<lparr>falseGPS := True\<rparr>
    else let d = gps_start_date (fileDate s1) in s1\<lparr>fileTime := timegm d, fileDate := gmtime (timegm d)\<rparr>)"
  have "can_open s2" using assms(2) by (simp add: s2_def s1_def Let_def)
  then obtain s3 where "new_file env s2 = Inr (0, s3)" "ready s3" using new_file_run [OF assms(1)] by blast
  moreover have "mapped s Cfg 92" using assms(2) by (simp add: can_open_def devs_ok_def)
  ultimately show ?thesis
    by (simp add: first_call_def cm_defs s2_def s1_def sync_date_def Let_def del: cfg_off.simps split: if_splits)
qed

lemma read_buffer_run:
  assumes e: "env_ok env bmp" and "rb_at s h" "0 \<le> pos" "8 * pos \<le> limit s"
    and dev: "devs_ok s" and out: "fToStdout (args s) \<or> fFirstTime s \<or> out_ok s"
    and cma: "ptrs s Cma = Mapped n" "ring_end (nat (limit s)) h (nat (8 * pos)) \<le> n"
  shows "\<exists>s'. read_buffer env ram pos bmp s = Inr (1, s') \<and> ready s'"
proof -
  let ?B = "nat (limit s)" and ?p = "nat (8 * pos)"
  let ?s1 = "if fToStdout (args s) then s\<lparr>fhout := HStdout\<rparr> else s"
  have "\<exists>s2. if_c (fFirstTime s) (first_call env) ?s1 = Inr ((), s2) \<and> ready s2 \<and> ring_view s2 = ring_view s"
  proof (cases "fFirstTime s")
    case True
    have "can_open ?s1" using dev by (simp add: can_open_def devs_ok_def out_ok_def mapped_def)
    then obtain s2 where s2: "first_call env ?s1 = Inr ((), s2)" "ready s2" using first_call_run [OF e] by blast
    have "ring_view s2 = ring_view ?s1" using presD [OF frame_first_call s2(1)] by simp
    then show ?thesis using s2 True by (auto simp: if_c_def)
  next
    case False
    then show ?thesis using dev out by (auto simp: if_c_def ready_def devs_ok_def out_ok_def mapped_def)
  qed
  then obtain s2 where s2: "if_c (fFirstTime s) (first_call env) ?s1 = Inr ((), s2)" "ready s2" "ring_view s2 = ring_view s" by blast
  have ok: "ring_ok ?B (current s) h" and B: "limit s = int ?B" using assms(2) by (auto simp: rb_at_def)
  have p: "8 dvd ?p" "?p \<le> ?B" "wrap32 (pos * 8) = int ?p"
    using assms(3,4) ok by (auto simp: nat_mult_distrib ring_ok_def in_s32_def)
  note w = read_window_refines [OF ok p(1,2), folded B]
  obtain k where k: "ring_end ?B h ?p = h + 4 * k" using ring_end_bounds [OF ok p(1,2)] by blast
  have bounds: "\<forall>i \<in> set (stride 4 h (ring_end ?B h ?p)). i + 4 \<le> n"
    using cma(2) unfolding k by (auto simp: stride_mult)
  have v: "limit s2 = limit s" "current s2 = current s" "ptrs s2 = ptrs s" using s2(3) by (simp_all add: ring_view_def)
  obtain s3 where s3: "for_c (stride 4 h (ring_end ?B h ?p)) (read_step env bmp ram) (s2\<lparr>current := int h - 4\<rparr>) = Inr ((), s3)" "ready s3"
    using read_steps_run [OF e bounds, of "s2\<lparr>current := int h - 4\<rparr>"] s2(2) cma(1) v by auto
  note u = window_words [OF ok p(2)]
  have "read_window (limit s2) (current s2) (wrap32 (pos * 8)) = (int h - 4, int h, int (ring_end ?B h ?p))"
    using w(1) v by (simp add: p(3))
  then have "read_buffer env ram pos bmp s = Inr (1, s3)"
    using s2(1) s3(1) w(2) unfolding read_buffer_def
    by (cases "fToStdout (args s)") (simp_all add: bind_c_def then_c_def get_c_def if_c_def [of True] if_c_def [of False] mod_c_def ret_c_def u p(3))
  then show ?thesis using s3(2) by blast
qed

end
