(* ===== verification/Daq_Run.thy ===== *)
theory Daq_Run
  imports Daq_Total
begin

text \<open>
  A whole acquisition: the loop of \<open>main\<close> interleaved with the interrupt thread and the signal, from
  the start of the FPGA modules to their reset.
\<close>

section \<open>Waiting\<close>

lemma wait_view:
  assumes "wait_intc env ev s = Inr (r, s')"
  shows "current s' = current s \<and> limit s' = limit s \<and> ptrs s' = ptrs s \<and> cma_reads s' = cma_reads s
    \<and> cfg_mem s' = cfg_mem s \<and> args s' = args s \<and> interrupted s' = interrupted s \<and> not_gps s' = not_gps s
    \<and> fFirstTime s' = fFirstTime s \<and> fhout s' = fhout s \<and> files s' = files s
    \<and> (position s' = position s \<or> (\<exists>log. position s' = of_u32 (hw_read (le_z env) log Sts 0)))"
  using assms
  by (auto simp: wait_intc_def wait_for_interrupt_def irq_failure_def ack_interrupt_def dev_read_def dev_write_def
      dev_check_def reg_store_def reg_value_def cma_reads_def cm_defs split: if_splits ptr.splits)

lemma pres_wait: "pres (\<lambda>s. (cfg_mem s, ptrs s) = c) (wait_intc env ev)"
  by (auto simp: pres_def dest!: wait_view)

lemma pres_read_buffer: "pres (\<lambda>s. (cfg_mem s, ptrs s) = c) (read_buffer env ram pos bmp)"
  using main_frame_read_buffer unfolding pres_def main_view_def by blast

lemma pres_daq_loop: "pres (\<lambda>s. (cfg_mem s, ptrs s) = c) (daq_loop env bmp es)"
proof (induction env bmp es rule: daq_loop.induct)
  case (1 env bmp)
  show ?case by (auto simp: pres_def)
next
  case (2 env bmp es)
  then show ?case by (auto intro!: pres_intro pres_mod simp: signal_handler_def)
next
  case (3 env bmp ev es)
  then show ?case unfolding daq_loop.simps thread_isr_not_gps_def void_c_def by (intro pres_intro pres_wait)
next
  case (4 env bmp ev ram es)
  then show ?case unfolding daq_loop.simps by (intro pres_intro pres_wait pres_read_buffer)
qed

section \<open>The control register\<close>

definition gral_view :: "'a lago_scheme \<Rightarrow> (dev \<Rightarrow> ptr) \<times> int \<times> int \<times> int \<times> bool \<times> u32 list \<times> bool \<times> bool \<times> handle \<times> data_file list" where
  "gral_view s = (ptrs s, current s, limit s, position s, interrupted s, cma_reads s, fToStdout (args s), fFirstTime s, fhout s, files s)"

lemma gral_rmw_run: "mapped s Cfg 92 \<Longrightarrow> \<exists>s'. gral_rmw env f s = Inr ((), s') \<and> gral_view s' = gral_view s
    \<and> cfg_mem s' = (cfg_mem s)(cfg_off CFG_RESET_GRAL := f (cfg_mem s (cfg_off CFG_RESET_GRAL)))"
proof -
  assume m: "mapped s Cfg 92"
  let ?t = "s\<lparr>accs := accs s @ [Rd Cfg (cfg_off CFG_RESET_GRAL)], args := (args s)\<lparr>reg_val := of_u32 (cfg_mem s (cfg_off CFG_RESET_GRAL))\<rparr>\<rparr>"
  have "mapped ?t Cfg 92" using m by (simp add: mapped_def)
  from cfg_write_run [OF this, of CFG_RESET_GRAL] m show ?thesis
    by (simp add: gral_rmw_def cm_defs gral_view_def cma_reads_def del: cfg_off.simps)
qed

lemma gral_script:
  assumes "mapped s Cfg 92"
  shows "\<exists>s'. seq_c (map (gral_rmw env) fs) s = Inr ((), s') \<and> gral_view s' = gral_view s
    \<and> cfg_mem s' = (cfg_mem s)(cfg_off CFG_RESET_GRAL := fold (\<lambda>f. f) fs (cfg_mem s (cfg_off CFG_RESET_GRAL)))"
  using assms
proof (induction fs arbitrary: s)
  case (Cons f fs)
  obtain t where t: "gral_rmw env f s = Inr ((), t)" "gral_view t = gral_view s"
    "cfg_mem t = (cfg_mem s)(cfg_off CFG_RESET_GRAL := f (cfg_mem s (cfg_off CFG_RESET_GRAL)))"
    using gral_rmw_run [OF Cons.prems, of env f] by blast
  then have "mapped t Cfg 92" using Cons.prems by (simp add: mapped_def gral_view_def)
  from Cons.IH [OF this] t show ?case by (auto simp: fun_eq_iff simp del: cfg_off.simps)
qed simp

lemma daq_bits: "(((((v OR 2) OR 1) OR 4) AND - 2) AND - 5) AND - 3 = v AND (- 8 :: u32)"
proof -
  have "(((((v OR 2) OR 1) OR 4) AND - 2) AND - 5) AND - 3 = (v OR 7) AND (- 8 :: u32)" by (simp add: or.assoc and.assoc)
  then show ?thesis by (simp add: bit.conj_disj_distrib2)
qed

text \<open>The three parts of a run: start the modules, loop, reset them.\<close>

definition daq_on :: "(u32 \<Rightarrow> u32) list" where
  "daq_on = [\<lambda>v. v OR 2, \<lambda>v. v OR 1, \<lambda>v. v OR 4]"

definition daq_off :: "(u32 \<Rightarrow> u32) list" where
  "daq_off = [\<lambda>v. v AND NOT 1, \<lambda>v. v AND NOT 4, \<lambda>v. v AND NOT 2]"

abbreviation daq_start :: "'a lago_scheme \<Rightarrow> 'a lago_scheme" where
  "daq_start s \<equiv> s\<lparr>limit := 8388608, current := - 4\<rparr>"

lemma run_daq_eq: "run_daq env bmp evs s = then_c (seq_c (map (gral_rmw env) daq_on))
    (then_c (daq_loop env bmp evs) (seq_c (map (gral_rmw env) daq_off))) (daq_start s)"
  by (simp add: run_daq_def then_c_def mod_c_def daq_on_def daq_off_def)

lemma run_daq_parts:
  fixes s s' :: "'a lago_scheme"
  assumes "mapped s Cfg 92" "run_daq env bmp evs s = Inr (u, s')"
  obtains t1 t2 :: "'a lago_scheme" and v where "daq_loop env bmp evs t1 = Inr (v, t2)"
    "gral_view t1 = gral_view (daq_start s)" "gral_view s' = gral_view t2"
    "cfg_mem t1 = (cfg_mem s)(cfg_off CFG_RESET_GRAL := fold (\<lambda>f. f) daq_on (cfg_mem s (cfg_off CFG_RESET_GRAL)))"
    "cfg_mem t2 = cfg_mem t1"
    "cfg_mem s' = (cfg_mem t2)(cfg_off CFG_RESET_GRAL := fold (\<lambda>f. f) daq_off (cfg_mem t2 (cfg_off CFG_RESET_GRAL)))"
proof -
  have m: "mapped (daq_start s) Cfg 92" using assms(1) by (simp add: mapped_def)
  obtain t1 where t1: "seq_c (map (gral_rmw env) daq_on) (daq_start s) = Inr ((), t1)" "gral_view t1 = gral_view (daq_start s)"
    "cfg_mem t1 = (cfg_mem s)(cfg_off CFG_RESET_GRAL := fold (\<lambda>f. f) daq_on (cfg_mem s (cfg_off CFG_RESET_GRAL)))"
    using gral_script [OF m, of env daq_on] by (auto simp del: cfg_off.simps)
  obtain v t2 v3 where t2: "daq_loop env bmp evs t1 = Inr (v, t2)" "seq_c (map (gral_rmw env) daq_off) t2 = Inr (v3, s')"
    using assms(2) t1(1) unfolding run_daq_eq by (auto simp: then_c_Inr)
  have k: "(cfg_mem t2, ptrs t2) = (cfg_mem t1, ptrs t1)" using presD [OF pres_daq_loop t2(1)] by simp
  then have "mapped t2 Cfg 92" using m t1(2) by (simp add: mapped_def gral_view_def)
  from gral_script [OF this, of env daq_off] t2(2) t1(2,3) k show thesis using that [OF t2(1)] by auto
qed

text \<open>
  C2. However the passes, the thread and the signal interleave, an acquisition that ends leaves bits
  0, 1 and 2 of the control register (trigger and PPS, stream end, converter and writer) in reset,
  its other bits and every other configuration register as they were.
\<close>

theorem acquisition_restores_control:
  fixes s s' :: "'a lago_scheme"
  assumes "mapped s Cfg 92" "run_daq env bmp evs s = Inr (u, s')"
  shows "cfg_mem s' = (cfg_mem s)(cfg_off CFG_RESET_GRAL := cfg_mem s (cfg_off CFG_RESET_GRAL) AND NOT 7)"
proof -
  let ?r = "cfg_off CFG_RESET_GRAL"
  obtain t1 t2 :: "'a lago_scheme" where "cfg_mem t1 = (cfg_mem s)(?r := fold (\<lambda>f. f) daq_on (cfg_mem s ?r))" "cfg_mem t2 = cfg_mem t1"
    "cfg_mem s' = (cfg_mem t2)(?r := fold (\<lambda>f. f) daq_off (cfg_mem t2 ?r))"
    using run_daq_parts [OF assms] by metis
  then have "cfg_mem s' = (cfg_mem s)(?r := fold (\<lambda>f. f) (daq_on @ daq_off) (cfg_mem s ?r))" by (simp del: cfg_off.simps)
  also have "fold (\<lambda>f. f) (daq_on @ daq_off) (cfg_mem s ?r) = cfg_mem s ?r AND NOT 7"
    by (simp add: daq_on_def daq_off_def daq_bits del: cfg_off.simps)
  finally show ?thesis .
qed

section \<open>The words read\<close>

text \<open>The writer's positions, and a position inside a ring of so many bytes.\<close>

definition in_ring :: "int \<Rightarrow> int \<Rightarrow> bool" where
  "in_ring B pos \<longleftrightarrow> 0 \<le> pos \<and> 8 * pos \<le> B"

definition writer_ok :: "lenv \<Rightarrow> int \<Rightarrow> bool" where
  "writer_ok env B \<longleftrightarrow> (\<forall>log. in_ring B (of_u32 (hw_read (le_z env) log Sts 0)))"

lemma wait_in_ring: "wait_intc env ev s = Inr (r, s') \<Longrightarrow> writer_ok env B \<Longrightarrow> in_ring B (position s) \<Longrightarrow> in_ring B (position s')"
  by (auto simp: writer_ok_def dest!: wait_view)

definition daq_at :: "int \<Rightarrow> nat \<Rightarrow> 'a lago_scheme \<Rightarrow> bool" where
  "daq_at B h s \<longleftrightarrow> rb_at s h \<and> limit s = B \<and> in_ring B (position s)"

lemma wait_daq_at:
  assumes "wait_intc env ev s = Inr (r, s')" "writer_ok env B" "daq_at B h s"
  shows "daq_at B h s' \<and> cma_reads s' = cma_reads s"
  using wait_view [OF assms(1)] wait_in_ring [OF assms(1,2)] assms(3) by (auto simp: daq_at_def rb_at_def)

lemma read_daq_at:
  assumes "read_buffer env ram (position s) bmp s = Inr (r, s')" "daq_at B h s"
  shows "\<exists>n. cma_reads s' = cma_reads s @ map (\<lambda>j. word_of_nat ((h + 4 * j) mod nat B)) [0..<n] \<and> daq_at B ((h + 4 * n) mod nat B) s'"
proof -
  have "rb_at s h" "rb_valid (ram, position s) s" "rb_call env bmp (ram, position s) s = Inr (r, s')"
    using assms by (auto simp: daq_at_def in_ring_def rb_valid_def rb_call_def)
  note c = read_buffer_contiguous [OF this]
  have "position s' = position s" using presD [OF main_frame_read_buffer assms(1), of "main_view s"] by (simp add: main_view_def)
  then show ?thesis using c assms(2) by (auto simp: daq_at_def)
qed

lemma daq_loop_contiguous:
  assumes "daq_loop env bmp es s = Inr (u, s')" "writer_ok env B" "daq_at B h s"
  shows "\<exists>n. cma_reads s' = cma_reads s @ map (\<lambda>j. word_of_nat ((h + 4 * j) mod nat B)) [0..<n] \<and> daq_at B ((h + 4 * n) mod nat B) s'"
  using assms
proof (induction env bmp es arbitrary: s h rule: daq_loop.induct)
  case (1 env bmp)
  then have "h < nat B" "s' = s" by (auto simp: daq_at_def rb_at_def ring_ok_def split: if_splits)
  then show ?case using 1 by (intro exI [of _ 0]) simp
next
  case (2 env bmp es)
  let ?t = "s\<lparr>interrupted := True\<rparr>"
  have "daq_at B h ?t" "cma_reads ?t = cma_reads s" using 2(4) by (auto simp: daq_at_def rb_at_def cma_reads_def)
  then show ?case using "2.IH" [of ?t h] 2 by (simp add: cm_defs signal_handler_def)
next
  case (3 env bmp ev es)
  then obtain v t where t: "if_c (not_gps s) (thread_isr_not_gps env [ev]) s = Inr (v, t)" "daq_loop env bmp es t = Inr (u, s')"
    by (auto simp: cm_inv)
  have "daq_at B h t \<and> cma_reads t = cma_reads s"
    using t(1) wait_daq_at [OF _ 3(3,4)] 3(4) by (auto simp: if_c_def thread_isr_not_gps_def cm_defs split: if_splits sum.splits)
  then show ?case using "3.IH" [OF t(2) 3(3)] by metis
next
  case (4 env bmp ev ram es)
  show ?case
  proof (cases "interrupted s")
    case True
    then have "h < nat B" "s' = s" using 4 by (auto simp: cm_defs daq_at_def rb_at_def ring_ok_def)
    then show ?thesis using 4 by (intro exI [of _ 0]) simp
  next
    case False
    then obtain v1 t1 v2 t2 where w: "wait_intc env ev s = Inr (v1, t1)" and rb: "read_buffer env ram (position t1) bmp t1 = Inr (v2, t2)"
      and rest: "daq_loop env bmp es t2 = Inr (u, s')"
      using 4(2) by (auto simp: cm_inv)
    have a: "daq_at B h t1" "cma_reads t1 = cma_reads s" using wait_daq_at [OF w 4(3,4)] by auto
    obtain m where m: "cma_reads t2 = cma_reads s @ map (\<lambda>j. word_of_nat ((h + 4 * j) mod nat B)) [0..<m]" "daq_at B ((h + 4 * m) mod nat B) t2"
      using read_daq_at [OF rb a(1)] a(2) by auto
    obtain n where n: "cma_reads s' = cma_reads t2 @ map (\<lambda>j. word_of_nat (((h + 4 * m) mod nat B + 4 * j) mod nat B)) [0..<n]"
        "daq_at B (((h + 4 * m) mod nat B + 4 * n) mod nat B) s'"
      using "4.IH" [OF False rest 4(3) m(2)] by blast
    have "cma_reads s' = cma_reads s @ map (\<lambda>j. word_of_nat ((h + 4 * j) mod nat B)) [0..<m + n]"
      using n(1) unfolding m(1) append_assoc ring_append_word .
    then show ?thesis using n(2) unfolding ring_mod by blast
  qed
qed

text \<open>
  C1. Over a whole acquisition, whatever the interleaving of the loop, the interrupt thread and the
  signal, the offsets read from the sample memory are \<open>0, 4, 8, \<dots>\<close> around the ring of 8 MB, with no word skipped or
  read twice, as long as the positions the FPGA reports lie in the ring.
\<close>

theorem acquisition_contiguous:
  fixes s s' :: "'a lago_scheme"
  assumes "writer_ok env 8388608" "in_ring 8388608 (position s)" "mapped s Cfg 92" "run_daq env bmp evs s = Inr (u, s')"
  shows "\<exists>n. cma_reads s' = cma_reads s @ map (\<lambda>j. word_of_nat (4 * j mod 8388608)) [0..<n]"
proof -
  obtain t1 t2 :: "'a lago_scheme" and v where t: "daq_loop env bmp evs t1 = Inr (v, t2)" "gral_view t1 = gral_view (daq_start s)" "gral_view s' = gral_view t2"
    using run_daq_parts [OF assms(3,4)] by metis
  then have a: "daq_at 8388608 0 t1" "cma_reads t1 = cma_reads s"
    using assms(2) by (auto simp: gral_view_def daq_at_def rb_at_def ring_ok_def cma_reads_def)
  have "cma_reads s' = cma_reads t2" using t(3) by (simp add: gral_view_def)
  with daq_loop_contiguous [OF t(1) assms(1) a(1)] a(2) show ?thesis by auto
qed


section \<open>The part of the ring that is mapped\<close>

text \<open>
  The ring has 8 MB (\<open>limit\<close>), but \<open>cma_init\<close> maps 1024 pages, 4 MB: the first 524288 positions of the writer.  The reader is at
  position \<open>p\<close> of them.
\<close>

definition mem_at :: "'a lago_scheme \<Rightarrow> int \<Rightarrow> bool" where
  "mem_at s p \<longleftrightarrow> rb_at s (nat (8 * p)) \<and> 0 \<le> p \<and> p \<le> 524288 \<and> limit s = 8388608 \<and> ptrs s Cma = Mapped 4194304 \<and> devs_ok s
     \<and> (fToStdout (args s) \<or> fFirstTime s \<or> out_ok s)"

lemma mem_at_frame:
  assumes "mem_at s p" "current s' = current s" "limit s' = limit s" "ptrs s' = ptrs s" "args s' = args s"
    and "fFirstTime s' = fFirstTime s" "fhout s' = fhout s" "files s' = files s"
  shows "mem_at s' p"
  using assms(1) unfolding mem_at_def rb_at_def devs_ok_def mapped_def out_ok_def assms(2-) .

lemma cma_init_mapped:
  assumes "1 \<le> os_open z ''/dev/cma''" "os_cma z 4194304 = Some addr" "os_mmap z ''/dev/cma'' 4194304 0" "pagesize z = 4096"
  shows "\<exists>s'. cma_init z s = Inr (0, s') \<and> s' = s\<lparr>fds := fds s', ptrs := (ptrs s)(Cma := Mapped 4194304), dev_size := addr\<rparr>"
  using assms by (simp add: cma_init_def open_dev_def mmap_dev_def set_size_def cm_defs page_up_def Let_def)

text \<open>A writer that has not gone back and is still in the mapping: the call returns and the reader has caught up.\<close>

lemma read_mapped:
  assumes "env_ok env bmp" "mem_at s p" "p \<le> pos" "pos \<le> 524288"
  shows "\<exists>s'. read_buffer env ram pos bmp s = Inr (1, s') \<and> mem_at s' pos \<and> main_view s' = main_view s"
proof -
  let ?h = "nat (8 * p)" and ?p = "nat (8 * pos)"
  have a: "rb_at s ?h" "0 \<le> p" "limit s = 8388608" "ptrs s Cma = Mapped 4194304" "devs_ok s" "fToStdout (args s) \<or> fFirstTime s \<or> out_ok s"
    using assms(2) by (simp_all add: mem_at_def)
  have e: "ring_end (nat (limit s)) ?h ?p = ?p" "?p \<le> 4194304" "0 \<le> pos" "8 * pos \<le> limit s"
    using assms(3,4) a(2,3) by (auto simp: ring_end_def nat_mono)
  obtain s' where s': "read_buffer env ram pos bmp s = Inr (1, s')" "ready s'"
    using read_buffer_run [OF assms(1) a(1) e(3,4) a(5,6,4)] e(1,2) by auto
  have v: "main_view s' = main_view s" using presD [OF main_frame_read_buffer s'(1), of "main_view s"] by simp
  have "rb_valid (ram, pos) s" "rb_call env bmp (ram, pos) s = Inr (1, s')" using e(3,4) s'(1) by (simp_all add: rb_valid_def rb_call_def)
  from read_buffer_contiguous [OF a(1) this]
  obtain n where n: "limit s' = limit s" "?p = ?h + 4 * n" "rb_at s' ((?h + 4 * n) mod nat (limit s))" using e(1) by auto
  have "?p mod nat (limit s) = ?p" using e(2) a(3) by simp
  then have "rb_at s' ?p" using n(2,3) by simp
  then have "mem_at s' pos" using s'(2) v n(1) a(3,4) e(3) assms(4) by (simp add: mem_at_def ready_def main_view_def)
  then show ?thesis using s'(1) v by blast
qed

text \<open>A part of the ring that ends past the mapping: the call does not return, whatever the words and the environment.\<close>

lemma read_steps_past:
  assumes "for_c (stride 4 h (h + 4 * k)) (read_step env bmp ram) t = Inr (u, s')" "ptrs t Cma = Mapped n" "0 < k"
  shows "h + 4 * k \<le> n"
proof -
  have "h + 4 * (k - 1) \<in> set (stride 4 h (h + 4 * k))" using assms(3) by (auto simp: stride_mult)
  then have "h + 4 * (k - 1) + 4 \<le> n" using read_steps_view [OF assms(1)] assms(2) by auto
  then show ?thesis using assms(3) by (cases k) auto
qed

lemma read_past_mapping:
  assumes "rb_at s h" "0 \<le> pos" "8 * pos \<le> limit s" "ptrs s Cma = Mapped n" "n < ring_end (nat (limit s)) h (nat (8 * pos))" "h < ring_end (nat (limit s)) h (nat (8 * pos))"
  shows "\<nexists>r s'. read_buffer env ram pos bmp s = Inr (r, s')"
proof
  let ?e = "ring_end (nat (limit s)) h (nat (8 * pos))"
  assume "\<exists>r s'. read_buffer env ram pos bmp s = Inr (r, s')"
  then obtain r s' where "read_buffer env ram pos bmp s = Inr (r, s')" by blast
  then obtain t u where t: "ring_view t = (int h - 4, limit s, ptrs s, cma_reads s, main_view s)"
    "for_c (stride 4 h ?e) (read_step env bmp ram) t = Inr (u, s')"
    using read_buffer_window [OF assms(1-3)] by blast
  have "8 dvd nat (8 * pos)" "nat (8 * pos) \<le> nat (limit s)" using assms(2,3) by (auto simp: nat_mult_distrib)
  then obtain k where k: "?e = h + 4 * k" using ring_end_bounds [of "nat (limit s)" "current s" h "nat (8 * pos)"] assms(1)
    by (auto simp: rb_at_def)
  show False using read_steps_past [OF t(2) [unfolded k], of n] t(1) assms(4-6) k by (auto simp: ring_view_def)
qed

lemma unat_to_u32: "0 \<le> x \<Longrightarrow> x < 4294967296 \<Longrightarrow> unat (to_u32 x) = nat x"
  by (cases x) (simp_all add: to_u32_def unat_of_nat)

text \<open>The same for the positions past the ring that a register of 22 bits can show.\<close>

lemma read_past_ring:
  assumes "mem_at s p" "1048576 < pos" "pos < 4194304"
  shows "\<nexists>r s'. read_buffer env ram pos bmp s = Inr (r, s')"
proof
  assume "\<exists>r s'. read_buffer env ram pos bmp s = Inr (r, s')"
  then obtain r s' where r: "read_buffer env ram pos bmp s = Inr (r, s')" by blast
  have a: "0 \<le> p" "p \<le> 524288" "limit s = 8388608" "ptrs s Cma = Mapped 4194304" "current s = 8 * p - 4 \<or> p = 0 \<and> current s = 8388604"
    using assms(1) by (auto simp: mem_at_def rb_at_def ring_ok_def)
  have w: "wrap32 (pos * 8) = 8 * pos" using assms(2,3) by (simp add: in_s32_def mult.commute)
  have rw: "read_window (limit s) (current s) (wrap32 (pos * 8)) = (8 * p - 4, 8 * p, 8 * pos)" "8 * p - 4 \<noteq> wrap32 (pos * 8)"
    using a(1,2,5) assms(2,3) unfolding w a(3) by (auto simp: read_window_def Let_def)
  obtain t u where t: "ring_view t = (8 * p - 4, limit s, ptrs s, cma_reads s, main_view s)"
    "for_c (stride 4 (unat (to_u32 (8 * p))) (unat (to_u32 (8 * pos)))) (read_step env bmp ram) t = Inr (u, s')"
    using read_buffer_raw [OF r rw] by blast
  have u: "unat (to_u32 (8 * p)) = nat (8 * p)" "unat (to_u32 (8 * pos)) = nat (8 * pos)"
    using a(1,2) assms(2,3) unat_to_u32 [of "8 * p"] unat_to_u32 [of "8 * pos"] by linarith+
  have "nat (8 * pos) = nat (8 * p) + 4 * nat (2 * (pos - p))" using a(1,2) assms(2) by (simp add: nat_eq_iff)
  note u = u(1) u(2) [unfolded this]
  have "for_c (stride 4 (nat (8 * p)) (nat (8 * p) + 4 * nat (2 * (pos - p)))) (read_step env bmp ram) t = Inr (u, s')"
    using t(2) unfolding u .
  from read_steps_past [OF this, of 4194304] show False using t(1) a(2,4) assms(2) by (auto simp: ring_view_def)
qed

lemma read_unmapped:
  assumes "mem_at s p" "0 \<le> pos" "pos < 4194304" "\<not> (p \<le> pos \<and> pos \<le> 524288)"
  shows "\<nexists>r s'. read_buffer env ram pos bmp s = Inr (r, s')"
proof (cases "pos \<le> 1048576")
  case True
  have a: "rb_at s (nat (8 * p))" "0 \<le> p" "p \<le> 524288" "limit s = 8388608" "ptrs s Cma = Mapped 4194304" using assms(1) by (simp_all add: mem_at_def)
  have "4194304 < ring_end (nat (limit s)) (nat (8 * p)) (nat (8 * pos))" "nat (8 * p) < ring_end (nat (limit s)) (nat (8 * p)) (nat (8 * pos))"
    using a(2-4) assms(2,4) by (auto simp: ring_end_def)
  then show ?thesis using read_past_mapping [OF a(1) assms(2) _ a(5)] True a(4) by simp
next
  case False
  then show ?thesis using read_past_ring [OF assms(1) _ assms(3)] by simp
qed

lemma run_calls_mapped:
  assumes "env_ok env bmp"
  shows "mem_at s p \<Longrightarrow> \<forall>c \<in> set calls. 0 \<le> snd c \<and> snd c < 4194304 \<Longrightarrow>
    (\<exists>s'. run_calls env bmp calls s = Inr ((), s')) \<longleftrightarrow> sorted (p # map snd calls) \<and> (\<forall>c \<in> set calls. snd c \<le> 524288)"
proof (induction calls arbitrary: s p)
  case (Cons c cs)
  have pos: "0 \<le> snd c" "snd c < 4194304" using Cons.prems(2) by auto
  show ?case
  proof (cases "p \<le> snd c \<and> snd c \<le> 524288")
    case True
    then obtain t where t: "read_buffer env (fst c) (snd c) bmp s = Inr (1, t)" "mem_at t (snd c)"
      using read_mapped [OF assms Cons.prems(1)] by blast
    have "run_calls env bmp (c # cs) s = run_calls env bmp cs t" using t(1) by (simp add: run_calls_def then_c_def ret_c_def)
    then have "(\<exists>s'. run_calls env bmp (c # cs) s = Inr ((), s')) \<longleftrightarrow> sorted (snd c # map snd cs) \<and> (\<forall>c \<in> set cs. snd c \<le> 524288)"
      using Cons.IH [OF t(2)] Cons.prems(2) by simp
    also have "\<dots> \<longleftrightarrow> sorted (p # map snd (c # cs)) \<and> (\<forall>c \<in> set (c # cs). snd c \<le> 524288)" using True by auto
    finally show ?thesis .
  next
    case False
    then have "\<nexists>r t. read_buffer env (fst c) (snd c) bmp s = Inr (r, t)" using read_unmapped [OF Cons.prems(1) pos] by blast
    then have "\<nexists>s'. run_calls env bmp (c # cs) s = Inr ((), s')" by (auto simp: run_calls_def then_c_def bind_c_def split: sum.splits)
    then show ?thesis using False by auto
  qed
qed (simp add: run_calls_def cm_defs)

text \<open>The memory mapped by the program itself, the start of the ring, and then the calls.\<close>

definition readout :: "lenv \<Rightarrow> bmp180 option \<Rightarrow> ((nat \<Rightarrow> u32) \<times> int) list \<Rightarrow> ('a lago_scheme, unit) cm" where
  "readout env bmp calls = seq_c [void_c (cma_init (le_z env)), mod_c (\<lambda>s. s\<lparr>limit := 1024 * 1024 * 8, current := - 4\<rparr>), run_calls env bmp calls]"

text \<open>
  C38. The ring is larger than the memory \<open>cma_init\<close> maps.  With pages of 4096 bytes, once \<open>cma_init\<close> has mapped its 1024 pages, a sequence of calls
  of \<open>read_buffer\<close> with any positions a register of 22 bits shows returns exactly when the positions never go back and never pass
  524288, the end of the mapping: a writer that goes on, even one that later wraps around, always leads to an access out of bounds.
\<close>

theorem readout_past_mapping:
  assumes "env_ok env bmp" "1 \<le> os_open (le_z env) ''/dev/cma''" "os_cma (le_z env) 4194304 = Some addr"
    and "os_mmap (le_z env) ''/dev/cma'' 4194304 0" "pagesize (le_z env) = 4096" "devs_ok s" "fToStdout (args s) \<or> fFirstTime s \<or> out_ok s"
    and "\<forall>c \<in> set calls. 0 \<le> snd c \<and> snd c < 4194304"
  shows "(\<exists>s'. readout env bmp calls s = Inr ((), s')) \<longleftrightarrow> sorted (map snd calls) \<and> (\<forall>c \<in> set calls. snd c \<le> 524288)"
proof -
  obtain t where t: "cma_init (le_z env) s = Inr (0, t)" "t = s\<lparr>fds := fds t, ptrs := (ptrs s)(Cma := Mapped 4194304), dev_size := addr\<rparr>"
    using cma_init_mapped [OF assms(2-5)] by blast
  let ?u = "t\<lparr>limit := 8388608, current := - 4\<rparr>"
  have "mem_at ?u 0" using assms(6,7) by (subst t(2), simp add: mem_at_def rb_at_def ring_ok_def devs_ok_def mapped_def out_ok_def)
  from run_calls_mapped [OF assms(1) this assms(8)]
  have "(\<exists>s'. run_calls env bmp calls ?u = Inr ((), s')) \<longleftrightarrow> sorted (0 # map snd calls) \<and> (\<forall>c \<in> set calls. snd c \<le> 524288)" .
  moreover have "readout env bmp calls s = run_calls env bmp calls ?u"
    by (auto simp: readout_def void_c_def then_c_def bind_c_def ret_c_def mod_c_def t(1) split: sum.splits)
  ultimately show ?thesis using assms(8) by auto
qed

section \<open>An acquisition ends\<close>

definition irq_ok :: "irq_ev \<Rightarrow> bool" where
  "irq_ok ev \<longleftrightarrow> irq_wr ev = 4 \<and> (1 \<le> irq_poll ev \<longrightarrow> irq_rd ev = 4)"

fun ev_ok :: "daq_ev \<Rightarrow> bool" where
  "ev_ok Sigint = True"
| "ev_ok (ThreadWait ev) = irq_ok ev"
| "ev_ok (Pass ev ram) = irq_ok ev"

text \<open>The position register of the writer: its \<open>k\<close>-th read shows \<open>q k\<close>.\<close>

definition shows_position :: "lenv \<Rightarrow> (nat \<Rightarrow> int) \<Rightarrow> bool" where
  "shows_position env q \<longleftrightarrow> (\<forall>lg. of_u32 (hw_read (le_z env) lg Sts 0) = q (length (filter (\<lambda>a. a = Rd Sts 0) lg)))"

text \<open>A writer that does not go back and stays in the mapping.\<close>

definition writer_in_mapping :: "(nat \<Rightarrow> int) \<Rightarrow> bool" where
  "writer_in_mapping q \<longleftrightarrow> mono q \<and> (\<forall>k. 0 \<le> q k \<and> q k \<le> 524288)"

text \<open>What the loop relies on, with the reader at \<open>p\<close>.\<close>

definition daq_ready :: "(nat \<Rightarrow> int) \<Rightarrow> int \<Rightarrow> 'a lago_scheme \<Rightarrow> bool" where
  "daq_ready q p s \<longleftrightarrow> mem_at s p \<and> mapped s Intc 16 \<and> mapped s Sts 4 \<and> p \<le> position s \<and> position s \<le> q (pos_looks s)"

lemma wait_run:
  assumes "irq_ok ev" "mapped s Intc 16" "mapped s Sts 4"
  shows "\<exists>r s'. wait_intc env ev s = Inr (r, s')"
proof -
  have c: "dev_check Intc 4 t = Inr ((), t)" "dev_check Intc 12 t = Inr ((), t)" "dev_check Sts 0 t = Inr ((), t)"
    if "ptrs t = ptrs s" for t :: "'a lago_scheme"
    using that assms(2,3) by (auto simp: dev_check_def mapped_def split: ptr.splits)
  show ?thesis using assms(1)
    by (simp add: wait_intc_def wait_for_interrupt_def ack_interrupt_def irq_ok_def dev_read_def dev_write_def c reg_store_def cm_defs)
qed

text \<open>A wait reads the register at most once.\<close>

lemma wait_position:
  assumes "wait_intc env ev s = Inr (r, s')" "shows_position env q"
  shows "position s' = position s \<and> pos_looks s' = pos_looks s \<or> position s' = q (pos_looks s) \<and> pos_looks s' = Suc (pos_looks s)"
  using assms
  by (auto simp: wait_intc_def wait_for_interrupt_def irq_failure_def ack_interrupt_def dev_read_def dev_write_def shows_position_def
      dev_check_def reg_store_def reg_value_def pos_looks_def cm_defs split: if_splits ptr.splits)

lemma wait_daq_ready:
  assumes "wait_intc env ev s = Inr (r, s')" "shows_position env q" "writer_in_mapping q" "daq_ready q p s"
  shows "daq_ready q p s'"
proof -
  have m: "q (pos_looks s) \<le> q (Suc (pos_looks s))" using assms(3) by (auto simp: writer_in_mapping_def mono_def)
  have "p \<le> position s' \<and> position s' \<le> q (pos_looks s')"
    using wait_position [OF assms(1,2)] assms(4) m by (auto simp: daq_ready_def)
  moreover have "mem_at s' p" using wait_view [OF assms(1)] assms(4) mem_at_frame [of s p s'] by (simp add: daq_ready_def)
  moreover have "mapped s' Intc 16" "mapped s' Sts 4"
    using wait_view [OF assms(1)] assms(4) by (simp_all add: daq_ready_def mapped_def)
  ultimately show ?thesis by (simp add: daq_ready_def)
qed

lemma pass_run:
  assumes "env_ok env bmp" "writer_in_mapping q" "daq_ready q p s"
  shows "\<exists>s'. read_buffer env ram (position s) bmp s = Inr (1, s') \<and> daq_ready q (position s) s'"
proof -
  have "q (pos_looks s) \<le> 524288" using assms(2) by (simp add: writer_in_mapping_def)
  then have "p \<le> position s" "position s \<le> 524288" using assms(3) by (auto simp: daq_ready_def)
  then obtain s' where s': "read_buffer env ram (position s) bmp s = Inr (1, s')" "mem_at s' (position s)" "main_view s' = main_view s"
    using read_mapped [OF assms(1)] assms(3) unfolding daq_ready_def by blast
  then show ?thesis using assms(3) by (auto simp: daq_ready_def main_view_def mapped_def)
qed

lemma daq_loop_ends:
  assumes "env_ok env bmp" "shows_position env q" "writer_in_mapping q" "\<forall>e \<in> set es. ev_ok e" "daq_ready q p s"
    and "interrupted s \<or> Sigint \<in> set es"
  shows "\<exists>s'. daq_loop env bmp es s = Inr ((), s')"
  using assms
proof (induction env bmp es arbitrary: s p rule: daq_loop.induct)
  case (2 env bmp es)
  have "daq_ready q p (s\<lparr>interrupted := True\<rparr>)"
    using 2(6) mem_at_frame [of s p "s\<lparr>interrupted := True\<rparr>"] by (simp add: daq_ready_def mapped_def pos_looks_def)
  then show ?case using "2.IH" [OF 2(2-4)] 2(5) by (simp add: cm_defs signal_handler_def)
next
  case (3 env bmp ev es)
  have "mapped s Intc 16" "mapped s Sts 4" using 3(6) by (auto simp: daq_ready_def)
  then obtain r t where w: "wait_intc env ev s = Inr (r, t)" using wait_run 3(5) by fastforce
  have "daq_ready q p t" "interrupted t = interrupted s" using wait_daq_ready [OF w 3(3,4,6)] wait_view [OF w] by auto
  then show ?case using "3.IH" [OF 3(2-4) _ \<open>daq_ready q p t\<close>] "3.IH" [OF 3(2-4) _ 3(6)] 3(5,7) w
    by (auto simp: cm_defs thread_isr_not_gps_def)
next
  case (4 env bmp ev ram es)
  show ?case
  proof (cases "interrupted s")
    case False
    have "mapped s Intc 16" "mapped s Sts 4" using 4(6) by (auto simp: daq_ready_def)
    then obtain r t where w: "wait_intc env ev s = Inr (r, t)" using wait_run 4(5) by fastforce
    have t: "daq_ready q p t" using wait_daq_ready [OF w 4(3,4,6)] .
    obtain t2 where t2: "read_buffer env ram (position t) bmp t = Inr (1, t2)" "daq_ready q (position t) t2"
      using pass_run [OF 4(2,4) t] by blast
    from "4.IH" [OF False 4(2-4) _ t2(2)] 4(5,7) False w t2(1) show ?thesis by (auto simp: cm_defs)
  qed (simp add: cm_defs)
qed simp

text \<open>The state in which an acquisition starts.\<close>

definition can_run :: "(nat \<Rightarrow> int) \<Rightarrow> 'a lago_scheme \<Rightarrow> bool" where
  "can_run q s \<longleftrightarrow> devs_ok s \<and> mapped s Intc 16 \<and> mapped s Sts 4 \<and> ptrs s Cma = Mapped 4194304
     \<and> (fToStdout (args s) \<or> fFirstTime s \<or> out_ok s) \<and> 0 \<le> position s \<and> position s \<le> q (pos_looks s)"

lemma gral_rmw_looks: "gral_rmw env f s = Inr (u, s') \<Longrightarrow> pos_looks s' = pos_looks s"
  by (auto simp: gral_rmw_def dev_read_def dev_write_def dev_check_def reg_store_def pos_looks_def cm_defs split: if_splits ptr.splits)

lemma gral_script_looks: "seq_c (map (gral_rmw env) fs) s = Inr (u, s') \<Longrightarrow> pos_looks s' = pos_looks s"
  by (induction fs arbitrary: s) (auto simp: cm_inv dest!: gral_rmw_looks split: sum.splits)

lemma run_daq_ends:
  assumes "env_ok env bmp" "shows_position env q" "writer_in_mapping q" "\<forall>e \<in> set evs. ev_ok e" "can_run q s" "Sigint \<in> set evs"
  shows "\<exists>s'. run_daq env bmp evs s = Inr ((), s')"
proof -
  have m: "mapped (daq_start s) Cfg 92" using assms(5) by (simp add: can_run_def devs_ok_def mapped_def)
  obtain t1 where t1: "seq_c (map (gral_rmw env) daq_on) (daq_start s) = Inr ((), t1)" "gral_view t1 = gral_view (daq_start s)"
    using gral_script [OF m, of env daq_on] by blast
  have "pos_looks t1 = pos_looks s" using gral_script_looks [OF t1(1)] by (simp add: pos_looks_def)
  then have "daq_ready q 0 t1"
    using t1(2) assms(5) by (auto simp: gral_view_def can_run_def daq_ready_def mem_at_def devs_ok_def mapped_def out_ok_def rb_at_def ring_ok_def)
  then obtain t2 where t2: "daq_loop env bmp evs t1 = Inr ((), t2)" using daq_loop_ends [OF assms(1-4)] assms(6) by blast
  have "ptrs t2 = ptrs t1" using presD [OF pres_daq_loop t2] by simp
  then have "mapped t2 Cfg 92" using m t1(2) by (simp add: mapped_def gral_view_def)
  then show ?thesis using gral_script [of t2 env daq_off] t1(1) t2 by (auto simp: run_daq_eq then_c_def)
qed

text \<open>
  A concrete run: the writer is at 8 bytes, the interrupt is pending, the sensor answers zeros, and
  the signal arrives after one pass.
\<close>

definition daq_lenv :: lenv where
  "daq_lenv = sample_lenv\<lparr>le_z := sample_env\<lparr>hw_read := (\<lambda>log d off. if d = Sts \<or> d = Intc then 1 else 0)\<rparr>,
     le_b := sample_benv\<lparr>be_bus := (\<lambda>_. 0)\<rparr>\<rparr>"

definition daq_lago :: lago where
  "daq_lago = sample_lago\<lparr>args := sample_args\<lparr>fToStdout := True\<rparr>, ptrs := (\<lambda>_. Mapped 4194304)\<rparr>"

definition daq_evs :: "daq_ev list" where
  "daq_evs = [Pass \<lparr>irq_wr = 4, irq_poll = 1, irq_rd = 4\<rparr> (\<lambda>_. 0), Sigint]"

lemma zero_readings: "\<exists>b. bmp_B5 sample_bmp 0 = Inr b" "\<exists>p. bmp_pressure sample_bmp 0 0 = Inr p"
proof -
  have "\<not> isl (bmp_B5 sample_bmp 0)" by code_simp
  then show "\<exists>b. bmp_B5 sample_bmp 0 = Inr b" by (metis sum.collapse(2))
  have "\<not> isl (bmp_pressure sample_bmp 0 0)" by code_simp
  then show "\<exists>p. bmp_pressure sample_bmp 0 0 = Inr p" by (metis sum.collapse(2))
qed

lemma daq_env_ok: "env_ok daq_lenv (Some sample_bmp)"
  using zero_readings
  by (auto simp: env_ok_def daq_lenv_def sample_lenv_def bmp180_temperature_def bmp180_pressure_def bmp180_read_raw_temperature_def
      bmp180_read_raw_pressure_def i2c_do_def i2c_read_def sample_benv_def swap16_def shr_checked_def sample_bmp_def cm_defs Let_def)

lemma daq_lenv_position: "shows_position daq_lenv (\<lambda>_. 1)" "writer_in_mapping (\<lambda>_. 1)"
  by (simp_all add: shows_position_def writer_in_mapping_def mono_def daq_lenv_def of_u32_def)

lemma daq_lago_ok: "writer_ok daq_lenv 8388608" "can_run (\<lambda>_. 1) daq_lago" "in_ring 8388608 (position daq_lago)"
  "\<forall>e \<in> set daq_evs. ev_ok e" "Sigint \<in> set daq_evs" "mapped daq_lago Cfg 92"
  by (simp_all add: writer_ok_def daq_lenv_def in_ring_def of_u32_def daq_lago_def sample_lago_def sample_uart_def zio.defs uart_st.defs
      can_run_def devs_ok_def mapped_def daq_evs_def irq_ok_def)

lemma daq_lago_run: "\<exists>s'. run_daq daq_lenv (Some sample_bmp) daq_evs daq_lago = Inr ((), s')"
  using run_daq_ends [OF daq_env_ok daq_lenv_position daq_lago_ok(4,2,5)] .

text \<open>Of three calls the third is past the mapping; the first two return.\<close>

theorem readout_past_mapping_witness:
  "(\<exists>s'. readout daq_lenv (Some sample_bmp) [(\<lambda>_. 0, 2), (\<lambda>_. 0, 524288)] daq_lago = Inr ((), s'))
    \<and> (\<nexists>s'. readout daq_lenv (Some sample_bmp) [(\<lambda>_. 0, 2), (\<lambda>_. 0, 524288), (\<lambda>_. 0, 524289)] daq_lago = Inr ((), s'))"
proof -
  obtain addr where "os_cma (le_z daq_lenv) 4194304 = Some addr" by (simp add: daq_lenv_def sample_lenv_def sample_env_def)
  moreover have "1 \<le> os_open (le_z daq_lenv) ''/dev/cma''" "os_mmap (le_z daq_lenv) ''/dev/cma'' 4194304 0" "pagesize (le_z daq_lenv) = 4096"
    by (simp_all add: daq_lenv_def sample_lenv_def sample_env_def)
  moreover have "devs_ok daq_lago" "fToStdout (args daq_lago) \<or> fFirstTime daq_lago \<or> out_ok daq_lago"
    using daq_lago_ok(2) by (simp_all add: can_run_def)
  ultimately show ?thesis
    using readout_past_mapping [OF daq_env_ok, of addr daq_lago "[(\<lambda>_. 0, 2), (\<lambda>_. 0, 524288)]"]
      readout_past_mapping [OF daq_env_ok, of addr daq_lago "[(\<lambda>_. 0, 2), (\<lambda>_. 0, 524288), (\<lambda>_. 0, 524289)]"] by auto
qed

theorem acquisition_restores_control_witness:
  "\<exists>s'. run_daq daq_lenv (Some sample_bmp) daq_evs daq_lago = Inr ((), s') \<and> cfg_mem s' (cfg_off CFG_RESET_GRAL) AND 7 = 0"
proof -
  obtain s' where r: "run_daq daq_lenv (Some sample_bmp) daq_evs daq_lago = Inr ((), s')" using daq_lago_run by blast
  from acquisition_restores_control [OF daq_lago_ok(6) r] have "cfg_mem s' (cfg_off CFG_RESET_GRAL) AND 7 = 0"
    by (simp add: and.assoc del: cfg_off.simps)
  with r show ?thesis by blast
qed

theorem acquisition_contiguous_witness:
  "\<exists>s' n. run_daq daq_lenv (Some sample_bmp) daq_evs daq_lago = Inr ((), s')
     \<and> cma_reads s' = cma_reads daq_lago @ map (\<lambda>j. word_of_nat (4 * j mod 8388608)) [0..<n]"
proof -
  obtain s' where r: "run_daq daq_lenv (Some sample_bmp) daq_evs daq_lago = Inr ((), s')" using daq_lago_run by blast
  from acquisition_contiguous [OF daq_lago_ok(1,3,6) r] r show ?thesis by blast
qed

end
