(* ===== verification/Daq_Clock.thy ===== *)
theory Daq_Clock
  imports Daq_Run
begin

text \<open>
  The clock of a run without GPS and the hourly data files: every second word from the FPGA moves the
  clock by one second, a new file is opened exactly at the full hours, and at most one file is open.
\<close>

section \<open>What keeps the clock and the list of files\<close>

type_synonym clock_state = "int \<times> tm \<times> bool \<times> string list \<times> bool list \<times> handle \<times> args"

definition clock_view :: "'a lago_scheme \<Rightarrow> clock_state" where
  "clock_view s = (fileTime s, fileDate s, falseGPS s, map f_path (files s), map f_open (files s), fhout s, args s)"

named_theorems clock_frame "operations that leave the clock and the files alone"

lemma clock_view_update [simp]:
  "clock_view (s\<lparr>c_out := a\<rparr>) = clock_view s" "clock_view (s\<lparr>c_err := a\<rparr>) = clock_view s"
  "clock_view (s\<lparr>time_calls := n\<rparr>) = clock_view s" "clock_view (s\<lparr>i2c := lg\<rparr>) = clock_view s"
  "clock_view (s\<lparr>mtd := m\<rparr>) = clock_view s" "clock_view (s\<lparr>trig_cnt := xs\<rparr>) = clock_view s"
  "clock_view (s\<lparr>hack := k\<rparr>) = clock_view s" "clock_view (s\<lparr>r1 := k\<rparr>) = clock_view s" "clock_view (s\<lparr>r2 := k\<rparr>) = clock_view s"
  "clock_view (s\<lparr>gps_lat := q\<rparr>) = clock_view s" "clock_view (s\<lparr>gps_lon := q\<rparr>) = clock_view s" "clock_view (s\<lparr>gps_alt := q\<rparr>) = clock_view s"
  "clock_view (s\<lparr>accs := ac\<rparr>) = clock_view s" "clock_view (s\<lparr>current := cu\<rparr>) = clock_view s"
  by (simp_all add: clock_view_def)

lemma app_text_view: "k < length fs \<Longrightarrow> map f_path (fs[k := app_text t (fs ! k)]) = map f_path fs
    \<and> map f_open (fs[k := app_text t (fs ! k)]) = map f_open fs"
  by (simp add: app_text_def list_eq_iff_nth_eq nth_list_update)

lemma clock_out_c [clock_frame]: "pres (\<lambda>s. clock_view s = c) (out_c t)"
  using app_text_view by (fastforce simp: pres_def out_c_def clock_view_def split: handle.splits if_splits)

lemma clock_simple [clock_frame]:
  "pres (\<lambda>s. clock_view s = c) (printf t)" "pres (\<lambda>s. clock_view s = c) (eprintf t)"
  "pres (\<lambda>s. clock_view s = c) (time_c env)" "pres (\<lambda>s. clock_view s = c) (i2c_c m)" "pres (\<lambda>s. clock_view s = c) (mtd_c f)"
  by (auto simp: pres_def printf_Inr lago_c_Inr mtd_c_def basic_c_Inr)

lemma clock_dev_read [clock_frame]: "pres (\<lambda>s. clock_view s = c) (dev_read env d off)"
  by (auto simp: pres_def dev_read_def dev_check_def cm_defs split: ptr.splits if_splits)

lemma clock_voltage [clock_frame]:
  "pres (\<lambda>s. clock_view s = c) (get_voltage env off)" "pres (\<lambda>s. clock_view s = c) (get_temp_AD592 env off)"
  unfolding get_voltage_def get_temp_AD592_def by (intro pres_intro clock_frame)+

lemma clock_header: "pres (\<lambda>s. clock_view s = c) (file_header env t)"
  unfolding file_header_def out_cfg_d_def out_cfg_mV_def by (intro pres_intro clock_frame) (auto intro!: pres_intro clock_frame)

lemma clock_slow: "pres (\<lambda>s. clock_view s = c) (slow_control env)"
  unfolding slow_control_def by (intro pres_intro clock_frame pres_mod) simp

definition is_pps :: "u32 \<Rightarrow> bool" where
  "is_pps wo \<longleftrightarrow> uint (drop_bit 27 wo) = 0x1B"

lemma clock_other_word: "\<not> is_pps wo \<Longrightarrow> pres (\<lambda>s. clock_view s = c) (handle_word env bmp wo)"
  unfolding handle_word_def meta_word_def sample_word_def trigger_word_def counter_word_def gps_word_def unknown_word_def Let_def is_pps_def
  by (intro pres_intro clock_frame pres_mod) simp_all

lemma pps_is_meta: "is_pps wo \<Longrightarrow> handle_word env bmp wo = pps_word env wo"
proof -
  assume "is_pps wo"
  then have "uint wo div 2 ^ 27 = 27" by (simp add: is_pps_def drop_bit_eq_div uint_div)
  moreover have "uint wo div 2 ^ 30 = uint wo div 2 ^ 27 div 8" by (simp add: div_mult2_eq [symmetric])
  ultimately have "uint (drop_bit 30 wo) = 3" by (simp add: drop_bit_eq_div uint_div)
  then show ?thesis using \<open>is_pps wo\<close> by (simp add: handle_word_def meta_word_def is_pps_def Let_def)
qed

section \<open>One second\<close>

text \<open>Closing the current file and opening the next.\<close>

fun closed_flags :: "handle \<Rightarrow> bool list \<Rightarrow> bool list" where
  "closed_flags (HFile k) os = os[k := False]"
| "closed_flags HNull os = os"
| "closed_flags HStdout os = os"

lemma length_closed_flags [simp]: "length (closed_flags h os) = length os"
  by (cases h) simp_all

definition rotated :: "lenv \<Rightarrow> 'a lago_scheme \<Rightarrow> clock_state" where
  "rotated env s = (let t = timegm (fileDate s); d = gmtime t in
     (t, d, falseGPS s, map f_path (files s) @ [file_name (charFile (args s)) (falseGPS s) d ''.dat''],
      closed_flags (fhout s) (map f_open (files s)) @ [True],
      HFile (length (files s)), args s))"

lemma out_c_null: "fhout s = HNull \<Longrightarrow> out_c t s = Inl NullDeref"
  by (simp add: out_c_def)

lemma close_view: "map f_path (fs[k := (fs ! k)\<lparr>f_open := False\<rparr>]) = map f_path fs"
    "map f_open (fs[k := (fs ! k)\<lparr>f_open := False\<rparr>]) = (map f_open fs)[k := False]"
  by (cases "k < length fs"; simp add: list_eq_iff_nth_eq nth_list_update list_update_beyond)+

lemma new_file_view:
  assumes "new_file env s = Inr (r, s')" "\<not> fToStdout (args s)"
  shows "clock_view s' = rotated env s"
proof -
  let ?s = "s\<lparr>time_calls := Suc (time_calls s)\<rparr>"
  obtain v t where n: "next_file env ?s = Inr (v, t)" and h: "\<exists>v. file_header env (le_time env (time_calls s)) t = Inr (v, s')"
    using assms by (auto simp: new_file_def cm_inv)
  have "clock_view s' = clock_view t" using presD [OF clock_header] h by blast
  have "fhout t \<noteq> HNull"
  proof
    assume "fhout t = HNull"
    then show False using h by (auto simp: file_header_def header_text_def cm_defs out_c_null)
  qed
  moreover have "fhout t \<noteq> HNull \<Longrightarrow> clock_view t = rotated env s"
    using n by (auto simp: close_view next_file_def close_out_def sync_date_def open_out_def cm_defs rotated_def clock_view_def Let_def
        split: handle.splits if_splits)
  ultimately show ?thesis using \<open>clock_view s' = clock_view t\<close> by simp
qed

text \<open>The clock reads \<open>t\<close>, in a run without GPS that writes files.\<close>

definition clock_at :: "int \<Rightarrow> 'a lago_scheme \<Rightarrow> bool" where
  "clock_at t s \<longleftrightarrow> fileDate s = gmtime t \<and> falseGPS s \<and> \<not> fToStdout (args s)"

definition one_open :: "'a lago_scheme \<Rightarrow> bool" where
  "one_open s \<longleftrightarrow> (\<forall>k < length (files s). f_open (files s ! k) \<longrightarrow> fhout s = HFile k)"

lemma one_open_view: "clock_view s = clock_view s' \<Longrightarrow> one_open s = one_open s'"
proof -
  assume v: "clock_view s = clock_view s'"
  then have l: "length (files s) = length (files s')" by (auto simp: clock_view_def dest: map_eq_imp_length_eq)
  have "map f_open (files s) = map f_open (files s')" using v by (simp add: clock_view_def)
  then have "\<forall>k < length (files s). f_open (files s ! k) = f_open (files s' ! k)" using l by (metis nth_map)
  then show ?thesis using v l by (simp add: one_open_def clock_view_def)
qed

lemma one_open_rotated:
  assumes "clock_view s' = rotated env s" "one_open s"
  shows "one_open s'"
proof -
  let ?o = "closed_flags (fhout s) (map f_open (files s))"
  have o: "map f_open (files s') = ?o @ [True]" "fhout s' = HFile (length (files s))"
    using assms(1) by (auto simp: clock_view_def rotated_def Let_def)
  have l: "length (files s') = Suc (length (files s))" using arg_cong [OF o(1), of length] by simp
  have n: "\<not> ?o ! k" if "k < length (files s)" for k
  proof (cases "fhout s = HFile k")
    case True
    then show ?thesis using that by simp
  next
    case False
    then show ?thesis using assms(2) that by (cases "fhout s") (auto simp: one_open_def)
  qed
  show ?thesis unfolding one_open_def
  proof (intro allI impI)
    fix k
    assume k: "k < length (files s')" "f_open (files s' ! k)"
    then have "(?o @ [True]) ! k" using o(1) by (metis nth_map)
    then have "k = length (files s)" using k(1) l n by (auto simp: nth_append less_Suc_eq split: if_splits)
    then show "fhout s' = HFile k" using o(2) by simp
  qed
qed

lemma hour_end: "tm_sec (gmtime t) = 59 \<and> tm_min (gmtime t) = 59 \<longleftrightarrow> (t + 1) mod 3600 = 0"
proof -
  have f: "tm_sec (gmtime t) = t mod 86400 mod 60" "tm_min (gmtime t) = t mod 86400 mod 3600 div 60"
    by (simp_all add: gmtime_def Let_def del: mod_mod_trivial split: prod.splits)
  let ?m = "t mod 3600"
  have c: "t mod 86400 mod 3600 = ?m" "t mod 86400 mod 60 = ?m mod 60" by (simp_all add: mod_mod_cancel)
  have m: "60 * (?m div 60) + ?m mod 60 = ?m" by (rule mult_div_mod_eq)
  have r: "0 \<le> ?m" "?m < 3600" by simp_all
  have "(t + 1) mod 3600 = (?m + 1) mod 3600" by (rule mod_add_left_eq [symmetric])
  also have "\<dots> = (if ?m = 3599 then 0 else ?m + 1)" using r by auto
  finally have e: "(t + 1) mod 3600 = 0 \<longleftrightarrow> ?m = 3599" using r by auto
  have "?m mod 60 = 59 \<and> ?m div 60 = 59 \<longleftrightarrow> ?m = 3599"
  proof
    assume "?m mod 60 = 59 \<and> ?m div 60 = 59"
    then show "?m = 3599" using m by linarith
  next
    assume "?m = 3599"
    then show "?m mod 60 = 59 \<and> ?m div 60 = 59" by (simp only:) simp
  qed
  then show ?thesis unfolding f c e .
qed

text \<open>The name of the file of an hour, and of the files of a stretch of time.\<close>

definition hour_file :: "args \<Rightarrow> int \<Rightarrow> string" where
  "hour_file a h = file_name (charFile a) True (gmtime (3600 * h)) ''.dat''"

definition hour_files :: "args \<Rightarrow> int \<Rightarrow> int \<Rightarrow> string list" where
  "hour_files a t t' = map (hour_file a) [t div 3600 + 1..t' div 3600]"

lemma hour_files_second:
  "hour_files a t (t + 1) = (if (t + 1) mod 3600 = 0 then [file_name (charFile a) True (gmtime (t + 1)) ''.dat''] else [])"
proof -
  have d: "(t + 1) div 3600 = t div 3600 + (if (t + 1) mod 3600 = 0 then 1 else 0)"
    using div_step [of 3600 "t + 1"] by (simp add: dvd_eq_mod_eq_0)
  show ?thesis
  proof (cases "(t + 1) mod 3600 = 0")
    case True
    then have "3600 * (t div 3600 + 1) = t + 1" using mult_div_mod_eq [of 3600 "t + 1"] d by (simp only: simp_thms if_True add_0_right)
    then have "hour_file a (t div 3600 + 1) = file_name (charFile a) True (gmtime (t + 1)) ''.dat''" by (simp only: hour_file_def)
    then show ?thesis using True unfolding hour_files_def d by (simp only: if_True upto_rec1 [OF order_refl]) simp
  next
    case False
    then show ?thesis unfolding hour_files_def d by (simp only: if_False add_0_right) simp
  qed
qed

lemma hour_files_append:
  assumes "t \<le> t'" "t' \<le> t''"
  shows "hour_files a t t' @ hour_files a t' t'' = hour_files a t t''"
proof -
  have d: "t div 3600 \<le> t' div 3600" "t' div 3600 \<le> t'' div 3600" using assms by (auto intro: zdiv_mono1)
  have "[t div 3600 + 1..t'' div 3600] = [t div 3600 + 1..t' div 3600] @ [t' div 3600 + 1..t'' div 3600]"
  proof (cases "t' div 3600 + 1 \<le> t'' div 3600")
    case True
    then show ?thesis using upto_split1 [of "t div 3600 + 1" "t' div 3600 + 1" "t'' div 3600"] d(1) by simp
  next
    case False
    then have "t'' div 3600 = t' div 3600" using d(2) by linarith
    then show ?thesis by simp
  qed
  then show ?thesis by (simp add: hour_files_def)
qed

lemma pps_second:
  assumes "pps_word env wo s = Inr (u, s')" "clock_at t s" "in_s32 t" "in_s32 (t + 1)"
  shows "clock_at (t + 1) s' \<and> fileTime s' = t + 1 \<and> map f_path (files s') = map f_path (files s) @ hour_files (args s) t (t + 1)
    \<and> args s' = args s \<and> (one_open s \<longrightarrow> one_open s')"
proof -
  let ?s = "s\<lparr>fileDate := tm_tick (gmtime t)\<rparr>" and ?hour = "(t + 1) mod 3600 = 0"
  have c: "fileDate s = gmtime t" "falseGPS s" "\<not> fToStdout (args s)" using assms(2) by (auto simp: clock_at_def)
  have enc: "timegm (tm_tick (gmtime t)) = t + 1" "timegm (gmtime (t + 1)) = t + 1"
    using utc.enc_tick [OF assms(3,4)] utc.enc_dec [OF assms(4)] by auto
  have hour: "(tm_sec (gmtime t) + 1 = 60 \<and> tm_min (gmtime t) = 59) = ?hour" using hour_end [of t] by auto
  obtain v t1 where t1: "tick_pc env s = Inr (v, t1)"
    and rest: "then_c (mtd_c (\<lambda>m. m\<lparr>mtd_seconds := wrap32 (mtd_seconds m + 1)\<rparr>))
     (then_c sync_date
     (bind_c (get_c (\<lambda>s. date_line (fileDate s) (fileTime s) (uint (wo AND 0x03FFFFFF)))) (\<lambda>l.
      then_c (out_c l) (slow_control env)))) t1 = Inr (u, s')"
    using assms(1) c(2) unfolding pps_word_def by (auto simp: bind_c_Inr then_c_Inr get_c_def)
  have view1: "clock_view t1 = (if ?hour then rotated env ?s else clock_view (?s\<lparr>fileTime := t + 1, fileDate := gmtime (t + 1)\<rparr>))"
  proof (cases ?hour)
    case True
    then have "\<exists>r. new_file env ?s = Inr (r, t1)"
      using t1 c(1,3) hour by (auto simp: tick_pc_def new_hour_def cm_inv date_c_def if_c_def tm_tick_def)
    then show ?thesis using True new_file_view [of env ?s _ t1] c(3) by auto
  next
    case False
    then show ?thesis using t1 c(1) hour enc by (auto simp: tick_pc_def cm_inv date_c_def tm_tick_def sync_date_def Let_def)
  qed
  define t2 where "t2 = (let d = timegm (fileDate t1) in t1\<lparr>mtd := (mtd t1)\<lparr>mtd_seconds := wrap32 (mtd_seconds (mtd t1) + 1)\<rparr>,
    fileTime := d, fileDate := gmtime d\<rparr>)"
  have "clock_view s' = clock_view t2"
    using rest presD [OF clock_slow, of env] presD [OF clock_out_c]
    by (fastforce simp: then_c_Inr bind_c_Inr basic_c_Inr mtd_c_def sync_date_def t2_def Let_def)
  moreover have "clock_view t2 = (if ?hour then rotated env ?s else clock_view (?s\<lparr>fileTime := t + 1, fileDate := gmtime (t + 1)\<rparr>))"
    using view1 enc by (auto simp: t2_def clock_view_def rotated_def Let_def split: if_splits)
  ultimately have view: "clock_view s' = (if ?hour then rotated env ?s else clock_view (?s\<lparr>fileTime := t + 1, fileDate := gmtime (t + 1)\<rparr>))" by simp
  have "one_open s \<longrightarrow> one_open s'"
    using one_open_rotated [of s' env ?s] one_open_view [of s' "?s\<lparr>fileTime := t + 1, fileDate := gmtime (t + 1)\<rparr>"] view
    by (auto simp: one_open_def split: if_splits)
  moreover have "clock_at (t + 1) s' \<and> fileTime s' = t + 1 \<and> map f_path (files s') = map f_path (files s) @ hour_files (args s) t (t + 1) \<and> args s' = args s"
    using view c enc by (auto simp: clock_view_def rotated_def clock_at_def hour_files_second Let_def split: if_splits)
  ultimately show ?thesis by blast
qed

section \<open>Any stream of words\<close>

lemma words_clock:
  assumes "for_c ws (handle_word env bmp) s = Inr (u, s')" "clock_at t s" "in_s32 t"
    and "in_s32 (t + int (length (filter is_pps ws)))" "one_open s"
  shows "clock_at (t + int (length (filter is_pps ws))) s' \<and> one_open s' \<and> args s' = args s
    \<and> map f_path (files s') = map f_path (files s) @ hour_files (args s) t (t + int (length (filter is_pps ws)))"
  using assms
proof (induction ws arbitrary: s t)
  case Nil
  then show ?case by (simp add: hour_files_def)
next
  case (Cons w ws)
  let ?n = "int (length (filter is_pps ws))"
  obtain v t1 where w: "handle_word env bmp w s = Inr (v, t1)" and rest: "for_c ws (handle_word env bmp) t1 = Inr (u, s')"
    using Cons.prems(1) by (auto split: sum.splits)
  show ?case
  proof (cases "is_pps w")
    case True
    have r: "in_s32 (t + 1)" "in_s32 (t + 1 + ?n)" using Cons.prems(3,4) True by (auto simp: in_s32_def)
    have p: "pps_word env w s = Inr (v, t1)" using w unfolding pps_is_meta [OF True] .
    note s1 = pps_second [OF p Cons.prems(2,3) r(1)]
    then have "clock_at (t + 1) t1" "one_open t1" using Cons.prems(5) by auto
    from Cons.IH [OF rest this(1) r this(2)] s1 hour_files_append [of t "t + 1" "t + 1 + ?n" "args s"]
    show ?thesis using True by (simp add: algebra_simps)
  next
    case False
    have v: "clock_view t1 = clock_view s" using presD [OF clock_other_word [OF False] w] by simp
    then have "clock_at t t1" "one_open t1" using Cons.prems(2,5) one_open_view [OF v] by (auto simp: clock_at_def clock_view_def)
    from Cons.IH [OF rest this(1) Cons.prems(3) _ this(2)] v show ?thesis using False Cons.prems(4) by (simp add: clock_view_def)
  qed
qed

text \<open>
  C4. In a run without GPS that writes files, after any stream of words the clock has advanced by exactly one
  second per second word, leap years and month ends included, the data files opened on the
  way are exactly one for each full hour passed, named after that hour, and all files but the current one are closed.
\<close>

theorem seconds_and_hourly_files:
  assumes "for_c ws (handle_word env bmp) s = Inr (u, s')" "clock_at t s" "in_s32 t"
    and "in_s32 (t + int (length (filter is_pps ws)))" "one_open s"
  shows "fileDate s' = gmtime (t + int (length (filter is_pps ws))) \<and> one_open s'
    \<and> map f_path (files s') = map f_path (files s) @ hour_files (args s) t (t + int (length (filter is_pps ws)))"
  using words_clock [OF assms] by (auto simp: clock_at_def)

definition file_lago :: lago where
  "file_lago = daq_lago\<lparr>args := sample_args\<lparr>charFile := ''run''\<rparr>, falseGPS := True, fileDate := gmtime 3598,
     files := [\<lparr>f_path = ''run_nogps_1970_01_01_00h00.dat'', f_text = [], f_open = True\<rparr>], fhout := HFile 0\<rparr>"

definition second_words :: "u32 list" where
  "second_words = [0xD8000000, 0x00010002, 0xD8000000]"

theorem seconds_and_hourly_files_witness:
  "\<exists>s'. for_c second_words (handle_word daq_lenv (Some sample_bmp)) file_lago = Inr ((), s')
    \<and> map f_path (files s') = [''run_nogps_1970_01_01_00h00.dat'', ''run_nogps_1970_01_01_01h00.dat'']"
proof -
  have "ready file_lago" by (simp add: file_lago_def daq_lago_def ready_def devs_ok_def mapped_def out_ok_def)
  then obtain u s' where "for_c second_words (handle_word daq_lenv (Some sample_bmp)) file_lago = Inr (u, s')"
    using runsD [OF runs_for [of second_words ready "handle_word daq_lenv (Some sample_bmp)", OF runs_handle_word [OF daq_env_ok]]] by blast
  then have r: "for_c second_words (handle_word daq_lenv (Some sample_bmp)) file_lago = Inr ((), s')" by (cases u) blast
  have n: "length (filter is_pps second_words) = 2" by code_simp
  have "clock_at 3598 file_lago" "one_open file_lago" "in_s32 3598" "in_s32 (3598 + int (length (filter is_pps second_words)))"
    by (simp_all add: clock_at_def one_open_def file_lago_def sample_args_def in_s32_def n)
  note f = seconds_and_hourly_files [OF r this(1,3,4,2), unfolded n]
  have "hour_files (args file_lago) 3598 3600 = [''run_nogps_1970_01_01_01h00.dat'']"
    unfolding file_lago_def by (simp add: hour_files_def) code_simp
  then show ?thesis using r f by (auto simp: file_lago_def)
qed

text \<open>
  A run with GPS starts its clock before 1970: the start date is set with the calendar year 2018 in a field that
  counts from 1900, the date is outside the range of \<open>time_t\<close>, and the first file is named after the last
  hour of 1969.
\<close>

lemma gps_run_starts_in_1969:
  assumes "first_call env s = Inr (u, s')" "\<not> fToStdout (args s)" "mapped s Cfg 92"
    and "drop_bit 4 (cfg_mem s (cfg_off CFG_RESET_GRAL)) AND 1 = 0" "\<not> falseGPS s"
  shows "fileTime s' = - 1 \<and> map f_path (files s') = map f_path (files s) @ [take 1023 (charFile (args s) @ ''_1969_12_31_23h00.dat'')]"
proof -
  have g: "timegm (gps_start_date d) = - 1" for d
    by (simp add: timegm_def gps_start_date_def tm_seconds_def in_s32_def days_before_year_def leaps_to_def numeral_eq_Suc month_len_def leap_def)
  have n: "file_name b False (gmtime (- 1)) ''.dat'' = take 1023 (b @ ''_1969_12_31_23h00.dat'')" for b
  proof -
    have "gmtime (- 1) = \<lparr>tm_sec = 59, tm_min = 59, tm_hour = 23, tm_mday = 31, tm_mon = 11, tm_year = 69\<rparr>" by code_simp
    moreover have "fmt_0d 4 1969 = ''1969''" "fmt_0d 2 12 = ''12''" "fmt_0d 2 31 = ''31''" "fmt_0d 2 23 = ''23''" by code_simp+
    ultimately show ?thesis by (simp add: file_name_def)
  qed
  obtain t r t' where t: "new_file env t = Inr (r, t')" "s' = t'\<lparr>fFirstTime := False\<rparr>" "fileDate t = gmtime (- 1)" "falseGPS t = falseGPS s"
      "files t = files s" "args t = args s"
    using assms(1,3,4) by (auto simp: first_call_def cm_inv sync_date_def date_c_def g Let_def simp del: cfg_off.simps)
  have "timegm (gmtime (- 1)) = - 1" using utc.enc_dec [of "- 1"] by (simp add: in_s32_def)
  then show ?thesis using new_file_view [OF t(1)] t(2-) assms(2,5) n by (simp add: clock_view_def rotated_def Let_def)
qed

end
