(* ===== verification/Daq_Names.thy ===== *)
theory Daq_Names
  imports Daq_Clock "HOL-Library.List_Lexorder" "HOL-Library.Char_ord"
begin

text \<open>
  The names of the data files: written with a fixed number of digits from the year down to the hour,
  they sort in the order of time, so the files of a run are distinct and a listing of the directory
  shows them in order.
\<close>

section \<open>Numbers with a fixed number of digits\<close>

fun dec :: "nat \<Rightarrow> int \<Rightarrow> string" where
  "dec 0 n = []"
| "dec (Suc w) n = dec w (n div 10) @ [digit_chr (n mod 10)]"

lemma length_dec [simp]: "length (dec w n) = w"
  by (induction w n rule: dec.induct) simp_all

lemma dec_0: "dec w 0 = replicate w CHR ''0''"
proof (induction w)
  case (Suc w)
  have "digit_chr 0 = CHR ''0''" by code_simp
  then show ?case using Suc by (simp add: replicate_append_same)
qed simp

lemma dec_pad: "0 \<le> n \<Longrightarrow> n < 10 ^ Suc w \<Longrightarrow> pad_left CHR ''0'' (Suc w) (digits 10 n) = dec (Suc w) n"
proof (induction w arbitrary: n)
  case 0
  then show ?case by (simp add: digits.simps [of 10 n] pad_left_def)
next
  case (Suc w)
  show ?case
  proof (cases "n < 10")
    case True
    then have "n div 10 = 0" "n mod 10 = n" using Suc.prems by simp_all
    then show ?thesis using True by (simp add: digits.simps [of 10 n] pad_left_def dec_0 del: dec.simps(2) add: dec.simps(2) [of "Suc w"])
  next
    case False
    have "0 \<le> n div 10" "n div 10 < 10 ^ Suc w" using Suc.prems by (simp_all add: div_less_iff_less_mult mult.commute)
    from Suc.IH [OF this] have "pad_left CHR ''0'' (Suc w) (digits 10 (n div 10)) = dec (Suc w) (n div 10)" .
    then show ?thesis using False by (simp add: digits.simps [of 10 n] pad_left_def)
  qed
qed

lemma fmt_0d_dec: "0 \<le> n \<Longrightarrow> n < 10 ^ Suc w \<Longrightarrow> fmt_0d (Suc w) n = dec (Suc w) n"
  by (simp add: fmt_0d_def dec_pad)

section \<open>Order\<close>

lemma append_less1: "length xs = length ys \<Longrightarrow> xs < ys \<Longrightarrow> xs @ us < ys @ (vs :: string)"
  unfolding list_less_def by (rule lexord_sufI) simp_all

lemma append_less2: "us < vs \<Longrightarrow> xs @ us < xs @ (vs :: string)"
  unfolding list_less_def by (rule lexord_append_leftI)

lemma digit_chr_less: "0 \<le> a \<Longrightarrow> a < b \<Longrightarrow> b < 10 \<Longrightarrow> digit_chr a < digit_chr b"
proof -
  assume "0 \<le> a" "a < b" "b < 10"
  then have "a \<in> {0..9}" "b \<in> {0..9}" "a < b" by auto
  moreover have "\<forall>a \<in> set [0..9]. \<forall>b \<in> set [0..9]. a < b \<longrightarrow> digit_chr a < digit_chr b" by code_simp
  ultimately show ?thesis by simp
qed

lemma dec_less: "0 \<le> n \<Longrightarrow> n < m \<Longrightarrow> m < 10 ^ w \<Longrightarrow> dec w n < dec w m"
proof (induction w arbitrary: n m)
  case (Suc w)
  show ?case
  proof (cases "n div 10 = m div 10")
    case True
    have "n mod 10 < m mod 10" using True Suc.prems(2) div_mult_mod_eq [of n 10] div_mult_mod_eq [of m 10] by linarith
    then have "[digit_chr (n mod 10)] < [digit_chr (m mod 10)]" using digit_chr_less [of "n mod 10" "m mod 10"] by simp
    then show ?thesis using True append_less2 by simp
  next
    case False
    then have "n div 10 < m div 10" using zdiv_mono1 [of n m 10] Suc.prems(2) by simp
    moreover have "m div 10 < 10 ^ w" using Suc.prems(3) by (simp add: div_less_iff_less_mult mult.commute)
    ultimately have "dec w (n div 10) < dec w (m div 10)" using Suc.IH Suc.prems(1) by simp
    then show ?thesis by (simp add: append_less1)
  qed
qed simp

section \<open>The calendar is in order\<close>

lemma month_len_pos: "28 \<le> month_len y m"
  by (simp add: month_len_def)

lemma year_len_pos: "365 \<le> year_len y"
  by (simp add: year_len_def)

lemma days_before_year_mono: "y \<le> y' \<Longrightarrow> days_before_year y \<le> days_before_year y'"
proof (induction y' rule: int_ge_induct)
  case (step i)
  then show ?case using days_before_year_step [of i] year_len_pos [of i] by simp
qed simp

lemma days_before_month_mono: "m \<le> m' \<Longrightarrow> days_before_month y m \<le> days_before_month y m'"
proof (induction m' rule: dec_induct)
  case (step i)
  then show ?case using month_len_pos [of y i] by simp
qed simp

definition valid_date :: "tm \<Rightarrow> bool" where
  "valid_date d \<longleftrightarrow> 0 \<le> tm_mon d \<and> tm_mon d < 12 \<and> 1 \<le> tm_mday d \<and> tm_mday d \<le> month_len (tm_year d + 1900) (nat (tm_mon d))
     \<and> 0 \<le> tm_hour d \<and> tm_hour d < 24"

lemma gmtime_valid: "valid_date (gmtime t)"
proof -
  obtain y d where y: "find_year 1970 (t div 86400) = (y, d)" by (cases "find_year 1970 (t div 86400)")
  obtain m k where m: "find_month y [0..<12] d = (m, k)" by (cases "find_month y [0..<12] d")
  have "m < 12 \<and> 0 \<le> k \<and> k < month_len y m" using find_month_sum [of y 0 d m k] m find_year_sum [OF y] by simp
  moreover have "tm_mday (gmtime t) = k + 1" "tm_mon (gmtime t) = int m" "tm_year (gmtime t) = y - 1900"
    by (simp_all add: gmtime_def Let_def y m)
  ultimately show ?thesis using gmtime_range(3) [of t] by (simp add: valid_date_def)
qed

text \<open>The number of the day, from 1970.\<close>

definition day_no :: "tm \<Rightarrow> int" where
  "day_no d = days_before_year (tm_year d + 1900) + days_before_month (tm_year d + 1900) (nat (tm_mon d)) + (tm_mday d - 1)"

lemma tm_seconds_day: "valid_date d \<Longrightarrow> tm_seconds d = day_no d * 86400 + tm_hour d * 3600 + tm_min d * 60 + tm_sec d"
  by (simp add: tm_seconds_def day_no_def valid_date_def Let_def)

lemma day_in_month:
  assumes "valid_date d"
  shows "days_before_month (tm_year d + 1900) (nat (tm_mon d)) + (tm_mday d - 1) < days_before_month (tm_year d + 1900) (Suc (nat (tm_mon d)))"
    "0 \<le> days_before_month (tm_year d + 1900) (nat (tm_mon d)) + (tm_mday d - 1)"
  using assms days_before_month_mono [of 0 "nat (tm_mon d)" "tm_year d + 1900"] by (simp_all add: valid_date_def)

lemma day_in_year:
  assumes "valid_date d"
  shows "day_no d < days_before_year (tm_year d + 1900 + 1)" "days_before_year (tm_year d + 1900) \<le> day_no d"
proof -
  have "days_before_month (tm_year d + 1900) (Suc (nat (tm_mon d))) \<le> year_len (tm_year d + 1900)"
    using days_before_month_mono [of "Suc (nat (tm_mon d))" 12 "tm_year d + 1900"] assms days_before_month_12 [of "tm_year d + 1900"]
    by (simp add: valid_date_def nat_less_iff Suc_le_eq)
  then show "day_no d < days_before_year (tm_year d + 1900 + 1)" "days_before_year (tm_year d + 1900) \<le> day_no d"
    using day_in_month [OF assms] days_before_year_step [of "tm_year d + 1900"] by (simp_all add: day_no_def)
qed

text \<open>The fields of the name, the first that differs decides.\<close>

definition date_less :: "tm \<Rightarrow> tm \<Rightarrow> bool" where
  "date_less d d' \<longleftrightarrow> tm_year d < tm_year d' \<or> tm_year d = tm_year d' \<and> (tm_mon d < tm_mon d' \<or> tm_mon d = tm_mon d' \<and>
     (tm_mday d < tm_mday d' \<or> tm_mday d = tm_mday d' \<and> tm_hour d < tm_hour d'))"

lemma day_less:
  assumes "valid_date d" "valid_date d'" "tm_year d < tm_year d' \<or> tm_year d = tm_year d' \<and> (tm_mon d < tm_mon d' \<or> tm_mon d = tm_mon d' \<and> tm_mday d < tm_mday d')"
  shows "day_no d < day_no d'"
proof -
  consider "tm_year d < tm_year d'" | "tm_year d = tm_year d'" "tm_mon d < tm_mon d'"
    | "tm_year d = tm_year d'" "tm_mon d = tm_mon d'" "tm_mday d < tm_mday d'" using assms(3) by blast
  then show ?thesis
  proof cases
    case 1
    then have "days_before_year (tm_year d + 1900 + 1) \<le> days_before_year (tm_year d' + 1900)" by (intro days_before_year_mono) simp
    then show ?thesis using day_in_year(1) [OF assms(1)] day_in_year(2) [OF assms(2)] by simp
  next
    case 2
    then have "Suc (nat (tm_mon d)) \<le> nat (tm_mon d')" using assms(1) by (simp add: valid_date_def Suc_le_eq)
    from days_before_month_mono [OF this, of "tm_year d + 1900"] show ?thesis
      using day_in_month(1) [OF assms(1)] assms(2) 2 by (simp add: day_no_def valid_date_def)
  qed (simp add: day_no_def)
qed

lemma not_date_less:
  assumes "valid_date d" "valid_date d'" "\<not> date_less d d'"
  shows "day_no d' < day_no d \<or> day_no d' = day_no d \<and> tm_hour d' \<le> tm_hour d"
proof (cases "tm_year d' = tm_year d \<and> tm_mon d' = tm_mon d \<and> tm_mday d' = tm_mday d")
  case True
  then show ?thesis using assms(3) by (simp add: date_less_def day_no_def)
next
  case False
  have "tm_year d' < tm_year d \<or> tm_year d' = tm_year d \<and> (tm_mon d' < tm_mon d \<or> tm_mon d' = tm_mon d \<and> tm_mday d' < tm_mday d)"
    using False assms(3) unfolding date_less_def by linarith
  then show ?thesis using day_less [OF assms(2,1)] by blast
qed

lemma hours_in_order:
  assumes "h < h'"
  shows "date_less (gmtime (3600 * h)) (gmtime (3600 * h'))"
proof (rule ccontr)
  let ?d = "gmtime (3600 * h)" and ?d' = "gmtime (3600 * h')"
  note v = gmtime_valid [of "3600 * h"] gmtime_valid [of "3600 * h'"]
  have z: "tm_sec (gmtime (3600 * k)) = 0 \<and> tm_min (gmtime (3600 * k)) = 0" for k
  proof -
    have "3600 * k mod 86400 mod 60 = 3600 * k mod 60" "3600 * k mod 86400 mod 3600 = 3600 * k mod 3600" by (simp_all add: mod_mod_cancel)
    moreover have "3600 * k mod 60 = 0" using mod_mult_self1_is_0 [of 60 "60 * k"] by simp
    ultimately show ?thesis by (simp add: gmtime_def Let_def del: mod_mod_trivial split: prod.splits)
  qed
  have s: "day_no ?d * 86400 + tm_hour ?d * 3600 = 3600 * h" "day_no ?d' * 86400 + tm_hour ?d' * 3600 = 3600 * h'"
    using tm_seconds_day [OF v(1)] tm_seconds_day [OF v(2)] z by (simp_all add: tm_seconds_gmtime)
  assume "\<not> date_less ?d ?d'"
  then have "day_no ?d' < day_no ?d \<or> day_no ?d' = day_no ?d \<and> tm_hour ?d' \<le> tm_hour ?d"
    by (rule not_date_less [OF v])
  moreover have "0 \<le> tm_hour ?d" "tm_hour ?d' < 24" using v by (simp_all add: valid_date_def)
  ultimately show False using s assms by linarith
qed

section \<open>The names are in order\<close>

lemma year_digits: "0 \<le> t \<Longrightarrow> t < 2147483648 \<Longrightarrow> 0 \<le> tm_year (gmtime t) + 1900 \<and> tm_year (gmtime t) + 1900 < 10000"
proof -
  let ?d = "gmtime t" and ?y = "tm_year (gmtime t) + 1900"
  assume t: "0 \<le> t" "t < 2147483648"
  note v = gmtime_valid [of t]
  have s: "day_no ?d * 86400 + tm_hour ?d * 3600 + tm_min ?d * 60 + tm_sec ?d = t"
    using tm_seconds_day [OF v] by (simp add: tm_seconds_gmtime)
  have r: "0 \<le> tm_hour ?d" "tm_hour ?d < 24" "0 \<le> tm_min ?d" "tm_min ?d < 60" "0 \<le> tm_sec ?d" "tm_sec ?d < 60"
    using gmtime_range [of t] by blast+
  then have d: "0 \<le> day_no ?d" "day_no ?d < 24856" using s t by linarith+
  have "\<not> ?y < 0" using day_in_year(1) [OF v] days_before_year_mono [of "?y + 1" 1970] d(1) by auto
  moreover have "days_before_year 10000 = 2932897" by (simp add: days_before_year_def leaps_to_def)
  then have "\<not> 10000 \<le> ?y" using day_in_year(2) [OF v] days_before_year_mono [of 10000 ?y] d(2) by auto
  ultimately show ?thesis by simp
qed

lemma name_fields:
  assumes "0 \<le> t" "t < 2147483648"
  shows "fmt_0d 4 (tm_year (gmtime t) + 1900) = dec 4 (tm_year (gmtime t) + 1900)"
    "fmt_0d 2 (tm_mon (gmtime t) + 1) = dec 2 (tm_mon (gmtime t) + 1)"
    "fmt_0d 2 (tm_mday (gmtime t)) = dec 2 (tm_mday (gmtime t))" "fmt_0d 2 (tm_hour (gmtime t)) = dec 2 (tm_hour (gmtime t))"
    "tm_mday (gmtime t) < 100"
proof -
  have v: "valid_date (gmtime t)" by (rule gmtime_valid)
  have "month_len y m \<le> 31" for y m by (simp add: month_len_def)
  then show m: "tm_mday (gmtime t) < 100" using v order_trans unfolding valid_date_def by fastforce
  have two: "0 \<le> n \<Longrightarrow> n < 100 \<Longrightarrow> fmt_0d 2 n = dec 2 n" for n using fmt_0d_dec [of n 1] by (simp add: numeral_2_eq_2)
  show "fmt_0d 4 (tm_year (gmtime t) + 1900) = dec 4 (tm_year (gmtime t) + 1900)"
    using fmt_0d_dec [of "tm_year (gmtime t) + 1900" 3] year_digits [OF assms] by simp
  show "fmt_0d 2 (tm_mon (gmtime t) + 1) = dec 2 (tm_mon (gmtime t) + 1)" "fmt_0d 2 (tm_mday (gmtime t)) = dec 2 (tm_mday (gmtime t))"
    "fmt_0d 2 (tm_hour (gmtime t)) = dec 2 (tm_hour (gmtime t))"
    using v m two by (simp_all add: valid_date_def)
qed

definition name_tail :: "tm \<Rightarrow> string" where
  "name_tail d = dec 4 (tm_year d + 1900) @ ''_'' @ dec 2 (tm_mon d + 1) @ ''_'' @ dec 2 (tm_mday d) @ ''_'' @ dec 2 (tm_hour d)"

lemma name_tail_less:
  assumes "date_less d d'" "valid_date d" "valid_date d'" "0 \<le> tm_year d + 1900" "tm_year d' + 1900 < 10000" "tm_mday d' < 100"
  shows "name_tail d < name_tail d'"
proof -
  have l: "n < m \<Longrightarrow> 0 \<le> n \<Longrightarrow> m < 100 \<Longrightarrow> dec 2 n < dec 2 m" for n m using dec_less [of n m 2] by simp
  have h: "tm_mon d + 1 < 100" "tm_mon d' + 1 < 100" "0 \<le> tm_mon d + 1" "0 \<le> tm_mday d" "0 \<le> tm_hour d" "tm_hour d' < 100"
    using assms(2,3) by (simp_all add: valid_date_def)
  consider "tm_year d < tm_year d'" | "tm_year d = tm_year d'" "tm_mon d < tm_mon d'"
    | "tm_year d = tm_year d'" "tm_mon d = tm_mon d'" "tm_mday d < tm_mday d'"
    | "tm_year d = tm_year d'" "tm_mon d = tm_mon d'" "tm_mday d = tm_mday d'" "tm_hour d < tm_hour d'"
    using assms(1) by (auto simp: date_less_def)
  then show ?thesis
  proof cases
    case 1
    then show ?thesis unfolding name_tail_def
      using dec_less [of "tm_year d + 1900" "tm_year d' + 1900" 4] assms(4,5) by (intro append_less1) simp_all
  next
    case 2
    then show ?thesis unfolding name_tail_def using h by (simp only:) (intro append_less2 append_less1 l, simp_all)
  next
    case 3
    then show ?thesis unfolding name_tail_def using h assms(6) by (simp only:) (intro append_less2 append_less1 l, simp_all)
  next
    case 4
    then show ?thesis unfolding name_tail_def using h by (simp only:) (intro append_less2 l, simp_all)
  qed
qed

lemma hour_file_eq:
  assumes "0 \<le> h" "3600 * h < 2147483648" "length (charFile a) \<le> 254"
  shows "hour_file a h = charFile a @ ''_nogps_'' @ name_tail (gmtime (3600 * h)) @ ''h00.dat''"
proof -
  have t: "0 \<le> 3600 * h" using assms(1) by simp
  show ?thesis using assms(3) by (simp add: hour_file_def file_name_def name_tail_def name_fields [OF t assms(2)])
qed

lemma hour_file_less:
  assumes "0 \<le> h" "h < h'" "3600 * h' < 2147483648" "length (charFile a) \<le> 254"
  shows "hour_file a h < hour_file a h'"
proof -
  have r: "0 \<le> 3600 * h" "3600 * h < 2147483648" "0 \<le> 3600 * h'" "0 \<le> h'" using assms(1-3) by simp_all
  have "name_tail (gmtime (3600 * h)) < name_tail (gmtime (3600 * h'))"
    using hours_in_order [OF assms(2)] gmtime_valid year_digits [OF r(1,2)] year_digits [OF r(3) assms(3)] name_fields(5) [OF r(3) assms(3)]
    by (intro name_tail_less) blast+
  then show ?thesis unfolding hour_file_eq [OF assms(1) r(2) assms(4)] hour_file_eq [OF r(4) assms(3,4)]
    by (intro append_less2 append_less1) (simp_all add: name_tail_def)
qed

lemma mult_div_le: "0 < k \<Longrightarrow> k * (x div k) \<le> (x :: int)"
  by (simp add: minus_mod_eq_mult_div [symmetric])

lemma hour_files_sorted:
  assumes "0 \<le> t" "t' < 2147483648" "length (charFile a) \<le> 254"
  shows "sorted_wrt (<) (hour_files a t t')"
proof -
  have b: "0 \<le> h \<and> 3600 * h < 2147483648" if "h \<in> {t div 3600 + 1..t' div 3600}" for h
  proof
    have "0 \<le> t div 3600" using assms(1) by (simp add: pos_imp_zdiv_nonneg_iff)
    then show "0 \<le> h" using that by simp
    have "3600 * (t' div 3600) \<le> t'" by (rule mult_div_le) simp
    moreover have "3600 * h \<le> 3600 * (t' div 3600)" using that by simp
    ultimately show "3600 * h < 2147483648" using assms(2) by linarith
  qed
  have "sorted_wrt (\<lambda>h h'. hour_file a h < hour_file a h') [t div 3600 + 1..t' div 3600]"
  proof (rule sorted_wrt_mono_rel [OF _ sorted_wrt_upto])
    fix x y
    assume "x \<in> set [t div 3600 + 1..t' div 3600]" "y \<in> set [t div 3600 + 1..t' div 3600]" "x < y"
    then show "hour_file a x < hour_file a y" using b [of x] b [of y] assms(3) unfolding set_upto by (blast intro: hour_file_less)
  qed
  then show ?thesis by (simp add: hour_files_def sorted_wrt_map)
qed

text \<open>
  C6. The data files of a run sort in the order of time: in a run without GPS that writes files, whose base name has at most the 254
  characters the command line allows, the names of the files opened while any stream of words is handled are
  strictly increasing in the lexicographic order; so they are distinct, and no file is continued by a later hour.
\<close>

theorem data_files_sort_by_time:
  assumes "for_c ws (handle_word env bmp) s = Inr (u, s')" "clock_at t s" "0 \<le> t"
    and "t + int (length (filter is_pps ws)) < 2147483648" "one_open s" "length (charFile (args s)) \<le> 254"
  shows "\<exists>fs. map f_path (files s') = map f_path (files s) @ fs \<and> sorted_wrt (<) fs \<and> distinct fs
    \<and> length fs = nat ((t + int (length (filter is_pps ws))) div 3600 - t div 3600)"
proof -
  let ?t' = "t + int (length (filter is_pps ws))"
  have r: "in_s32 t" "in_s32 ?t'" using assms(3,4) by (simp_all add: in_s32_def)
  have "sorted_wrt (<) (hour_files (args s) t ?t')" by (rule hour_files_sorted [OF assms(3,4,6)])
  moreover from this have "distinct (hour_files (args s) t ?t')" by (simp add: strict_sorted_iff)
  moreover have "length (hour_files (args s) t ?t') = nat (?t' div 3600 - t div 3600)" by (simp add: hour_files_def)
  ultimately show ?thesis using words_clock [OF assms(1,2) r assms(5)] by blast
qed

theorem data_files_sort_by_time_witness:
  "\<exists>s' fs. for_c second_words (handle_word daq_lenv (Some sample_bmp)) file_lago = Inr ((), s')
    \<and> map f_path (files s') = map f_path (files file_lago) @ fs \<and> length fs = 1 \<and> sorted_wrt (<) fs"
proof -
  have "ready file_lago" by (simp add: file_lago_def daq_lago_def ready_def devs_ok_def mapped_def out_ok_def)
  then obtain u s' where "for_c second_words (handle_word daq_lenv (Some sample_bmp)) file_lago = Inr (u, s')"
    using runsD [OF runs_for [of second_words ready "handle_word daq_lenv (Some sample_bmp)", OF runs_handle_word [OF daq_env_ok]]] by blast
  then have r: "for_c second_words (handle_word daq_lenv (Some sample_bmp)) file_lago = Inr ((), s')" by (cases u) blast
  have n: "length (filter is_pps second_words) = 2" by code_simp
  have "clock_at 3598 file_lago" "one_open file_lago" "length (charFile (args file_lago)) \<le> 254"
    by (simp_all add: clock_at_def one_open_def file_lago_def sample_args_def)
  with r data_files_sort_by_time [OF r, of 3598] show ?thesis by (auto simp: n)
qed

end
