(* ===== verification/Daq_Words.thy ===== *)
theory Daq_Words
  imports Daq_Total
begin

text \<open>
  The meaning of single words: the samples of the two channels and the trigger counters.
\<close>

section \<open>Samples\<close>

text \<open>The FPGA packs two 14-bit two's complement samples, each in the low bits of a half word.\<close>

definition pack14 :: "14 word \<Rightarrow> 14 word \<Rightarrow> u32" where
  "pack14 x y = to_u32 (uint y * 65536 + uint x)"

lemma wrap16_id: "- 32768 \<le> x \<Longrightarrow> x < 32768 \<Longrightarrow> wrap16 x = x"
  using signed_take_bit_id [of 15 x] by (simp add: wrap16_def)

lemma uint14: "0 \<le> uint (x :: 14 word)" "- 8192 \<le> uint x" "uint x < 16384"
  using uint_lt2p [of x] uint_ge_0 [of x] by (simp, linarith, simp)

lemma sint14: "sint (x :: 14 word) = (if uint x < 8192 then uint x else uint x - 16384)"
proof -
  note r = uint14 [of x]
  show ?thesis
  proof (cases "uint x < 8192")
    case True
    then show ?thesis using r signed_take_bit_id [of 13 "uint x"] by (simp add: sint_uint)
  next
    case False
    then have "(uint x + 8192) mod 16384 = uint x - 8192"
      using r by (intro int_mod_pos_eq [where q = 1]) auto
    then show ?thesis using False by (simp add: sint_uint signed_take_bit_eq_take_bit_shift take_bit_eq_mod)
  qed
qed

lemma sample_value_sint: "sample_value (uint (x :: 14 word)) = sint x"
proof -
  note r = uint14 [of x]
  show ?thesis
  proof (cases "uint x < 8192")
    case True
    then show ?thesis using r wrap16_id [of "uint x"] by (simp add: sint14 sample_value_def)
  next
    case False
    then have d: "uint x div 8192 = 1" using r by (simp add: int_div_pos_eq [of _ 8192 1 "uint x - 8192"])
    have "(uint x + 81920) mod 65536 = uint x + 16384"
      using r False by (intro int_mod_pos_eq [where q = 1]) auto
    then have "wrap16 (uint x + 49152) = uint x - 16384"
      by (simp add: wrap16_def signed_take_bit_eq_take_bit_shift take_bit_eq_mod add.commute)
    then show ?thesis using False by (simp add: sint14 sample_value_def d add.commute)
  qed
qed

lemma pack14_parts: "uint (drop_bit 30 (pack14 x y)) = 0" "ch_lo (pack14 x y) = uint x" "ch_hi (pack14 x y) = uint y"
proof -
  note r = uint14 [of x] uint14 [of y]
  then have u: "uint (pack14 x y) = uint y * 65536 + uint x" by (simp add: pack14_def uint_to_u32)
  show "uint (drop_bit 30 (pack14 x y)) = 0" using r by (simp add: drop_bit_eq_div uint_div u)
  show "ch_lo (pack14 x y) = uint x" "ch_hi (pack14 x y) = uint y"
    using r wrap16_id [of "uint x"] wrap16_id [of "uint y"] by (simp_all add: ch_lo_def ch_hi_def u)
qed

text \<open>
  C5. Every pair of 14-bit samples in a word is printed as the two signed values the converters
  measured: the shifts and additions of the code extend the sign from bit 13, for all values.
\<close>

theorem samples_printed_signed:
  assumes "fhout s = HStdout"
  shows "\<exists>s'. handle_word env bmp (pack14 x y) s = Inr ((), s')
    \<and> c_out s' = c_out s @ fmt_wd 5 (sint x) @ '' '' @ fmt_wd 5 (sint y) @ nl"
  using assms by (simp add: handle_word_def Let_def pack14_parts sample_word_def sample_value_sint out_c_def cm_defs)

theorem samples_printed_signed_witness:
  "\<exists>s'. handle_word sample_lenv None (pack14 (- 1) 8191) (ring_lago\<lparr>fhout := HStdout\<rparr>) = Inr ((), s')
    \<and> c_out s' = c_out ring_lago @ ''   -1  8191'' @ nl"
proof -
  have "fmt_wd 5 (sint (- 1 :: 14 word)) = ''   -1''" "fmt_wd 5 (sint (8191 :: 14 word)) = '' 8191''" by code_simp+
  then show ?thesis using samples_printed_signed [of "ring_lago\<lparr>fhout := HStdout\<rparr>" sample_lenv None "- 1" 8191] by simp
qed

section \<open>Lost pulses\<close>

text \<open>The counters in a stretch of data, in the order they arrive.\<close>

lemma count_pulses_step:
  assumes "0 < c" "c < n" "n < 1073741824" "mtd_pulse_cnt m = c" "0 \<le> mtd_cdp m" "mtd_cdp m \<le> c"
  shows "mtd_pulse_cnt (count_pulses n m) = n" "mtd_cdp (count_pulses n m) = mtd_cdp m + (n - c - 1)"
  using assms by (auto simp: count_pulses_def Let_def in_s32_def)

lemma count_pulses_run:
  assumes "sorted_wrt (<) (c # ns)" "0 < c" "\<forall>n \<in> set ns. n < 1073741824" "mtd_pulse_cnt m = c" "0 \<le> mtd_cdp m" "mtd_cdp m \<le> c"
  shows "mtd_cdp (fold count_pulses ns m) = mtd_cdp m + (last (c # ns) - c - int (length ns))"
  using assms
proof (induction ns arbitrary: c m)
  case (Cons n ns)
  have n: "c < n" "n < 1073741824" "sorted_wrt (<) (n # ns)" using Cons.prems(1,3) by auto
  note st = count_pulses_step [OF Cons.prems(2) n(1,2) Cons.prems(4-6)]
  have "mtd_cdp (fold count_pulses ns (count_pulses n m)) = mtd_cdp (count_pulses n m) + (last (n # ns) - n - int (length ns))"
    using Cons.prems n st by (intro Cons.IH) auto
  then show ?case using st by simp
qed simp

lemma sorted_last: "sorted xs \<Longrightarrow> k \<in> set xs \<Longrightarrow> k \<le> (last xs :: int)"
  by (induction xs) auto

text \<open>
  The counter of lost pulses: when the trigger counters that reach the readout increase, it has grown by
  exactly the number of counter values missing between the first and the last of them.
\<close>

lemma lost_pulses_counted:
  assumes "sorted_wrt (<) (n # ns)" "0 < n" "\<forall>k \<in> set (n # ns). k < 1073741824" "mtd_pulse_cnt m = 0" "mtd_cdp m = 0"
  shows "mtd_cdp (fold count_pulses (n # ns) m) = int (card ({n..last (n # ns)} - set (n # ns)))"
proof -
  let ?m = "count_pulses n m" and ?l = "last (n # ns)"
  have m: "mtd_pulse_cnt ?m = n" "mtd_cdp ?m = 0" using assms(4,5) by (auto simp: count_pulses_def Let_def)
  have s: "set (n # ns) \<subseteq> {n..?l}"
  proof
    fix k assume k: "k \<in> set (n # ns)"
    have "k \<le> ?l" using k assms(1) by (intro sorted_last) (simp_all add: strict_sorted_iff del: sorted_wrt.simps)
    moreover have "n \<le> k" using k assms(1) by auto
    ultimately show "k \<in> {n..?l}" by simp
  qed
  have "distinct (n # ns)" using assms(1) by (simp add: strict_sorted_iff del: sorted_wrt.simps)
  then have c: "card (set (n # ns)) = Suc (length ns)" using distinct_card by fastforce
  have "card ({n..?l} - set (n # ns)) = nat (?l - n + 1) - Suc (length ns)"
    using card_Diff_subset [OF finite_set s] c by (simp del: set_simps last.simps)
  moreover have "Suc (length ns) \<le> nat (?l - n + 1)"
    using card_mono [OF _ s] c by (simp del: set_simps last.simps)
  moreover have "mtd_cdp (fold count_pulses ns ?m) = mtd_cdp ?m + (?l - n - int (length ns))"
    using assms m by (intro count_pulses_run) auto
  ultimately show ?thesis using m by simp
qed


end
