(* ===== verification/Main_Modes.thy ===== *)
theory Main_Modes
  imports Daq_Run
begin

text \<open>
  The modes of \<open>main\<close> as a whole: the start of the program, setting a voltage from the command line to the register, an acquisition, and
  the histogram run.
\<close>

section \<open>Start\<close>

text \<open>
  The program needs the pressure sensor for everything: when the sensor cannot be initialised, \<open>main\<close>
  reads through the null pointer before it looks at its arguments, so that not even the usage
  text is printed.
\<close>

lemma sensor_missing_crashes:
  assumes "bmp180_init (le_b env) (le_fresh env) 0x77 ''/dev/i2c-0'' (i2c s) = Inr (None, lg)"
  shows "main fuel env evs argv s = Inl NullDeref"
  using assms by (simp add: main_def sensor_setup_def cm_defs bmp180_dump_eprom_def)

text \<open>An operating system on which every device opens and maps.\<close>

definition boots :: "zenv \<Rightarrow> bool" where
  "boots z \<longleftrightarrow> (\<forall>p. 1 \<le> os_open z p) \<and> (\<forall>p. \<exists>tx sz. os_size z p = Some tx \<and> scan_0x tx = Inr sz \<and> 1024 \<le> unat sz)
     \<and> (\<forall>p l k. os_mmap z p l k) \<and> (\<forall>sz. os_cma z sz \<noteq> None) \<and> 0 < pagesize z"

text \<open>What the start leaves as the parser left it.\<close>

definition glob_view :: "'a lago_scheme \<Rightarrow> int \<times> int \<times> bool \<times> bool" where
  "glob_view s = (histo_position s, position s, interrupted s, fFirstTime s)"

definition dev_view :: "'a lago_scheme \<Rightarrow> (u32 \<Rightarrow> u32) \<times> args \<times> int \<times> int \<times> bool \<times> bool" where
  "dev_view s = (cfg_mem s, args s, glob_view s)"

lemma uio_init_run:
  assumes "boots z"
  shows "\<exists>s'. uio_init z d who wm uiod sysfs s = Inr (0, s') \<and> mapped s' d 1024 \<and> dev_view s' = dev_view s
    \<and> (\<forall>e. e \<noteq> d \<longrightarrow> ptrs s' e = ptrs s e)"
proof -
  obtain tx sz where sz: "os_size z sysfs = Some tx" "scan_0x tx = Inr sz" "1024 \<le> unat sz" using assms unfolding boots_def by blast
  have o: "1 \<le> os_open z uiod" "\<And>p l k. os_mmap z p l k" "0 < pagesize z" using assms unfolding boots_def by blast+
  have "1024 \<le> page_up z (unat sz)" using page_up_ge [OF o(3), of "unat sz"] sz(3) by simp
  then show ?thesis using o sz
    by (simp add: uio_init_def open_dev_def mmap_dev_def set_size_def get_memory_size_def cm_defs mapped_def dev_view_def glob_view_def Let_def)
qed

lemma cma_init_run:
  assumes "boots z"
  shows "\<exists>r s'. cma_init z s = Inr (r, s') \<and> dev_view s' = dev_view s \<and> (\<forall>e. e \<noteq> Cma \<longrightarrow> ptrs s' e = ptrs s e)
    \<and> ptrs s' Cma = Mapped (page_up z (1024 * pagesize z))"
proof -
  obtain a where a: "os_cma z (of_nat (1024 * pagesize z)) = Some a" using assms unfolding boots_def by blast
  have o: "1 \<le> os_open z ''/dev/cma''" "os_mmap z ''/dev/cma'' (1024 * pagesize z) 0" using assms unfolding boots_def by blast+
  show ?thesis using a o by (simp add: cma_init_def open_dev_def mmap_dev_def set_size_def cm_defs dev_view_def glob_view_def Let_def)
qed

lemma devices_init_run:
  assumes b: "boots (le_z env)"
  shows "\<exists>s'. devices_init env s = Inr ((), s') \<and> (\<forall>d \<in> {Intc, Cfg, Sts, Xadc, Hst0, Hst1}. mapped s' d 1024) \<and> dev_view s' = dev_view s
    \<and> ptrs s' Cma = Mapped (page_up (le_z env) (1024 * pagesize (le_z env)))"
proof -
  note ex = uio_init_run [OF b]
  obtain t1 where 1: "intc_init (le_z env) s = Inr (0, t1)" "mapped t1 Intc 1024" "dev_view t1 = dev_view s"
    using ex unfolding intc_init_def by blast
  obtain t2 where 2: "hst0_init (le_z env) t1 = Inr (0, t2)" "mapped t2 Hst0 1024" "dev_view t2 = dev_view s" "\<And>e. e \<noteq> Hst0 \<Longrightarrow> ptrs t2 e = ptrs t1 e"
    using ex 1(3) unfolding hst0_init_def by metis
  obtain t3 where 3: "hst1_init (le_z env) t2 = Inr (0, t3)" "mapped t3 Hst1 1024" "dev_view t3 = dev_view s" "\<And>e. e \<noteq> Hst1 \<Longrightarrow> ptrs t3 e = ptrs t2 e"
    using ex 2(3) unfolding hst1_init_def by metis
  obtain t4 where 4: "cfg_init (le_z env) t3 = Inr (0, t4)" "mapped t4 Cfg 1024" "dev_view t4 = dev_view s" "\<And>e. e \<noteq> Cfg \<Longrightarrow> ptrs t4 e = ptrs t3 e"
    using ex 3(3) unfolding cfg_init_def by metis
  obtain t5 where 5: "sts_init (le_z env) t4 = Inr (0, t5)" "mapped t5 Sts 1024" "dev_view t5 = dev_view s" "\<And>e. e \<noteq> Sts \<Longrightarrow> ptrs t5 e = ptrs t4 e"
    using ex 4(3) unfolding sts_init_def by metis
  obtain t6 where 6: "xadc_init (le_z env) t5 = Inr (0, t6)" "mapped t6 Xadc 1024" "dev_view t6 = dev_view s" "\<And>e. e \<noteq> Xadc \<Longrightarrow> ptrs t6 e = ptrs t5 e"
    using ex 5(3) unfolding xadc_init_def by metis
  obtain r t7 where 7: "cma_init (le_z env) t6 = Inr (r, t7)" "dev_view t7 = dev_view s" "\<And>e. e \<noteq> Cma \<Longrightarrow> ptrs t7 e = ptrs t6 e"
    "ptrs t7 Cma = Mapped (page_up (le_z env) (1024 * pagesize (le_z env)))"
    using cma_init_run [OF b] 6(3) by metis
  have "devices_init env s = Inr ((), t7)" by (simp add: devices_init_def cm_defs 1(1) 2(1) 3(1) 4(1) 5(1) 6(1) 7(1))
  moreover have "\<forall>d \<in> {Intc, Cfg, Sts, Xadc, Hst0, Hst1}. mapped t7 d 1024"
    using 1(2) 2(2,4) 3(2,4) 4(2,4) 5(2,4) 6(2,4) 7(3) by (simp add: mapped_def)
  ultimately show ?thesis using 7(2,4) by blast
qed

lemma mapped_mono: "mapped s d n \<Longrightarrow> m \<le> n \<Longrightarrow> mapped s d m"
  by (auto simp: mapped_def split: ptr.splits)

lemma writer_address_run:
  "mapped s Cfg 92 \<Longrightarrow> \<exists>s'. writer_address env s = Inr ((), s') \<and> ptrs s' = ptrs s \<and> args s' = args s
     \<and> cfg_mem s' = (cfg_mem s)(cfg_off CFG_WR_ADDR := dev_size s) \<and> glob_view s' = glob_view s"
  by (simp add: writer_address_def rd_reg_value_def wr_reg_value_def glob_view_def cm_defs del: cfg_off.simps)

lemma enable_interrupt_run:
  assumes "mapped s Intc 92"
  shows "\<exists>s'. enable_interrupt s = Inr (0, s') \<and> ptrs s' = ptrs s \<and> args s' = args s \<and> cfg_mem s' = cfg_mem s \<and> glob_view s' = glob_view s"
proof -
  have "dev_check Intc 8 t = Inr ((), t)" "dev_check Intc 28 t = Inr ((), t)" if "ptrs t = ptrs s" for t :: "'a lago_scheme"
    using that assms by (auto simp: dev_check_def mapped_def split: ptr.splits)
  then show ?thesis by (simp add: enable_interrupt_def dev_write_def cm_defs reg_store_def glob_view_def)
qed

lemma first_access_run:
  assumes "mapped s Cfg 92" "mapped s Intc 92" "le_thread env = 0"
  shows "\<exists>s'. first_access env s = Inr ((), s') \<and> ptrs s' = ptrs s \<and> args s' = args s
    \<and> (cfg_mem s (cfg_off CFG_RESET_GRAL) \<noteq> 0 \<longrightarrow> cfg_mem s' = cfg_mem s) \<and> glob_view s' = glob_view s"
proof -
  let ?s = "s\<lparr>accs := accs s @ [Rd Cfg (cfg_off CFG_RESET_GRAL)], c_out := c_out s @ ''Initializing registers...'' @ nl\<rparr>"
  have "mapped ?s Cfg 92" using assms(1) by (simp add: mapped_def)
  then obtain a where i: "init_system (le_z env) ?s = Inr (0, (cfg_upds init_ups ?s)\<lparr>accs := a\<rparr>)"
    using init_system_run by blast
  define t where "t = (cfg_upds init_ups ?s)\<lparr>accs := a\<rparr>"
  have f: "t = ?s\<lparr>cfg_mem := cfg_mem t, accs := a\<rparr>" unfolding t_def by (subst cfg_upds_frame) simp
  have p: "ptrs t = ptrs s" "args t = args s" "glob_view t = glob_view s"
    using arg_cong [OF f, of ptrs] arg_cong [OF f, of args] arg_cong [OF f, of glob_view] by (simp_all add: glob_view_def)
  let ?t = "t\<lparr>not_gps := True\<rparr>"
  have "mapped ?t Intc 92" using assms(2) p by (simp add: mapped_def)
  moreover have "glob_view ?t = glob_view s" using p(3) by (simp add: glob_view_def)
  ultimately obtain u where u: "enable_interrupt ?t = Inr (0, u)" "ptrs u = ptrs s" "args u = args s" "glob_view u = glob_view s"
    using enable_interrupt_run [of ?t] p by fastforce
  show ?thesis
  proof (cases "cfg_mem s (cfg_off CFG_RESET_GRAL) = 0")
    case True
    then have "first_access env s = Inr ((), u)"
      using assms(1,3) i u(1) by (simp add: first_access_def cm_defs t_def del: cfg_off.simps)
    then show ?thesis using True u by blast
  next
    case False
    then show ?thesis using assms(1) by (simp add: first_access_def glob_view_def cm_defs del: cfg_off.simps)
  qed
qed

lemma release_run: "\<exists>s'. release_devices env s = Inr ((), s') \<and> cfg_mem s' = cfg_mem s \<and> c_out s' = c_out s"
  by (simp add: release_devices_def cm_defs Let_def)

text \<open>The part of \<open>main\<close> before the mode.\<close>

lemma main_start:
  assumes "boots (le_z env)" "le_thread env = 0" "bmp180_init (le_b env) (le_fresh env) 0x77 ''/dev/i2c-0'' (i2c s) = Inr (Some b, lg)"
    and "parse_param argv (s\<lparr>i2c := lg\<rparr>) = Inr (1, t)"
  obtains u where "main fuel env evs argv s = then_c (seq_c [run_mode fuel env (Some (b\<lparr>b_oss := 1\<rparr>)) evs, release_devices env]) (ret_c 0) u"
    "\<forall>d \<in> {Intc, Cfg, Sts, Xadc, Hst0, Hst1}. mapped u d 1024" "args u = args t" "glob_view u = glob_view t"
    "ptrs u Cma = Mapped (page_up (le_z env) (1024 * pagesize (le_z env)))"
proof -
  obtain t1 where 1: "devices_init env t = Inr ((), t1)" "\<forall>d \<in> {Intc, Cfg, Sts, Xadc, Hst0, Hst1}. mapped t1 d 1024" "dev_view t1 = dev_view t"
    "ptrs t1 Cma = Mapped (page_up (le_z env) (1024 * pagesize (le_z env)))"
    using devices_init_run [OF assms(1)] by blast
  then have m: "mapped t1 Cfg 92" "mapped t1 Intc 92" using mapped_mono by fastforce+
  obtain t2 where 2: "writer_address env t1 = Inr ((), t2)" "ptrs t2 = ptrs t1" "args t2 = args t1" "glob_view t2 = glob_view t1"
    using writer_address_run [OF m(1)] by blast
  then have "mapped t2 Cfg 92" "mapped t2 Intc 92" using m by (simp_all add: mapped_def)
  then obtain t3 where 3: "first_access env t2 = Inr ((), t3)" "ptrs t3 = ptrs t2" "args t3 = args t2" "glob_view t3 = glob_view t2"
    using first_access_run assms(2) by blast
  have "main fuel env evs argv s = then_c (seq_c [run_mode fuel env (Some (b\<lparr>b_oss := 1\<rparr>)) evs, release_devices env]) (ret_c 0) t3"
    using assms(3,4) 1(1) 2(1) 3(1)
    by (simp add: main_def sensor_setup_def bmp180_dump_eprom_def bmp180_set_oss_def bind_c_def then_c_def i2c_c_def lift_c_def)
  then show thesis using that 1(2-4) 2(2-) 3(2-) by (simp add: mapped_def dev_view_def)
qed

section \<open>Setting a voltage\<close>

definition set_args :: "args \<Rightarrow> string \<Rightarrow> cfg_reg \<Rightarrow> string \<Rightarrow> args" where
  "set_args a name r val = (reset_flags a)\<lparr>charAction := ''-s'', fSetCfgReg := True, charReg := name, reg_off := cfg_off r,
     charRegValue := take 15 val, fRegValue := True\<rparr>"

lemma parse_set_voltage:
  assumes "cfg_name name = Some r" "is_voltage name" "atoi (take 15 val) \<le> 2500"
  shows "parse_param [prog, ''-s'', name, val] s = Inr (1, s\<lparr>args := set_args (args s) name r val\<rparr>)"
proof -
  have "take 1023 name = name" using assms(1) by (auto simp: cfg_name_def split: if_splits)
  then show ?thesis using assms
    by (simp add: parse_param_def parse_param_with_def parse_action_def parse_register_def parse_set_def cm_defs
        copy_arg_def arg_at_def copied_def MAXCHRLEN_def reset_flags_def set_args_def del: cfg_off.simps)
qed

text \<open>
  C16. From the command line to the hardware: \<open>lago -s <name> <mV>\<close> with the name of a voltage output and 8 to 2500 mV
  ends with status 0, and the value left in the register of that output, read back with the
  calibration formula, is at most 1.0893 mV below and 0.001 mV above the request.
\<close>

theorem voltage_from_command_line:
  assumes "boots (le_z env)" "le_thread env = 0" "bmp180_init (le_b env) (le_fresh env) 0x77 ''/dev/i2c-0'' (i2c s) = Inr (Some b, lg)"
    and "cfg_name name = Some r" "is_voltage name" "atoi (take 15 val) = v" "8 \<le> v" "v \<le> 2500"
  shows "\<exists>s'. main fuel env evs [prog, ''-s'', name, val] s = Inr (0, s')
    \<and> of_int v - 10893 / 10000 < hv_mV (cfg_mem s' (cfg_off r)) \<and> hv_mV (cfg_mem s' (cfg_off r)) \<le> of_int v + 1 / 1000"
proof -
  have "parse_param [prog, ''-s'', name, val] (s\<lparr>i2c := lg\<rparr>) = Inr (1, s\<lparr>i2c := lg, args := set_args (args s) name r val\<rparr>)"
    using parse_set_voltage [OF assms(4,5), of val prog "s\<lparr>i2c := lg\<rparr>"] assms(6,8) by simp
  from main_start [OF assms(1-3) this, of fuel evs] obtain u where
    u: "main fuel env evs [prog, ''-s'', name, val] s = then_c (seq_c [run_mode fuel env (Some (b\<lparr>b_oss := 1\<rparr>)) evs, release_devices env]) (ret_c 0) u"
    "\<forall>d \<in> {Intc, Cfg, Sts, Xadc, Hst0, Hst1}. mapped u d 1024" "args u = set_args (args s) name r val" by auto
  then have m: "mapped u Cfg 92" using mapped_mono by fastforce
  obtain n where n: "dac_of_mV v = Inr n" "of_int v - 10893 / 10000 < hv_mV n" "hv_mV n \<le> of_int v + 1 / 1000"
    using dac_accuracy [OF assms(7,8)] by blast
  have "\<exists>u'. set_register u = Inr ((), u') \<and> cfg_mem u' (cfg_off r) = n"
    using m u(3) n(1) assms(6) by (simp add: set_register_def set_voltage_def set_args_def cm_defs del: cfg_off.simps)
  then obtain u' where u': "set_register u = Inr ((), u')" "cfg_mem u' (cfg_off r) = n" by blast
  have "run_mode fuel env (Some (b\<lparr>b_oss := 1\<rparr>)) evs u = Inr ((), u')"
    using u(3) u'(1) by (simp add: run_mode_def bind_c_def get_c_def set_args_def reset_flags_def)
  then show ?thesis using u(1) u'(2) n(2,3) release_run [of env u'] by (auto simp: then_c_def ret_c_def)
qed

lemma sample_boots: "boots sample_env"
proof -
  have "scan_0x ''0x00001000'' = Inr 4096" by code_simp
  then show ?thesis by (simp add: boots_def sample_env_def)
qed

lemma sample_sensor: "\<exists>b lg'. bmp180_init (sample_benv\<lparr>be_bus := (\<lambda>_. 0)\<rparr>) sample_bmp 0x77 ''/dev/i2c-0'' lg = Inr (Some b, lg')"
  by (simp add: bmp180_init_def sample_benv_def i2c_do_def i2c_read_def bmp180_set_addr_def bmp180_read_eprom_def bmp180_read_eprom_reg_def
      cm_defs Let_def)

definition main_lenv :: lenv where
  "main_lenv = sample_lenv\<lparr>le_b := sample_benv\<lparr>be_bus := (\<lambda>_. 0)\<rparr>\<rparr>"

theorem voltage_from_command_line_witness:
  "\<exists>s'. main 0 main_lenv [] [''lago'', ''-s'', ''hv2'', ''1200''] sample_lago = Inr (0, s')
     \<and> hv_mV (cfg_mem s' (cfg_off CFG_HV2)) \<le> 1200001 / 1000"
proof -
  have e: "boots (le_z main_lenv)" "le_thread main_lenv = 0" using sample_boots by (simp_all add: main_lenv_def sample_lenv_def)
  obtain b lg where b: "bmp180_init (le_b main_lenv) (le_fresh main_lenv) 0x77 ''/dev/i2c-0'' (i2c sample_lago) = Inr (Some b, lg)"
    using sample_sensor [of "i2c sample_lago"] by (auto simp: main_lenv_def sample_lenv_def)
  have "cfg_name ''hv2'' = Some CFG_HV2" "is_voltage ''hv2''" "atoi (take 15 ''1200'') = 1200" by code_simp+
  from voltage_from_command_line [OF e b this, of 0 "[]" "''lago''"] show ?thesis by auto
qed

section \<open>An acquisition\<close>

text \<open>The parser changes its arguments and prints, nothing else.\<close>

lemma parse_frame: "pres (\<lambda>s. glob_view s = g) (parse_param argv)"
proof -
  have o: "pres (\<lambda>s. glob_view s = g) (parse_options xs)" for xs
    by (induction xs rule: parse_options.induct)
      (auto simp: args_c_def split: list.splits intro!: pres_intro pres_mod simp: glob_view_def)
  have a: "pres (\<lambda>s. glob_view s = g) (args_c f)" "pres (\<lambda>s. glob_view s = g) (printf x)" for f x
    by (auto simp: args_c_def glob_view_def intro!: pres_mod pres_out)
  show ?thesis
    unfolding parse_param_def parse_param_with_def parse_action_def parse_register_def parse_device_def parse_histogram_def
      parse_set_def parse_file_def parse_other_def Let_def
    by (intro pres_intro o a)
qed

text \<open>
  C3. From the command line: \<open>lago -o\<close>, \<open>lago -f <name>\<close> or any other command line that selects an acquisition ends with status 0 when SIGINT
  arrives, for any memory contents and any interleaving of the loop, the interrupt thread and the signal.  The program maps what it reads itself, and that is 4 MB of
  the 8 MB ring: the condition on the hardware is that the position register does not go back and stays within the
  524288 positions mapped (past them no call of \<open>read_buffer\<close> returns).  The others: the operating system opens and maps the devices, pages have 4096
  bytes, the sensor and the interrupt device answer, and the program starts with its static variables.
\<close>

theorem acquisition_ends:
  assumes "boots (le_z env)" "pagesize (le_z env) = 4096" "le_thread env = 0"
    and "bmp180_init (le_b env) (le_fresh env) 0x77 ''/dev/i2c-0'' (i2c s) = Inr (Some b, lg)"
    and "parse_param argv (s\<lparr>i2c := lg\<rparr>) = Inr (1, t)" "fToFile (args t) \<or> fToStdout (args t)"
    and "\<not> fInitSystem (args s)" "position s = 0" "fFirstTime s"
    and "env_ok env (Some (b\<lparr>b_oss := 1\<rparr>))" "shows_position env q" "writer_in_mapping q" "\<forall>e \<in> set evs. ev_ok e" "Sigint \<in> set evs"
  shows "\<exists>s'. main fuel env evs argv s = Inr (0, s')"
proof -
  obtain u where u: "main fuel env evs argv s = then_c (seq_c [run_mode fuel env (Some (b\<lparr>b_oss := 1\<rparr>)) evs, release_devices env]) (ret_c 0) u"
    "\<forall>d \<in> {Intc, Cfg, Sts, Xadc, Hst0, Hst1}. mapped u d 1024" "args u = args t" "glob_view u = glob_view t"
    "ptrs u Cma = Mapped (page_up (le_z env) (1024 * pagesize (le_z env)))"
    using main_start [OF assms(1,3,4,5)] by blast
  have "glob_view t = glob_view (s\<lparr>i2c := lg\<rparr>)" using presD [OF parse_frame assms(5) refl] .
  then have g: "position u = 0" "fFirstTime u" using u(4) assms(8,9) by (simp_all add: glob_view_def)
  have m: "mapped u Cfg 92" "mapped u Xadc 1024" "mapped u Intc 16" "mapped u Sts 4" using u(2) mapped_mono by fastforce+
  have "ptrs u Cma = Mapped 4194304" using u(5) assms(2) by (simp add: page_up_def)
  moreover have "0 \<le> q (pos_looks u)" using assms(12) by (simp add: writer_in_mapping_def)
  ultimately have "can_run q u" using g m by (simp add: can_run_def devs_ok_def)
  then obtain v where v: "run_daq env (Some (b\<lparr>b_oss := 1\<rparr>)) evs u = Inr ((), v)" using run_daq_ends [OF assms(10-13) _ assms(14)] by blast
  have "length (filter id (mode_flags (args t))) = 1" using parse_one_mode [OF assms(5)] assms(7) by simp
  then have "run_mode fuel env (Some (b\<lparr>b_oss := 1\<rparr>)) evs u = Inr ((), v)"
    using v assms(6) u(3) by (auto simp: run_mode_def mode_flags_def bind_c_def get_c_def if_c_def split: if_splits)
  then show ?thesis using u(1) release_run [of env v] by (auto simp: then_c_def ret_c_def)
qed

text \<open>\<open>lago -o\<close> with the writer at 8 bytes, the interrupt pending and a sensor with the coefficients of the data sheet; the signal arrives after one pass.\<close>

definition acq_lenv :: lenv where
  "acq_lenv = daq_lenv\<lparr>le_b := sample_benv\<rparr>"

lemma acq_sensor: "\<exists>lg. bmp180_init sample_benv sample_bmp 0x77 ''/dev/i2c-0'' [] = Inr (Some sample_bmp, lg)"
proof -
  have "(case bmp180_init sample_benv sample_bmp 0x77 ''/dev/i2c-0'' [] of Inr (Some b, lg) \<Rightarrow> b = sample_bmp | _ \<Rightarrow> False)" by code_simp
  then show ?thesis by (auto split: sum.splits option.splits)
qed

lemma acq_readings: "\<exists>b. bmp_B5 (sample_bmp\<lparr>b_oss := 1\<rparr>) 0 = Inr b" "\<exists>p. bmp_pressure (sample_bmp\<lparr>b_oss := 1\<rparr>) 0 0 = Inr p"
proof -
  have "\<not> isl (bmp_B5 (sample_bmp\<lparr>b_oss := 1\<rparr>) 0)" by code_simp
  then show "\<exists>b. bmp_B5 (sample_bmp\<lparr>b_oss := 1\<rparr>) 0 = Inr b" by (metis sum.collapse(2))
  have "\<not> isl (bmp_pressure (sample_bmp\<lparr>b_oss := 1\<rparr>) 0 0)" by code_simp
  then show "\<exists>p. bmp_pressure (sample_bmp\<lparr>b_oss := 1\<rparr>) 0 0 = Inr p" by (metis sum.collapse(2))
qed

lemma acq_lenv_ok: "boots (le_z acq_lenv)" "pagesize (le_z acq_lenv) = 4096" "le_thread acq_lenv = 0"
  "env_ok acq_lenv (Some (sample_bmp\<lparr>b_oss := 1\<rparr>))" "shows_position acq_lenv (\<lambda>_. 1)" "le_b acq_lenv = sample_benv" "le_fresh acq_lenv = sample_bmp"
proof -
  show "boots (le_z acq_lenv)" using sample_boots by (simp add: acq_lenv_def daq_lenv_def boots_def)
  show "env_ok acq_lenv (Some (sample_bmp\<lparr>b_oss := 1\<rparr>))"
    using acq_readings
    by (auto simp: env_ok_def acq_lenv_def daq_lenv_def sample_lenv_def bmp180_temperature_def bmp180_pressure_def
        bmp180_read_raw_temperature_def bmp180_read_raw_pressure_def i2c_do_def i2c_read_def sample_benv_def swap16_def le_view_def
        shr_checked_def sample_bmp_def cm_defs Let_def)
  show "shows_position acq_lenv (\<lambda>_. 1)" using daq_lenv_position(1) by (simp add: acq_lenv_def shows_position_def)
qed (simp_all add: acq_lenv_def daq_lenv_def sample_lenv_def sample_env_def)

theorem acquisition_ends_witness:
  "\<exists>s'. main 0 acq_lenv daq_evs [''lago'', ''-o''] sample_lago = Inr (0, s')"
proof -
  have s: "i2c sample_lago = []" "\<not> fInitSystem (args sample_lago)" "position sample_lago = 0" "fFirstTime sample_lago"
    by (simp_all add: sample_lago_def uart_st.defs sample_uart_def zio.defs sample_args_def)
  obtain lg where lg: "bmp180_init sample_benv sample_bmp 0x77 ''/dev/i2c-0'' [] = Inr (Some sample_bmp, lg)" using acq_sensor by blast
  have "\<exists>t. parse_param [''lago'', ''-o''] (sample_lago\<lparr>i2c := lg\<rparr>) = Inr (1, t) \<and> fToStdout (args t)"
    by (simp add: parse_param_def parse_param_with_def parse_action_def cm_defs copy_arg_def arg_at_def copied_def MAXCHRLEN_def)
  then obtain t where t: "parse_param [''lago'', ''-o''] (sample_lago\<lparr>i2c := lg\<rparr>) = Inr (1, t)" "fToStdout (args t)" by blast
  from acquisition_ends [OF acq_lenv_ok(1-3) _ t(1) _ s(2-4) acq_lenv_ok(4,5) daq_lenv_position(2) daq_lago_ok(4,5), of 0]
  show ?thesis using lg s(1) acq_lenv_ok(6,7) t(2) by simp
qed

section \<open>The histogram run\<close>

lemma for_printf: "for_c xs (\<lambda>i. printf (f i)) s = Inr ((), s\<lparr>c_out := c_out s @ concat (map f xs)\<rparr>)"
  by (induction xs arbitrary: s) (simp_all add: printf_def)

definition hist_text :: "lenv \<Rightarrow> string" where
  "hist_text env = concat (map (\<lambda>i. fmt_d (of_u32 (le_hst env 0 i)) @ '' '' @ fmt_d (of_u32 (le_hst env 1 i)) @ nl) [0..<HIST_WORDS])"

lemma print_histograms_run:
  assumes "bram_ok s Hst0" "bram_ok s Hst1"
  shows "print_histograms env s = Inr ((), s\<lparr>c_out := c_out s @ hist_text env\<rparr>)"
proof -
  have "copy_bram Hst0 s = Inr ((), s)" "copy_bram Hst1 s = Inr ((), s)"
    using assms by (auto simp: copy_bram_def bram_ok_def mapped_def split: ptr.splits)
  then show ?thesis by (simp add: print_histograms_def then_c_def for_printf hist_text_def)
qed

text \<open>The counter of accepted samples, as the status register shows it at each poll.\<close>

definition polls :: "access list \<Rightarrow> nat" where
  "polls lg = length (filter (\<lambda>a. a = Rd Sts 4) lg)"

definition shows_count :: "lenv \<Rightarrow> (nat \<Rightarrow> int) \<Rightarrow> bool" where
  "shows_count env cnt \<longleftrightarrow> (\<forall>lg. of_u32 (hw_read (le_z env) lg Sts 4) = cnt (polls lg))"

definition hist_ready :: "'a lago_scheme \<Rightarrow> bool" where
  "hist_ready s \<longleftrightarrow> mapped s Sts 8 \<and> bram_ok s Hst0 \<and> bram_ok s Hst1"

lemma hist_ready_ptrs: "ptrs s' = ptrs s \<Longrightarrow> hist_ready s' = hist_ready s"
  by (simp add: hist_ready_def bram_ok_def mapped_def)

lemma poll_run:
  assumes "hist_ready s" "shows_count env cnt"
  shows "rd_reg_value (le_z env) 2 4 False s = Inr (cnt (polls (accs s)), s\<lparr>accs := accs s @ [Rd Sts 4]\<rparr>)"
proof -
  have "dev_check Sts 4 s = Inr ((), s)"
    using assms(1) by (auto simp: hist_ready_def mapped_def dev_check_def split: ptr.splits)
  then show ?thesis using assms(2) by (simp add: rd_reg_value_def dev_read_def reg_value_def shows_count_def cm_defs)
qed

lemma hist_loop_run:
  assumes "shows_count env cnt" "hist_ready s" "histo_position s < histo_limit s" "polls (accs s) = j"
    and "\<forall>i < k. cnt (j + i) < histo_limit s" "histo_limit s \<le> cnt (j + k)" "k < fuel"
  shows "\<exists>s'. hist_loop fuel env s = Inr ((), s') \<and> c_out s' = c_out s @ hist_text env \<and> sleeps s' = sleeps s @ replicate k 100
    \<and> cfg_mem s' = cfg_mem s \<and> ptrs s' = ptrs s"
  using assms(2-)
proof (induction k arbitrary: s j fuel)
  case 0
  then obtain n where f: "fuel = Suc n" by (cases fuel) auto
  let ?t = "s\<lparr>accs := accs s @ [Rd Sts 4], histo_position := cnt j\<rparr>"
  have "hist_ready ?t" using 0(1) hist_ready_ptrs [of ?t s] by simp
  then have p: "print_histograms env ?t = Inr ((), ?t\<lparr>c_out := c_out s @ hist_text env\<rparr>)"
    using print_histograms_run [of ?t env] by (simp add: hist_ready_def)
  have "hist_loop n env (?t\<lparr>c_out := c_out s @ hist_text env\<rparr>) = Inr ((), ?t\<lparr>c_out := c_out s @ hist_text env\<rparr>)"
    using 0 by (subst hist_loop.simps) simp
  then show ?case using 0 f p poll_run [OF 0(1) assms(1)] by (subst hist_loop.simps) (simp add: cm_defs)
next
  case (Suc k)
  then obtain n where f: "fuel = Suc n" by (cases fuel) auto
  let ?t = "s\<lparr>accs := accs s @ [Rd Sts 4], histo_position := cnt j, sleeps := sleeps s @ [100]\<rparr>"
  have lt: "cnt j < histo_limit s" using Suc.prems(4) by auto
  have "hist_ready ?t" using Suc.prems(1) hist_ready_ptrs [of ?t s] by simp
  moreover have "\<forall>i < k. cnt (Suc j + i) < histo_limit ?t" using Suc.prems(4) by auto
  ultimately obtain s' where s': "hist_loop n env ?t = Inr ((), s')" "c_out s' = c_out s @ hist_text env"
      "sleeps s' = (sleeps s @ [100]) @ replicate k 100" "cfg_mem s' = cfg_mem s" "ptrs s' = ptrs s"
    using Suc.IH [of ?t "Suc j" n] Suc.prems(3,5,6) lt f by (auto simp: polls_def)
  then show ?case using Suc.prems(2,3) f lt poll_run [OF Suc.prems(1) assms(1)] by (subst hist_loop.simps) (simp add: cm_defs)
qed

text \<open>
  C22. The histogram loop ends: if the counter of samples reaches the limit at some poll, the loop returns at
  that poll, having waited 100 us for every poll before it, and prints the two memories once; if it never does, no number of polls is enough.
\<close>

theorem histogram_loop_ends:
  assumes "shows_count env cnt" "hist_ready s" "histo_position s < histo_limit s"
  shows "(\<forall>k fuel. (\<forall>i < k. cnt (polls (accs s) + i) < histo_limit s) \<and> histo_limit s \<le> cnt (polls (accs s) + k) \<and> k < fuel \<longrightarrow>
       (\<exists>s'. hist_loop fuel env s = Inr ((), s') \<and> c_out s' = c_out s @ hist_text env \<and> sleeps s' = sleeps s @ replicate k 100))
     \<and> ((\<forall>i. cnt i < histo_limit s) \<longrightarrow> (\<forall>fuel. hist_loop fuel env s = Inl Blocked))"
proof (intro conjI allI impI)
  fix k fuel
  assume "(\<forall>i < k. cnt (polls (accs s) + i) < histo_limit s) \<and> histo_limit s \<le> cnt (polls (accs s) + k) \<and> k < fuel"
  then show "\<exists>s'. hist_loop fuel env s = Inr ((), s') \<and> c_out s' = c_out s @ hist_text env \<and> sleeps s' = sleeps s @ replicate k 100"
    using hist_loop_run [OF assms refl] by blast
next
  fix fuel
  assume never: "\<forall>i. cnt i < histo_limit s"
  show "hist_loop fuel env s = Inl Blocked" using assms(2,3) never
  proof (induction fuel arbitrary: s)
    case 0
    then show ?case by (subst hist_loop.simps) simp
  next
    case (Suc n)
    let ?t = "s\<lparr>accs := accs s @ [Rd Sts 4], histo_position := cnt (polls (accs s)), sleeps := sleeps s @ [100]\<rparr>"
    have lt: "cnt (polls (accs s)) < histo_limit s" using Suc.prems(3) by blast
    have "hist_ready ?t" using Suc.prems(1) hist_ready_ptrs [of ?t s] by simp
    then have "hist_loop n env ?t = Inl Blocked" using Suc.IH [of ?t] lt Suc.prems(3) by simp
    then show ?case using Suc.prems(2) lt poll_run [OF Suc.prems(1) assms(1)] by (subst hist_loop.simps) (simp add: cm_defs)
  qed
qed

definition hist_lenv :: lenv where
  "hist_lenv = main_lenv\<lparr>le_z := sample_env\<lparr>hw_read := (\<lambda>lg d off. of_nat (polls lg))\<rparr>\<rparr>"

definition hist_lago :: lago where
  "hist_lago = sample_lago\<lparr>ptrs := (\<lambda>_. Mapped 65536), accs := [], histo_limit := 2, args := sample_args\<lparr>histo_nsamples := 4\<rparr>\<rparr>"

lemma hist_lago_ok:
  "shows_count hist_lenv (\<lambda>n. of_u32 (of_nat n))" "hist_ready hist_lago" "mapped hist_lago Cfg 92" "polls (accs hist_lago) = 0"
  "histo_position hist_lago = 0" "histo_limit hist_lago = 2" "histo_nsamples (args hist_lago) = 4" "sleeps hist_lago = []"
  "\<forall>i < 2. of_u32 (of_nat i) < 2" "2 \<le> of_u32 (of_nat 2)"
  by (auto simp: shows_count_def hist_lenv_def hist_lago_def hist_ready_def bram_ok_def mapped_def HIST_WORDS_def polls_def
      sample_lago_def uart_st.defs sample_uart_def zio.defs of_u32_def less_2_cases_iff)

theorem histogram_loop_ends_witness:
  "\<exists>s'. hist_loop 3 hist_lenv hist_lago = Inr ((), s') \<and> sleeps s' = [100, 100]"
proof -
  have lt: "histo_position hist_lago < histo_limit hist_lago" by (simp add: hist_lago_ok)
  have "(\<forall>i < 2. of_u32 (of_nat (polls (accs hist_lago) + i)) < histo_limit hist_lago)
      \<and> histo_limit hist_lago \<le> of_u32 (of_nat (polls (accs hist_lago) + 2)) \<and> 2 < (3 :: nat)"
    using hist_lago_ok(9,10) by (simp add: hist_lago_ok(4,6))
  from conjunct1 [OF histogram_loop_ends [OF hist_lago_ok(1,2) lt], rule_format, OF this]
  show ?thesis by (auto simp: hist_lago_ok(8) numeral_2_eq_2)
qed

definition hist_view :: "'a lago_scheme \<Rightarrow> (dev \<Rightarrow> ptr) \<times> int \<times> int \<times> int \<times> nat \<times> string" where
  "hist_view s = (ptrs s, histo_position s, histo_limit s, histo_nsamples (args s), polls (accs s), c_out s)"

definition bank_upd :: "cfg_reg \<times> (int \<Rightarrow> int) \<Rightarrow> (u32 \<Rightarrow> u32) \<Rightarrow> u32 \<Rightarrow> u32" where
  "bank_upd u m = m(cfg_off (fst u) := to_u32 (snd u (of_u32 (m (cfg_off (fst u))))))"

lemma reg_rmw_run:
  assumes "mapped s Cfg 92"
  shows "\<exists>s'. reg_rmw env r f s = Inr ((), s') \<and> hist_view s' = hist_view s \<and> cfg_mem s' = bank_upd (r, f) (cfg_mem s)"
proof -
  let ?t = "s\<lparr>accs := accs s @ [Rd Cfg (cfg_off r)], args := (args s)\<lparr>reg_val := of_u32 (cfg_mem s (cfg_off r))\<rparr>\<rparr>"
  have "mapped ?t Cfg 92" using assms by (simp add: mapped_def)
  from cfg_write_run [OF this, of r] assms show ?thesis
    by (simp add: reg_rmw_def rd_reg_value_def wr_reg_value_def cm_defs hist_view_def polls_def bank_upd_def del: cfg_off.simps)
qed

lemma reg_script:
  assumes "mapped s Cfg 92"
  shows "\<exists>s'. seq_c (map (\<lambda>(r, f). reg_rmw env r f) ups) s = Inr ((), s') \<and> hist_view s' = hist_view s \<and> cfg_mem s' = fold bank_upd ups (cfg_mem s)"
  using assms
proof (induction ups arbitrary: s)
  case (Cons u ups)
  obtain r f where u: "u = (r, f)" by (cases u)
  obtain t where t: "reg_rmw env r f s = Inr ((), t)" "hist_view t = hist_view s" "cfg_mem t = bank_upd (r, f) (cfg_mem s)"
    using reg_rmw_run [OF Cons.prems] by blast
  then have "mapped t Cfg 92" using Cons.prems by (simp add: hist_view_def mapped_def)
  from Cons.IH [OF this] t show ?case by (auto simp: u)
qed simp

definition hist_on :: "int \<Rightarrow> (cfg_reg \<times> (int \<Rightarrow> int)) list" where
  "hist_on lm = [(CFG_HST0, \<lambda>v. v OR (lm + 1)), (CFG_HST1, \<lambda>v. v OR (lm + 1)), (CFG_RESET_GRAL, \<lambda>v. v OR 0x20), (CFG_RESET_GRAL, \<lambda>v. v OR 0x40)]"

definition hist_off :: "(cfg_reg \<times> (int \<Rightarrow> int)) list" where
  "hist_off = [(CFG_RESET_GRAL, \<lambda>v. v AND NOT 0x20), (CFG_RESET_GRAL, \<lambda>v. v AND NOT 0x40)]"

lemma run_histogram_eq: "run_histogram fuel env s =
    (let lm = histo_nsamples (args s) - 2 in
     then_c (seq_c (map (\<lambda>(r, f). reg_rmw env r f) hist_off))
     (then_c (usleep_c 100)
     (bind_c (get_c histo_limit) (\<lambda>lm. then_c (seq_c (map (\<lambda>(r, f). reg_rmw env r f) (hist_on lm)))
     (then_c (hist_loop fuel env) (seq_c (map (\<lambda>(r, f). reg_rmw env r f) hist_off))))))) (s\<lparr>histo_limit := histo_nsamples (args s) - 2\<rparr>)"
  by (simp add: run_histogram_def hist_off_def hist_on_def then_c_def bind_c_def get_c_def mod_c_def Let_def split: sum.splits prod.splits)

lemma to_u32_bits: "to_u32 (x AND y) = to_u32 x AND to_u32 y" "to_u32 (x OR y) = to_u32 x OR to_u32 y"
  by (simp_all add: to_u32_def of_int_and_eq of_int_or_eq)

lemma hist_bits: "(((((v AND - 33) AND - 65) OR 32) OR 64) AND - 33) AND - 65 = v AND (- 97 :: u32)"
proof -
  have "(((((v AND - 33) AND - 65) OR 32) OR 64) AND - 33) AND - 65 = ((v AND - 97) OR 96) AND (- 97 :: u32)" by (simp add: or.assoc and.assoc)
  then show ?thesis by (simp add: bit.conj_disj_distrib2 and.assoc)
qed

lemma hist_bank:
  "fold bank_upd (hist_off @ hist_on lm @ hist_off) m = m(cfg_off CFG_RESET_GRAL := m (cfg_off CFG_RESET_GRAL) AND NOT 0x60,
     cfg_off CFG_HST0 := m (cfg_off CFG_HST0) OR to_u32 (lm + 1), cfg_off CFG_HST1 := m (cfg_off CFG_HST1) OR to_u32 (lm + 1))"
proof -
  have "to_u32 (NOT 0x20) = - 33" "to_u32 (NOT 0x40) = - 65" "to_u32 0x20 = 32" "to_u32 0x40 = 64" by (simp_all add: to_u32_def)
  then show ?thesis
    by (auto simp: hist_on_def hist_off_def bank_upd_def to_u32_bits hist_bits fun_eq_iff)
qed

text \<open>
  C21. A histogram run that sees the counter reach the number of samples ends; it prints the histograms, takes the two
  histogram modules out of reset and back, and leaves in each of their sample count registers the OR of
  the requested count minus one with what was there before, not the requested count.
\<close>

theorem histogram_run_registers:
  assumes "shows_count env cnt" "hist_ready s" "mapped s Cfg 92" "polls (accs s) = 0" "histo_position s = 0" "2 < histo_nsamples (args s)"
    and "\<forall>i < k. cnt i < histo_nsamples (args s) - 2" "histo_nsamples (args s) - 2 \<le> cnt k" "k < fuel"
  shows "\<exists>s'. run_histogram fuel env s = Inr ((), s') \<and> c_out s' = c_out s @ hist_text env
    \<and> cfg_mem s' = (cfg_mem s)(cfg_off CFG_RESET_GRAL := cfg_mem s (cfg_off CFG_RESET_GRAL) AND NOT 0x60,
        cfg_off CFG_HST0 := cfg_mem s (cfg_off CFG_HST0) OR to_u32 (histo_nsamples (args s) - 1),
        cfg_off CFG_HST1 := cfg_mem s (cfg_off CFG_HST1) OR to_u32 (histo_nsamples (args s) - 1))"
proof -
  let ?lm = "histo_nsamples (args s) - 2"
  let ?s = "s\<lparr>histo_limit := ?lm\<rparr>"
  have "mapped ?s Cfg 92" using assms(3) by (simp add: mapped_def)
  then obtain t1 where t1: "seq_c (map (\<lambda>(r, f). reg_rmw env r f) hist_off) ?s = Inr ((), t1)" "hist_view t1 = hist_view ?s"
      "cfg_mem t1 = fold bank_upd hist_off (cfg_mem s)"
    using reg_script [of ?s env hist_off] by auto
  let ?t = "t1\<lparr>sleeps := sleeps t1 @ [100]\<rparr>"
  have "mapped ?t Cfg 92" "hist_view ?t = hist_view ?s" using t1(2) assms(3) by (simp_all add: mapped_def hist_view_def)
  then obtain t2 where t2: "seq_c (map (\<lambda>(r, f). reg_rmw env r f) (hist_on ?lm)) ?t = Inr ((), t2)" "hist_view t2 = hist_view ?s"
      "cfg_mem t2 = fold bank_upd (hist_on ?lm) (cfg_mem t1)"
    using reg_script [of ?t env "hist_on ?lm"] by auto
  have "hist_ready t2" "histo_position t2 < histo_limit t2" "polls (accs t2) = 0" "histo_limit t2 = ?lm" "c_out t2 = c_out s" "ptrs t2 = ptrs s"
    using t2(2) assms(2,4-6) hist_ready_ptrs [of t2 s] by (auto simp: hist_view_def)
  then obtain t3 where t3: "hist_loop fuel env t2 = Inr ((), t3)" "c_out t3 = c_out s @ hist_text env" "cfg_mem t3 = cfg_mem t2" "ptrs t3 = ptrs s"
    using hist_loop_run [OF assms(1), of t2 0 k fuel] assms(7-9) by auto
  then have "mapped t3 Cfg 92" using assms(3) by (simp add: mapped_def)
  then obtain t4 where t4: "seq_c (map (\<lambda>(r, f). reg_rmw env r f) hist_off) t3 = Inr ((), t4)" "hist_view t4 = hist_view t3"
      "cfg_mem t4 = fold bank_upd hist_off (cfg_mem t3)"
    using reg_script [of t3 env hist_off] by auto
  have "run_histogram fuel env s = Inr ((), t4)"
    using t1(1) t2(1) t3(1) t4(1) \<open>hist_view ?t = hist_view ?s\<close> by (simp add: run_histogram_eq then_c_def bind_c_def get_c_def usleep_c_def mod_c_def hist_view_def)
  moreover have "cfg_mem t4 = fold bank_upd (hist_off @ hist_on ?lm @ hist_off) (cfg_mem s)"
    using t1(3) t2(3) t3(3) t4(3) by simp
  moreover have "c_out t4 = c_out s @ hist_text env" using t4(2) t3(2) by (simp add: hist_view_def)
  ultimately show ?thesis unfolding hist_bank by (simp del: cfg_off.simps)
qed

theorem histogram_run_registers_witness:
  "\<exists>s'. run_histogram 3 hist_lenv hist_lago = Inr ((), s') \<and> c_out s' = c_out hist_lago @ hist_text hist_lenv"
proof -
  have "2 < histo_nsamples (args hist_lago)" "\<forall>i < 2. of_u32 (of_nat i) < histo_nsamples (args hist_lago) - 2"
    "histo_nsamples (args hist_lago) - 2 \<le> of_u32 (of_nat 2)" "2 < (3 :: nat)"
    using hist_lago_ok(9,10) by (simp_all add: hist_lago_ok(7))
  from histogram_run_registers [OF hist_lago_ok(1-5) this] show ?thesis by blast
qed

end
