(* ===== verification/Lago_V13.thy ===== *)
theory Lago_V13
  imports Daq_Run
begin

text \<open>
  The previous release, \<^verbatim>\<open>projects/lago_v1_3/src\<close>: the functions of \<^verbatim>\<open>lago.c\<close> and \<^verbatim>\<open>zynq_io.c\<close> whose
  code differs from \<^verbatim>\<open>lago_v1_5\<close>.  What is textually the same in both (the other files, the handling
  of a word, the data files, the interrupt wait) is shared with the model of the current release.  The theorems
  say in what the two releases agree, and why the readout had to be replaced: in the
  previous one every call after the first skips a word, and after the first turn of the ring no word is
  read any more.
\<close>

section \<open>zynq\_io.c\<close>

text \<open>The histogram memories are mapped through \<^verbatim>\<open>/dev/mem\<close>.\<close>

definition mem_hst_init :: "zenv \<Rightarrow> dev \<Rightarrow> string \<Rightarrow> nat \<Rightarrow> ('a zio_scheme, int) cm" where
  "mem_hst_init env d who base = bind_c (open_dev env d ''/dev/mem'') (\<lambda>fd.
     if fd < 1 then then_c (printf (who @ '': Invalid device file:/dev/mem.'' @ nl)) (ret_c (- 1))
     else bind_c (mmap_dev env d ''/dev/mem'' (16 * pagesize env) base) (\<lambda>ok.
       if ok then ret_c 0 else then_c (printf (''mem_init: mmap call failure.'' @ nl)) (ret_c (- 1))))"

definition hst0_init_v13 :: "zenv \<Rightarrow> ('a zio_scheme, int) cm" where
  "hst0_init_v13 env = mem_hst_init env Hst0 ''hst0_init'' 0x40010000"

definition hst1_init_v13 :: "zenv \<Rightarrow> ('a zio_scheme, int) cm" where
  "hst1_init_v13 env = mem_hst_init env Hst1 ''hst1_init'' 0x40020000"

definition rd_cfg_status_v13 :: "zenv \<Rightarrow> ('a zio_scheme, int) cm" where
  "rd_cfg_status_v13 env = then_c (seq_c [
     print_cfg_d env ''#Trigger Level Ch1 = '' CFG_TRLVL_1,
     print_cfg_d env ''#Trigger Level Ch2 = '' CFG_TRLVL_2,
     print_cfg_mV env ''#High Voltage 1    = '' CFG_HV1,
     print_cfg_mV env ''#High Voltage 2    = '' CFG_HV2,
     print_cfg_d env ''#Trigger Scaler 1  = '' CFG_TR_SCAL_A,
     print_cfg_d env ''#Trigger Scaler 2  = '' CFG_TR_SCAL_B,
     bind_c (dev_read env Cfg (cfg_off CFG_RESET_GRAL)) (\<lambda>w.
       if drop_bit 4 w AND 1 = 1 then printf (''#No GPS device is present or enabled'' @ nl)
       else printf (''#Using GPS data'' @ nl)),
     bind_c (dev_read env Cfg (cfg_off CFG_RESET_GRAL)) (\<lambda>w.
       if drop_bit 5 w AND 1 = 0 then printf (''#Working mode is SLAVE'' @ nl)
       else printf (''#Working mode is MASTER'' @ nl)),
     printf nl,
     printf (''Status from registers complete!'' @ nl)]) (ret_c 0)"

definition init_system_v13 :: "zenv \<Rightarrow> ('a zio_scheme, int) cm" where
  "init_system_v13 env = then_c (seq_c [
     cfg_set CFG_TRLVL_1 8190,
     cfg_set CFG_TRLVL_2 8190,
     cfg_set CFG_STRLVL_1 8190,
     cfg_set CFG_STRLVL_2 8190,
     cfg_set CFG_HV1 0,
     cfg_set CFG_HV2 0,
     cfg_rmw env CFG_RESET_GRAL (\<lambda>v. v AND NOT 8),
     cfg_rmw env CFG_RESET_GRAL (\<lambda>v. v AND NOT 1),
     cfg_rmw env CFG_RESET_GRAL (\<lambda>v. v AND NOT 4),
     cfg_rmw env CFG_RESET_GRAL (\<lambda>v. v AND NOT 2),
     cfg_set CFG_NSAMPLES (1024 * 1024),
     cfg_set CFG_TR_SCAL_A 1,
     cfg_set CFG_TR_SCAL_B 1,
     cfg_rmw env CFG_RESET_GRAL (\<lambda>v. v OR FGPS_EN_MASK),
     cfg_rmw env CFG_RESET_GRAL (\<lambda>v. v OR 8),
     cfg_rmw env CFG_RESET_GRAL (\<lambda>v. v OR 0x20)]) (ret_c 0)"

section \<open>The command line\<close>

definition reset_flags_v13 :: "args \<Rightarrow> args" where
  "reset_flags_v13 a = a\<lparr>fReadReg := False, fWriteReg := False, fGetCfgStatus := False, fSetCfgReg := False,
     fToFile := False, fToStdout := False, fGetPT := False, fGetGPS := False, fFile := False, fCount := False,
     fByte := False, fData := False, fRegValue := False, fGetXADC := False\<rparr>"

definition parse_action_v13 :: "string \<Rightarrow> ('a lago_scheme, int option) cm" where
  "parse_action_v13 act =
     (if act = ''-r'' then then_c (args_c (\<lambda>a. a\<lparr>fReadReg := True\<rparr>)) (ret_c None)
      else if act = ''-w'' then then_c (args_c (\<lambda>a. a\<lparr>fWriteReg := True\<rparr>)) (ret_c None)
      else if act = ''-a'' then then_c (args_c (\<lambda>a. a\<lparr>fGetCfgStatus := True\<rparr>)) (ret_c (Some 1))
      else if act = ''-v'' then then_c (args_c (\<lambda>a. a\<lparr>fshowversion := True\<rparr>)) (ret_c (Some 0))
      else if act = ''-s'' then then_c (args_c (\<lambda>a. a\<lparr>fSetCfgReg := True\<rparr>)) (ret_c None)
      else if act = ''-f'' then then_c (args_c (\<lambda>a. a\<lparr>fToFile := True\<rparr>)) (ret_c None)
      else if act = ''-o'' then then_c (args_c (\<lambda>a. a\<lparr>fToStdout := True\<rparr>)) (ret_c (Some 1))
      else if act = ''-t'' then then_c (args_c (\<lambda>a. a\<lparr>fGetPT := True\<rparr>)) (ret_c (Some 1))
      else if act = ''-g'' then then_c (args_c (\<lambda>a. a\<lparr>fGetGPS := True\<rparr>)) (ret_c (Some 1))
      else if act = ''-i'' then then_c (args_c (\<lambda>a. a\<lparr>fInitSystem := True\<rparr>)) (ret_c (Some 1))
      else if act = ''-x'' then then_c (args_c (\<lambda>a. a\<lparr>fGetXADC := True\<rparr>)) (ret_c (Some 1))
      else ret_c (Some 0))"

definition parse_register_v13 :: "string list \<Rightarrow> ('a lago_scheme, int) cm" where
  "parse_register_v13 argv = bind_c (get_c args) (\<lambda>a.
     if fReadReg a \<or> fWriteReg a then parse_device argv
     else if fSetCfgReg a then parse_set argv
     else if fToFile a then parse_file argv
     else parse_other argv)"

definition parse_param_v13 :: "string list \<Rightarrow> ('a lago_scheme, int) cm" where
  "parse_param_v13 argv =
     then_c (args_c reset_flags_v13)
     (if length argv < 2 then ret_c 0
      else bind_c (lift_c (copy_arg MAXCHRLEN argv 1)) (\<lambda>act.
        then_c (args_c (\<lambda>a. a\<lparr>charAction := act\<rparr>))
        (bind_c (parse_action_v13 act) (\<lambda>r. case r of Some v \<Rightarrow> ret_c v
         | None \<Rightarrow> parse_register_v13 argv))))"

definition REVISION_v13 :: int where "REVISION_v13 = 0"

definition show_usage_v13 :: "string \<Rightarrow> ('a lago_scheme, unit) cm" where
  "show_usage_v13 progname = bind_c (get_c (\<lambda>s. fshowversion (args s))) (\<lambda>v.
     if v then printf (''LAGO ACQUA BRC v'' @ fmt_d VERSION @ ''r'' @ fmt_d REVISION_v13 @ '' data v'' @ fmt_d DATAVERSION @ nl)
     else seq_c [
       printf (nl @ tab @ ''The LAGO ACQUA suite'' @ nl),
       printf (tab @ ''Data acquisition system for the LAGO BRC electronic'' @ nl),
       printf (tab @ ''(c) 2012-Today, The LAGO Project, http://lagoproject.net'' @ nl),
       printf (tab @ ''(c) 2012, LabDPR, http://labdpr.cab.cnea.gov.ar'' @ nl),
       printf (nl @ tab @ ''The LAGO Project, lago@lagoproject.org'' @ nl),
       printf (nl @ tab @ ''DPR Lab. 2021'' @ nl),
       printf (tab @ ''H. Arnaldi, lharnaldi@gmail.com'' @ nl),
       printf (tab @ ''X. Bertou, bertou@gmail.com'' @ nl),
       printf (tab @ ''LAGO v'' @ fmt_d VERSION @ ''r'' @ fmt_d REVISION_v13 @ '' comms soft'' @ nl @ nl),
       printf (''Usage: '' @ progname @ '' <action> <register> <value> [options]'' @ nl),
       printf (nl @ tab @ ''Actions:'' @ nl),
       printf (tab @ ''-a'' @ tab @ tab @ tab @ tab @ ''Get all registers status'' @ nl),
       printf (tab @ ''-s'' @ tab @ tab @ tab @ tab @ ''Set registers'' @ nl),
       printf (tab @ ''-f'' @ tab @ tab @ tab @ tab @ ''Start DAQ and save data to file'' @ nl),
       printf (tab @ ''-o'' @ tab @ tab @ tab @ tab @ ''Start DAQ and send data to stdout'' @ nl),
       printf (tab @ ''-g'' @ tab @ tab @ tab @ tab @ ''Get GPS data'' @ nl),
       printf (tab @ ''-t'' @ tab @ tab @ tab @ tab @ ''Get Pressure and Temperature data'' @ nl),
       printf (tab @ ''-i'' @ tab @ tab @ tab @ tab @ ''Initialise registers to default values'' @ nl),
       printf (tab @ ''-x'' @ tab @ tab @ tab @ tab @ ''Read the voltage in the XADC channels'' @ nl),
       printf (tab @ ''-v'' @ tab @ tab @ tab @ tab @ ''Show DAQ version'' @ nl),
       printf (nl @ tab @ ''Registers:'' @ nl),
       printf (tab @ ''t1, t2'' @ tab @ tab @ tab @ tab @ ''Specify triggers 1 and 2'' @ nl),
       printf (tab @ ''sc1, sc2'' @ tab @ tab @ tab @ ''Specify scaling factor 1 and 2'' @ nl),
       printf (tab @ ''hv1, hv2'' @ tab @ tab @ tab @ ''Specify high voltages'' @ nl),
       printf (tab @ ''ov1, ov2, ov3, ov4'' @ tab @ tab @ ''Specify output voltages'' @ nl),
       printf (nl @ tab @ ''Options:'' @ nl),
       printf (tab @ ''-f <filename>'' @ tab @ tab @ tab @ ''Specify file name'' @ nl),
       printf (nl @ nl)])"

section \<open>The readout\<close>

text \<open>
  Here \<open>limit\<close>, \<open>current\<close> and the position count 32-bit words, and \<open>cma_ptr\<close> points to 16-bit samples, so word \<open>i\<close>
  is read at byte \<open>2 * (2 * i)\<close>.
\<close>

definition read_window_v13 :: "int \<Rightarrow> int \<Rightarrow> int \<Rightarrow> int \<times> int \<times> int" where
  "read_window_v13 bound cur pos = (let cur = (if cur = bound - 2 then - 2 else cur) in
     if cur < pos + 2 then (cur, cur + 2, pos)
     else if cur > pos then (cur, cur + 2, bound)
     else (cur, 0, bound))"

definition read_step_v13 :: "lenv \<Rightarrow> bmp180 option \<Rightarrow> (nat \<Rightarrow> u32) \<Rightarrow> nat \<Rightarrow> ('a lago_scheme, unit) cm" where
  "read_step_v13 env bmp ram i = bind_c (cma_word ram (2 * unat (2 * word_of_nat i :: u32))) (\<lambda>wo.
     then_c (handle_word env bmp wo) (mod_c (\<lambda>s. s\<lparr>current := wrap32 (int i)\<rparr>)))"

definition read_buffer_v13 :: "lenv \<Rightarrow> (nat \<Rightarrow> u32) \<Rightarrow> int \<Rightarrow> bmp180 option \<Rightarrow> ('a lago_scheme, int) cm" where
  "read_buffer_v13 env ram pos bmp =
     bind_c (get_c args) (\<lambda>a.
     then_c (if_c (fToStdout a) (mod_c (\<lambda>s. s\<lparr>fhout := HStdout\<rparr>)))
     (bind_c (get_c fFirstTime) (\<lambda>f.
     then_c (if_c f (first_call env))
     (bind_c (get_c (\<lambda>s. read_window_v13 (limit s) (current s) pos)) (\<lambda>(cur, readinit, readend).
      then_c (mod_c (\<lambda>s. s\<lparr>current := cur\<rparr>))
      (then_c (if_c (cur \<noteq> pos)
         (for_c [unat (to_u32 readinit)..<unat (to_u32 readend)] (read_step_v13 env bmp ram)))
      (ret_c 1)))))))"

section \<open>main\<close>

definition devices_init_v13 :: "lenv \<Rightarrow> ('a lago_scheme, unit) cm" where
  "devices_init_v13 env = seq_c [void_c (intc_init (le_z env)), void_c (cfg_init (le_z env)), void_c (sts_init (le_z env)),
     void_c (xadc_init (le_z env)), void_c (cma_init (le_z env))]"

definition first_access_v13 :: "lenv \<Rightarrow> ('a lago_scheme, unit) cm" where
  "first_access_v13 env = bind_c (dev_read (le_z env) Cfg (cfg_off CFG_RESET_GRAL)) (\<lambda>v.
     if_c (v = 0) (seq_c [
       printf (''Initializing registers...'' @ nl),
       void_c (init_system_v13 (le_z env)),
       if le_thread env \<noteq> 0 then then_c (eprintf (''pthread_create :: error '' @ nl)) (stop_c (ExitWith 1))
         else mod_c (\<lambda>s. s\<lparr>not_gps := True\<rparr>),
       void_c enable_interrupt]))"

fun daq_loop_v13 :: "lenv \<Rightarrow> bmp180 option \<Rightarrow> daq_ev list \<Rightarrow> ('a lago_scheme, unit) cm" where
  "daq_loop_v13 env bmp [] = (\<lambda>s. if interrupted s then Inr ((), s) else Inl Blocked)"
| "daq_loop_v13 env bmp (Sigint # es) = then_c signal_handler (daq_loop_v13 env bmp es)"
| "daq_loop_v13 env bmp (ThreadWait ev # es) = bind_c (get_c not_gps) (\<lambda>t.
     then_c (if_c t (thread_isr_not_gps env [ev])) (daq_loop_v13 env bmp es))"
| "daq_loop_v13 env bmp (Pass ev ram # es) = bind_c (get_c interrupted) (\<lambda>i.
     if i then ret_c ()
     else then_c (wait_intc env ev) (bind_c (get_c position) (\<lambda>pos.
       then_c (read_buffer_v13 env ram pos bmp) (daq_loop_v13 env bmp es))))"

definition run_daq_v13 :: "lenv \<Rightarrow> bmp180 option \<Rightarrow> daq_ev list \<Rightarrow> ('a lago_scheme, unit) cm" where
  "run_daq_v13 env bmp evs =
     then_c (mod_c (\<lambda>s. s\<lparr>limit := 1024 * 1024, current := - 2\<rparr>))
     (then_c (seq_c [gral_rmw env (\<lambda>v. v OR 2), gral_rmw env (\<lambda>v. v OR 1), gral_rmw env (\<lambda>v. v OR 4)])
     (then_c (daq_loop_v13 env bmp evs)
     (seq_c [gral_rmw env (\<lambda>v. v AND NOT 1), gral_rmw env (\<lambda>v. v AND NOT 4), gral_rmw env (\<lambda>v. v AND NOT 2)])))"

definition run_mode_v13 :: "lenv \<Rightarrow> bmp180 option \<Rightarrow> daq_ev list \<Rightarrow> ('a lago_scheme, unit) cm" where
  "run_mode_v13 env bmp evs = bind_c (get_c args) (\<lambda>a.
     if fReadReg a then void_c (rd_reg_value (le_z env) (n_dev a) (reg_off a) True)
     else if fWriteReg a then void_c (wr_reg_value (n_dev a) (reg_off a) (reg_val a) True)
     else if fSetCfgReg a then set_register
     else if fGetCfgStatus a then void_c (rd_cfg_status_v13 (le_z env))
     else if fGetPT a then print_weather env bmp
     else if fGetGPS a then print_gps env
     else if fInitSystem a then then_c (printf (''Initializing registers...'' @ nl)) (void_c (init_system_v13 (le_z env)))
     else if fGetXADC a then print_xadc env
     else if_c (fToFile a \<or> fToStdout a) (run_daq_v13 env bmp evs))"

definition release_devices_v13 :: "lenv \<Rightarrow> ('a lago_scheme, unit) cm" where
  "release_devices_v13 env = (let pg = pagesize (le_z env) in
     then_c (for_c [Intc, Cfg, Sts, Xadc] (\<lambda>d. munmap_c d pg))
     (for_c [Intc, Cfg, Sts, Xadc] (\<lambda>d. bind_c (get_c (\<lambda>s. fds s d)) close_c)))"

definition main_v13 :: "lenv \<Rightarrow> daq_ev list \<Rightarrow> string list \<Rightarrow> ('a lago_scheme, int) cm" where
  "main_v13 env evs argv =
     bind_c (sensor_setup env) (\<lambda>bmp.
     bind_c (parse_param_v13 argv) (\<lambda>ok.
     if ok = 0 then bind_c (lift_c (arg_at argv 0)) (\<lambda>p. case p of None \<Rightarrow> stop_c NullDeref
       | Some progname \<Rightarrow> then_c (show_usage_v13 progname) (ret_c 1))
     else then_c (seq_c [devices_init_v13 env, writer_address env, first_access_v13 env,
         run_mode_v13 env bmp evs, release_devices_v13 env]) (ret_c 0)))"

section \<open>Agreement of the releases\<close>

lemma reset_flags_eq: "\<not> fGetHst a \<Longrightarrow> reset_flags a = reset_flags_v13 a"
  by (cases a) (simp add: reset_flags_def reset_flags_v13_def)

lemma parse_action_eq: "act \<noteq> ''-m'' \<Longrightarrow> parse_action act = parse_action_v13 act"
  by (simp add: parse_action_def parse_action_v13_def)

lemma parse_action_hst: "parse_action_v13 act s = Inr (r, s') \<Longrightarrow> fGetHst (args s') = fGetHst (args s)"
  by (auto simp: parse_action_v13_def cm_defs split: if_splits)

lemma parse_register_eq: "\<not> fGetHst (args s) \<Longrightarrow> parse_register parse_other argv s = parse_register_v13 argv s"
  by (simp add: parse_register_def parse_register_v13_def bind_c_def get_c_def)

definition init_ups_v13 :: "(cfg_reg \<times> (u32 \<Rightarrow> u32)) list" where
  "init_ups_v13 = take 15 init_ups @ [(CFG_RESET_GRAL, \<lambda>v. v OR 0x20)]"

lemma cfg_script_then:
  assumes "list_all2 cfg_act ms ups" "mapped s Cfg 92"
  shows "\<exists>a. then_c (seq_c ms) (ret_c v) s = Inr (v, (cfg_upds ups s)\<lparr>accs := a\<rparr>)"
  using cfg_script_run [OF assms] by (auto simp: then_c_def ret_c_def)

lemma init_system_v13_run: "mapped s Cfg 92 \<Longrightarrow>
    \<exists>a. init_system_v13 env s = Inr (0, (cfg_upds init_ups_v13 s)\<lparr>accs := a\<rparr>)"
  unfolding init_system_v13_def by (rule cfg_script_then) (simp_all add: init_ups_v13_def init_ups_def)

lemma init_ups_v13_value: "fold (\<lambda>(r, f) v. if r = q then f v else v) init_ups_v13 v
    = (if q = CFG_RESET_GRAL then (v AND NOT 15) OR 0x38 else init_value q v)"
  by (cases q) (simp_all add: init_ups_v13_def init_ups_def FGPS_EN_MASK_def and.assoc or.assoc)

text \<open>The start-up of both releases leaves the same registers but for the bit that selects the master mode.\<close>

lemma init_systems_agree:
  assumes "mapped s Cfg 92" "init_system env s = Inr (v, t)" "init_system_v13 env s = Inr (w, u)"
  shows "v = w \<and> (\<forall>r. r \<noteq> CFG_RESET_GRAL \<longrightarrow> cfg_mem u (cfg_off r) = cfg_mem t (cfg_off r))
    \<and> cfg_mem u (cfg_off CFG_RESET_GRAL) OR 0x800 = cfg_mem t (cfg_off CFG_RESET_GRAL) OR 0x20"
proof -
  obtain a b where "init_system env s = Inr (0, (cfg_upds init_ups s)\<lparr>accs := a\<rparr>)"
    "init_system_v13 env s = Inr (0, (cfg_upds init_ups_v13 s)\<lparr>accs := b\<rparr>)"
    using init_system_run [OF assms(1)] init_system_v13_run [OF assms(1)] by blast
  then have "v = w" and m: "cfg_mem t = cfg_mem (cfg_upds init_ups s)" "cfg_mem u = cfg_mem (cfg_upds init_ups_v13 s)"
    using assms(2,3) by auto
  have r: "cfg_mem t (cfg_off r) = init_value r (cfg_mem s (cfg_off r))"
    "cfg_mem u (cfg_off r) = (if r = CFG_RESET_GRAL then (cfg_mem s (cfg_off r) AND NOT 15) OR 0x38 else init_value r (cfg_mem s (cfg_off r)))" for r
    using cfg_bank.rd_upds [of init_ups s r] cfg_bank.rd_upds [of init_ups_v13 s r]
    by (simp_all add: m init_ups_value init_ups_v13_value del: cfg_off.simps)
  show ?thesis unfolding r using \<open>v = w\<close> by (simp add: or.assoc del: cfg_off.simps)
qed

section \<open>The readout loses words\<close>

lemma word_offset_v13: "i < 1048576 \<Longrightarrow> 2 * unat (2 * word_of_nat i :: u32) = 4 * i"
proof -
  assume "i < 1048576"
  moreover have "2 * word_of_nat i = (word_of_nat (2 * i) :: u32)" by simp
  ultimately show ?thesis by (simp only: unat_of_nat) simp
qed

lemma read_steps_v13_view:
  assumes "for_c xs (read_step_v13 env bmp ram) s = Inr (u, s')" "\<forall>i \<in> set xs. i < 1048576"
  shows "current s' = (if xs = [] then current s else int (last xs)) \<and> limit s' = limit s
    \<and> cma_reads s' = cma_reads s @ map (\<lambda>i. word_of_nat (4 * i)) xs"
  using assms
proof (induction xs arbitrary: s)
  case (Cons i xs)
  then obtain v t where st: "read_step_v13 env bmp ram i s = Inr (v, t)" and rest: "for_c xs (read_step_v13 env bmp ram) t = Inr (u, s')"
    by (auto split: sum.splits)
  have i: "2 * unat (2 * word_of_nat i :: u32) = 4 * i" "wrap32 (int i) = int i"
    using Cons.prems(2) by (auto simp: word_offset_v13 in_s32_def)
  obtain wo t1 u' t2 where w: "cma_word ram (4 * i) s = Inr (wo, t1)" and h: "handle_word env bmp wo t1 = Inr (u', t2)"
    and t: "t = t2\<lparr>current := int i\<rparr>"
    using st unfolding read_step_v13_def i by (auto simp: cm_inv)
  have "t1 = s\<lparr>accs := accs s @ [Rd Cma (word_of_nat (4 * i))]\<rparr>" using w by (auto simp: cma_word_def split: ptr.splits if_splits)
  moreover have "ring_view t2 = ring_view t1" using presD [OF frame_handle_word h] by simp
  ultimately show ?case using Cons.IH [OF rest] Cons.prems(2) t by (auto simp: ring_view_def cma_reads_def mem_reads_def main_view_def pos_looks_def)
qed simp

lemma read_buffer_v13_view:
  assumes "read_buffer_v13 env ram pos bmp s = Inr (r, s')" "read_window_v13 (limit s) (current s) pos = (cur, int lo, int hi)"
    and "cur \<noteq> pos \<or> hi \<le> lo" "lo \<le> 1048577" "hi \<le> 1048576"
  shows "current s' = (if lo < hi then int hi - 1 else cur) \<and> limit s' = limit s
    \<and> cma_reads s' = cma_reads s @ map (\<lambda>i. word_of_nat (4 * i)) [lo..<hi]"
proof -
  obtain v1 v2 s1 s2 where s1: "(if_c (fToStdout (args s)) (mod_c (\<lambda>s. s\<lparr>fhout := HStdout\<rparr>))) s = Inr (v1, s1)"
    and s2: "if_c (fFirstTime s1) (first_call env) s1 = Inr (v2, s2)"
    and run: "(case read_window_v13 (limit s2) (current s2) pos of (cur, readinit, readend) \<Rightarrow>
      then_c (mod_c (\<lambda>s. s\<lparr>current := cur\<rparr>))
      (then_c (if_c (cur \<noteq> pos)
         (for_c [unat (to_u32 readinit)..<unat (to_u32 readend)] (read_step_v13 env bmp ram)))
      (ret_c 1))) s2 = Inr (r, s')"
    using assms(1) unfolding read_buffer_v13_def by (auto simp: bind_c_Inr then_c_Inr get_c_def)
  have "ring_view s1 = ring_view s" using s1 by (auto simp: cm_inv split: if_splits)
  moreover have "ring_view s2 = ring_view s1"
    using presD [OF pres_if_c [OF frame_first_call] s2, of "ring_view s1"] by simp
  ultimately have v: "limit s2 = limit s" "current s2 = current s" "cma_reads s2 = cma_reads s" by (simp_all add: ring_view_def)
  have u: "unat (to_u32 (int lo)) = lo" "unat (to_u32 (int hi)) = hi"
    using assms(4,5) by (simp_all add: to_u32_def unat_of_nat)
  obtain v4 where "for_c [lo..<hi] (read_step_v13 env bmp ram) (s2\<lparr>current := cur\<rparr>) = Inr (v4, s')"
    using run assms(3) unfolding v assms(2) by (auto simp: cm_inv u split: if_splits)
  from read_steps_v13_view [OF this] show ?thesis
    using v assms(5) by (auto simp: cma_reads_def of_nat_diff split: if_splits)
qed

text \<open>
  C40. The command line of the two releases is read alike: for every command line whose action is not the
  histogram, and with the histogram flag not set before, both parsers give the same result and leave the
  same state, also where they exit or crash; the older one refuses the histogram action.
\<close>

theorem parse_param_v13_agrees:
  assumes "\<not> fGetHst (args s)"
  shows "(copy_arg MAXCHRLEN argv 1 \<noteq> Inr ''-m'' \<longrightarrow> parse_param_v13 argv s = parse_param argv s)
    \<and> (2 \<le> length argv \<and> argv ! 1 = ''-m'' \<longrightarrow> (\<exists>t. parse_param_v13 argv s = Inr (0, t)))"
proof (intro conjI impI)
  let ?s = "s\<lparr>args := reset_flags_v13 (args s)\<rparr>"
  have h: "\<not> fGetHst (args ?s)" using assms by (simp add: reset_flags_v13_def)
  assume m: "copy_arg MAXCHRLEN argv 1 \<noteq> Inr ''-m''"
  show "parse_param_v13 argv s = parse_param argv s"
  proof (cases "copy_arg MAXCHRLEN argv 1")
    case (Inl e)
    then show ?thesis using assms
      by (simp add: parse_param_def parse_param_with_def parse_param_v13_def cm_defs reset_flags_eq)
  next
    case (Inr act)
    let ?t = "?s\<lparr>args := (args ?s)\<lparr>charAction := act\<rparr>\<rparr>"
    have "bind_c (parse_action act) (\<lambda>r. case r of Some v \<Rightarrow> ret_c v | None \<Rightarrow> parse_register parse_other argv) ?t
      = bind_c (parse_action_v13 act) (\<lambda>r. case r of Some v \<Rightarrow> ret_c v | None \<Rightarrow> parse_register_v13 argv) ?t"
      using m Inr h parse_action_hst [of act ?t]
      by (auto simp: parse_action_eq bind_c_def parse_register_eq split: sum.splits option.splits)
    then show ?thesis using assms Inr
      by (simp add: parse_param_def parse_param_with_def parse_param_v13_def then_c_def bind_c_def [of "\<lambda>s. Inr (act, s)"] args_c_def mod_c_def lift_c_def reset_flags_eq)
  qed
next
  assume "2 \<le> length argv \<and> argv ! 1 = ''-m''"
  then show "\<exists>t. parse_param_v13 argv s = Inr (0, t)"
    by (simp add: parse_param_v13_def copy_arg_def arg_at_def copied_def MAXCHRLEN_def parse_action_v13_def cm_defs)
qed

text \<open>
  The readout of the previous release skips a word between two calls: when a call has read words up to a
  position and the next call is made with a later one, the word at the first position is read by neither.
\<close>

lemma v13_skips_words:
  assumes "limit s = 1048576" "- 2 \<le> current s" "current s + 2 < p" "p \<le> 1048574" "p \<le> q" "q < 1048576"
    and "read_buffer_v13 env ram p bmp s = Inr (r, t)" "read_buffer_v13 env ram' q bmp t = Inr (r', u)"
  shows "cma_reads u = cma_reads s @ map (\<lambda>i. word_of_nat (4 * i)) ([nat (current s + 2)..<nat p] @ [nat p + 1..<nat q])"
proof -
  have "read_window_v13 (limit s) (current s) p = (current s, int (nat (current s + 2)), int (nat p))"
    using assms(1-6) by (simp add: read_window_v13_def Let_def)
  from read_buffer_v13_view [OF assms(7) this] have t: "current t = p - 1" "limit t = 1048576"
    "cma_reads t = cma_reads s @ map (\<lambda>i. word_of_nat (4 * i)) [nat (current s + 2)..<nat p]"
    using assms(1-6) by auto
  have "read_window_v13 (limit t) (current t) q = (p - 1, int (nat p + 1), int (nat q))"
    using t assms(2-6) by (simp add: read_window_v13_def Let_def)
  from read_buffer_v13_view [OF assms(8) this] show ?thesis using t(3) assms(2-6) by auto
qed

text \<open>Once it has read the last word of the ring, no position makes it read another.\<close>

definition v13_calls :: "lenv \<Rightarrow> bmp180 option \<Rightarrow> ((nat \<Rightarrow> u32) \<times> int) list \<Rightarrow> ('a lago_scheme, unit) cm" where
  "v13_calls env bmp cs = for_c cs (\<lambda>c. void_c (read_buffer_v13 env (fst c) (snd c) bmp))"

lemma v13_stuck:
  assumes "v13_calls env bmp cs s = Inr (v, u)" "limit s = 1048576" "current s = 1048575" "\<forall>c \<in> set cs. 0 \<le> snd c \<and> snd c < 1048576"
  shows "cma_reads u = cma_reads s"
  using assms unfolding v13_calls_def
proof (induction cs arbitrary: s)
  case (Cons c cs)
  then obtain r t where c: "read_buffer_v13 env (fst c) (snd c) bmp s = Inr (r, t)"
    and rest: "for_c cs (\<lambda>c. void_c (read_buffer_v13 env (fst c) (snd c) bmp)) t = Inr (v, u)"
    by (auto simp: void_c_def cm_inv split: sum.splits)
  have "\<exists>hi. read_window_v13 (limit s) (current s) (snd c) = (1048575, int 1048577, int hi) \<and> hi \<le> 1048576"
    using Cons.prems by (auto simp: read_window_v13_def Let_def intro!: exI [of _ "nat (if snd c < 1048574 then 1048576 else snd c)"])
  then obtain hi where "read_window_v13 (limit s) (current s) (snd c) = (1048575, int 1048577, int hi)" "hi \<le> 1048576" by blast
  from read_buffer_v13_view [OF c this(1)] this(2) have "current t = 1048575" "limit t = 1048576" "cma_reads t = cma_reads s"
    using Cons.prems by auto
  then show ?case using Cons.IH [OF rest] Cons.prems by simp
qed simp

text \<open>
  C39. After its first turn of the ring the readout of the previous release stops for good: a call that
  finds the writer behind the reader reads to the end of the ring, and whatever positions later calls
  are given, none of them reads another word.
\<close>

theorem v13_readout_stops:
  assumes "limit s = 1048576" "0 \<le> p" "p + 2 \<le> current s" "current s \<le> 1048573"
    and "read_buffer_v13 env ram p bmp s = Inr (r, t)" "v13_calls env bmp cs t = Inr (v, u)"
    and "\<forall>c \<in> set cs. 0 \<le> snd c \<and> snd c < 1048576"
  shows "cma_reads u = cma_reads s @ map (\<lambda>i. word_of_nat (4 * i)) [nat (current s + 2)..<1048576]"
proof -
  have "read_window_v13 (limit s) (current s) p = (current s, int (nat (current s + 2)), int 1048576)"
    using assms(1-4) by (simp add: read_window_v13_def Let_def)
  from read_buffer_v13_view [OF assms(5) this] have "current t = 1048575" "limit t = 1048576"
    "cma_reads t = cma_reads s @ map (\<lambda>i. word_of_nat (4 * i)) [nat (current s + 2)..<1048576]"
    using assms(1-4) by auto
  then show ?thesis using v13_stuck [OF assms(6) _ _ assms(7)] by simp
qed

section \<open>Witnesses\<close>

theorem parse_param_v13_agrees_witness:
  "parse_param_v13 [''lago'', ''-o''] daq_lago = parse_param [''lago'', ''-o''] daq_lago
    \<and> (\<exists>t. parse_param_v13 [''lago'', ''-m''] daq_lago = Inr (0, t))"
proof -
  have f: "\<not> fGetHst (args daq_lago)" by (simp add: daq_lago_def sample_args_def)
  show ?thesis
    using parse_param_v13_agrees [OF f, of "[''lago'', ''-o'']"] parse_param_v13_agrees [OF f, of "[''lago'', ''-m'']"]
    by (simp add: copy_arg_def arg_at_def copied_def MAXCHRLEN_def)
qed

definition v13_lago :: "int \<Rightarrow> lago" where
  "v13_lago c = daq_lago\<lparr>limit := 1048576, current := c, fFirstTime := False, fhout := HStdout\<rparr>"

text \<open>A call that reads one sample word.\<close>

lemma v13_one_call:
  assumes "read_window_v13 (limit s) (current s) pos = (cur, int lo, int (Suc lo))" "cur \<noteq> pos" "lo < 1048576"
    "\<not> fFirstTime s" "fToStdout (args s)" "ptrs s Cma = Mapped 4194304"
  shows "\<exists>u. read_buffer_v13 env (\<lambda>_. 0) pos bmp s = Inr (1, u)
    \<and> \<not> fFirstTime u \<and> fToStdout (args u) \<and> ptrs u = ptrs s \<and> limit u = limit s \<and> current u = int lo"
proof -
  have u: "unat (to_u32 (int lo)) = lo" "unat (to_u32 (1 + int lo)) = Suc lo" "wrap32 (int lo) = int lo"
    using assms(3) unat_of_nat [where 'a = 32, of "Suc lo"] by (simp_all add: to_u32_def unat_of_nat in_s32_def)
  show ?thesis using assms(1-2,4-6) u word_offset_v13 [OF assms(3)] assms(3)
    by (simp add: read_buffer_v13_def read_step_v13_def cma_word_def handle_word_def sample_word_def out_c_def cm_defs)
qed

lemma v13_empty_call:
  "read_window_v13 (limit s) (current s) pos = (cur, lo, hi) \<Longrightarrow> unat (to_u32 hi) \<le> unat (to_u32 lo) \<Longrightarrow> \<not> fFirstTime s \<Longrightarrow>
   fToStdout (args s) \<Longrightarrow> read_buffer_v13 env ram pos bmp s = Inr (1, s\<lparr>fhout := HStdout, current := cur\<rparr>)"
  by (simp add: read_buffer_v13_def cm_defs)

theorem v13_readout_stops_witness:
  "\<exists>t u. read_buffer_v13 daq_lenv (\<lambda>_. 0) 5 None (v13_lago 1048573) = Inr (1, t)
    \<and> v13_calls daq_lenv None [(\<lambda>_. 0, 700)] t = Inr ((), u) \<and> cma_reads u = cma_reads (v13_lago 1048573) @ [4194300]"
proof -
  have s: "limit (v13_lago 1048573) = 1048576" "current (v13_lago 1048573) = 1048573" "\<not> fFirstTime (v13_lago 1048573)"
    "fToStdout (args (v13_lago 1048573))" "ptrs (v13_lago 1048573) Cma = Mapped 4194304"
    by (simp_all add: v13_lago_def daq_lago_def)
  obtain t where t: "read_buffer_v13 daq_lenv (\<lambda>_. 0) 5 None (v13_lago 1048573) = Inr (1, t)" "\<not> fFirstTime t"
    "fToStdout (args t)" "limit t = 1048576" "current t = 1048575"
    using v13_one_call [of "v13_lago 1048573" 5 1048573 1048575] s by (auto simp: read_window_v13_def)
  obtain u where "v13_calls daq_lenv None [(\<lambda>_. 0, 700)] t = Inr ((), u)"
    using v13_empty_call [of t 700 1048575 1048577 1048576] t(2-5)
    by (simp add: v13_calls_def void_c_def cm_defs read_window_v13_def to_u32_def)
  with t(1) v13_readout_stops [OF s(1) _ _ _ t(1) this] s show ?thesis by (auto simp: upt_rec [of 1048575])
qed

end
