(* ===== verification/Lago_V10.thy ===== *)
theory Lago_V10
  imports Lago_V13
begin

text \<open>
  Release 1.0, \<^verbatim>\<open>projects/lago_v1_0/src\<close>: the functions whose code differs from the later releases.  It maps 8 MB of memory at
  a fixed address instead of asking the kernel for a buffer, has the high voltage registers at other places, and another calibration
  of the outputs.  What is textually the same is shared.
\<close>

section \<open>zynq\_io\<close>

text \<open>The registers of the outputs are exchanged: a register has the place that a later release gives to another.\<close>

fun place :: "cfg_reg \<Rightarrow> cfg_reg" where
  "place CFG_HV1 = CFG_HV3"
| "place CFG_HV2 = CFG_HV4"
| "place CFG_HV3 = CFG_HV1"
| "place CFG_HV4 = CFG_HV2"
| "place r = r"

text \<open>The places of the header file.\<close>

lemma places: "cfg_off (place CFG_HV1) = 0x40" "cfg_off (place CFG_HV2) = 0x44" "cfg_off (place CFG_HV3) = 0x4C" "cfg_off (place CFG_HV4) = 0x48"
  by simp_all

definition sts_init_v10 :: "zenv \<Rightarrow> ('a zio_scheme, int) cm" where
  "sts_init_v10 env = uio_init env Sts ''sts_init'' ''sts_init'' ''/dev/uio2'' ''/sys/class/uio/uio2/maps/map0/size''"

definition xadc_init_v10 :: "zenv \<Rightarrow> ('a zio_scheme, int) cm" where
  "xadc_init_v10 env = uio_init env Xadc ''xadc_init'' ''xadc_init'' ''/dev/uio3'' ''/sys/class/uio/uio3/maps/map0/size''"

text \<open>\<open>set_voltage\<close> has the calibration for a gain of 1.45.\<close>

definition a145 :: rat where "a145 = f32 (382061 / 10000000)"

definition b145 :: rat where "b145 = f32 (411435 / 100000)"

definition dac_of_mV_v10 :: "int \<Rightarrow> u32 res" where
  "dac_of_mV_v10 v = bind_res (float_to_u32 (f32 (f32 (of_int v) - b145))) (\<lambda>n.
     float_to_u32 (f32 (f32 (of_int (uint n)) / a145)))"

definition set_voltage_v10 :: "u32 \<Rightarrow> int \<Rightarrow> ('a zio_scheme, unit) cm" where
  "set_voltage_v10 off v = bind_c (lift_c (dac_of_mV_v10 v)) (\<lambda>dac_val. seq_c [
     dev_write Cfg off dac_val,
     printf (''The Voltage is: '' @ fmt_d v @ '' mV'' @ nl),
     printf (''The DAC value is: '' @ fmt_d (of_u32 dac_val) @ '' DACs'' @ nl)])"

text \<open>The status report has the calibration for a gain of 3.2, that of the later releases.\<close>

definition rd_cfg_status_v10 :: "zenv \<Rightarrow> ('a zio_scheme, int) cm" where
  "rd_cfg_status_v10 env = then_c (seq_c [
     print_cfg_d env ''#Trigger Level Ch1 = '' CFG_TRLVL_1,
     print_cfg_d env ''#Trigger Level Ch2 = '' CFG_TRLVL_2,
     print_cfg_mV env ''#High Voltage 1    = '' (place CFG_HV1),
     print_cfg_mV env ''#High Voltage 2    = '' (place CFG_HV2),
     print_cfg_d env ''#Trigger Scaler 1  = '' CFG_TR_SCAL_A,
     print_cfg_d env ''#Trigger Scaler 2  = '' CFG_TR_SCAL_B,
     bind_c (dev_read env Cfg (cfg_off CFG_RESET_GRAL)) (\<lambda>w.
       if drop_bit 4 w AND 1 = 1 then printf (''#No GPS device is present or enabled'' @ nl)
       else printf (''#Using GPS data'' @ nl)),
     bind_c (dev_read env Cfg (cfg_off CFG_RESET_GRAL)) (\<lambda>w.
       if drop_bit 5 w AND 1 = 0 then printf (''#Working mode is SLAVE'' @ nl)
       else printf (''#Working mode is MASTER'' @ nl)),
     printf nl,
     printf (''Status from registers complete!'' @ nl)]) (ret_c 0)"

definition init_system_v10 :: "zenv \<Rightarrow> ('a zio_scheme, int) cm" where
  "init_system_v10 env = then_c (seq_c [
     cfg_set CFG_TRLVL_1 8190,
     cfg_set CFG_TRLVL_2 8190,
     cfg_set CFG_STRLVL_1 8190,
     cfg_set CFG_STRLVL_2 8190,
     cfg_set (place CFG_HV1) 0,
     cfg_set (place CFG_HV2) 0,
     cfg_rmw env CFG_RESET_GRAL (\<lambda>v. v AND NOT 8),
     cfg_rmw env CFG_RESET_GRAL (\<lambda>v. v AND NOT 1),
     cfg_rmw env CFG_RESET_GRAL (\<lambda>v. v AND NOT 4),
     cfg_rmw env CFG_RESET_GRAL (\<lambda>v. v AND NOT 2),
     cfg_set CFG_NSAMPLES (1024 * 1024),
     cfg_set CFG_TR_SCAL_A 1,
     cfg_set CFG_TR_SCAL_B 1,
     cfg_rmw env CFG_RESET_GRAL (\<lambda>v. v OR FGPS_EN_MASK),
     cfg_rmw env CFG_RESET_GRAL (\<lambda>v. v OR 8)]) (ret_c 0)"

section \<open>The command line\<close>

definition parse_set_v10 :: "string list \<Rightarrow> ('a lago_scheme, int) cm" where
  "parse_set_v10 argv =
     bind_c (lift_c (copy_arg MAXCHRLEN argv 2)) (\<lambda>reg.
     then_c (args_c (\<lambda>a. a\<lparr>charReg := reg\<rparr>))
     (case cfg_name reg of None \<Rightarrow> ret_c 0
      | Some c \<Rightarrow> then_c (args_c (\<lambda>a. a\<lparr>reg_off := cfg_off (place c)\<rparr>))
        (bind_c (lift_c (copy_arg 16 argv 3)) (\<lambda>v.
         then_c (args_c (\<lambda>a. a\<lparr>charRegValue := v\<rparr>))
         (if is_voltage reg then
            (if atoi v > 2500 then then_c (printf (''Error: maximum voltage is 2500 mV'' @ nl)) (stop_c (ExitWith 1))
             else then_c (args_c (\<lambda>a. a\<lparr>fRegValue := True\<rparr>)) (ret_c 1))
          else ret_c 1)))))"

definition parse_register_v10 :: "string list \<Rightarrow> ('a lago_scheme, int) cm" where
  "parse_register_v10 argv = bind_c (get_c args) (\<lambda>a.
     if fReadReg a \<or> fWriteReg a then parse_device argv
     else if fSetCfgReg a then parse_set_v10 argv
     else if fToFile a then parse_file argv
     else parse_other argv)"

definition parse_param_v10 :: "string list \<Rightarrow> ('a lago_scheme, int) cm" where
  "parse_param_v10 argv =
     then_c (args_c reset_flags_v13)
     (if length argv < 2 then ret_c 0
      else bind_c (lift_c (copy_arg MAXCHRLEN argv 1)) (\<lambda>act.
        then_c (args_c (\<lambda>a. a\<lparr>charAction := act\<rparr>))
        (bind_c (parse_action_v13 act) (\<lambda>r. case r of Some v \<Rightarrow> ret_c v
         | None \<Rightarrow> parse_register_v10 argv))))"

definition show_usage_v10 :: "string \<Rightarrow> ('a lago_scheme, unit) cm" where
  "show_usage_v10 progname = bind_c (get_c (\<lambda>s. fshowversion (args s))) (\<lambda>v.
     if v then printf (''LAGO ACQUA BRC v'' @ fmt_d VERSION @ ''r'' @ fmt_d REVISION_v13 @ '' data v'' @ fmt_d DATAVERSION @ nl)
     else seq_c [
       printf (nl @ tab @ ''The LAGO ACQUA suite'' @ nl),
       printf (tab @ ''Data acquisition system for the LAGO BRC electronic'' @ nl),
       printf (tab @ ''(c) 2012-Today, The LAGO Project, http://lagoproject.org'' @ nl),
       printf (tab @ ''(c) 2012, LabDPR, http://labdpr.cab.cnea.gov.ar'' @ nl),
       printf (nl @ tab @ ''The LAGO Project, lago@lagoproject.org'' @ nl),
       printf (nl @ tab @ ''DPR Lab. 2018'' @ nl),
       printf (tab @ ''H. Arnaldi, lharnaldi@gmail.com'' @ nl),
       printf (tab @ ''X. Bertou, bertou@gmail.com'' @ nl),
       printf (tab @ ''LAGO v'' @ fmt_d VERSION @ ''r'' @ fmt_d REVISION_v13 @ '' comms soft'' @ nl @ nl),
       printf (''Usage: '' @ progname @ '' <action> <register> <value> [options]'' @ nl),
       printf (nl @ tab @ ''Actions:'' @ nl),
       printf (tab @ ''-a'' @ tab @ tab @ tab @ tab @ ''Get all registers status'' @ nl),
       printf (tab @ ''-s'' @ tab @ tab @ tab @ tab @ ''Set registers'' @ nl),
       printf (tab @ ''-f'' @ tab @ tab @ tab @ tab @ ''Start DAQ and save data to file'' @ nl),
       printf (tab @ ''-o'' @ tab @ tab @ tab @ tab @ ''Start DAQ and send data to stdout'' @ nl),
       printf (tab @ ''-g'' @ tab @ tab @ tab @ tab @ ''Get GPS data'' @ nl),
       printf (tab @ ''-t'' @ tab @ tab @ tab @ tab @ ''Get Pressure and Temperature data'' @ nl),
       printf (tab @ ''-i'' @ tab @ tab @ tab @ tab @ ''Initialise registers to default values'' @ nl),
       printf (tab @ ''-x'' @ tab @ tab @ tab @ tab @ ''Read the voltage in the XADC channels'' @ nl),
       printf (tab @ ''-v'' @ tab @ tab @ tab @ tab @ ''Show DAQ version'' @ nl),
       printf (nl @ tab @ ''Registers:'' @ nl),
       printf (tab @ ''t1, t2'' @ tab @ tab @ tab @ tab @ ''Specify triggers 1 and 2'' @ nl),
       printf (tab @ ''sc1, sc2'' @ tab @ tab @ tab @ ''Specify scaling factor 1 and 2'' @ nl),
       printf (tab @ ''hv1, hv2'' @ tab @ tab @ tab @ ''Specify high voltages'' @ nl),
       printf (tab @ ''ov1, ov2, ov3, ov4'' @ tab @ tab @ ''Specify output voltages'' @ nl),
       printf (nl @ tab @ ''Options:'' @ nl),
       printf (tab @ ''-f <filename>'' @ tab @ tab @ tab @ ''Specify file name'' @ nl),
       printf (nl @ nl)])"

section \<open>Data files and words\<close>

text \<open>The header does not name the rates and the voltages, and its voltages have the calibration of \<open>set_voltage\<close>.\<close>

definition header_text_v10 :: "string list" where
  "header_text_v10 = [
     ''# v 5'' @ nl,
     ''# #'' @ nl,
     ''# # This is a LAGO raw data file, version 5'' @ nl,
     ''# # It contains the following data:'' @ nl,
     ''# #   <N1> <N2>        : line with values of the 2 ADC for a triggered pulse'' @ nl,
     ''# #   # t <C> <V>      : end of a trigger'' @ nl,
     ''# #                      gives the channel trigger (<C>: 3 bit mask) and 125 MHz clock count (<V>) of the trigger time'' @ nl,
     ''# #   # c <C>          : internal trigger counter'' @ nl,
     ''# #   # x f <V>        : 125 MHz frequency'' @ nl,
     ''# #   # x t <V>        : temperature value'' @ nl,
     ''# #   # x p <V>        : pressure value'' @ nl,
     ''# #   # x h <HH:MM:SS> <DD/MM/YYYY> <S> : GPS time (every new second, last number is seconds since EPOCH)'' @ nl,
     ''# #   # x s <T> C <P> hPa <A> m : temperature <T>, pressure <P> and altitude (from pressure) <A>'' @ nl,
     ''# #   # x g <LAT> <LON> <ALT>   : GPS data - latitude, longitude, altitude'' @ nl,
     ''# #   # x b <B1> <B2> <B3>      : baselines (NOT IMPLEMENTED IN LAGO)'' @ nl,
     ''# # In case of error, an unfinished line will be finished by # E @@@'' @ nl,
     ''# # Followed by a line with # E <N> and the error message in human readable format, where <N> is the error code:'' @ nl,
     ''# #   # E 1 : read timeout of 2 seconds'' @ nl,
     ''# #   # E 2 : too many buffer reading tries'' @ nl,
     ''# #   # E 3 : unknown word from FPGA'' @ nl,
     ''# #'' @ nl,
     ''# # Current registers setting'' @ nl,
     ''# #'' @ nl]"

definition mV145 :: "u32 \<Rightarrow> rat" where
  "mV145 w = f32 (f32 (a145 * f32 (of_int (uint w))) + b145)"

definition out_cfg_mV_v10 :: "lenv \<Rightarrow> string \<Rightarrow> cfg_reg \<Rightarrow> ('a lago_scheme, unit) cm" where
  "out_cfg_mV_v10 env lbl r = bind_c (dev_read (le_z env) Cfg (cfg_off r)) (\<lambda>v. out_c (lbl @ fmt_f 1 (mV145 v) @ '' mV'' @ nl))"

definition file_header_v10 :: "lenv \<Rightarrow> int \<Rightarrow> ('a lago_scheme, unit) cm" where
  "file_header_v10 env currt =
     then_c (seq_c (map out_c header_text_v10))
     (then_c (seq_c [out_cfg_d env ''# x c T1 '' CFG_TRLVL_1, out_cfg_d env ''# x c T2 '' CFG_TRLVL_2,
         out_cfg_mV_v10 env ''# x c HV1 '' (place CFG_HV1), out_cfg_mV_v10 env ''# x c HV2 '' (place CFG_HV2),
         out_cfg_d env ''# x c SC1 '' CFG_TR_SCAL_A, out_cfg_d env ''# x c SC2 '' CFG_TR_SCAL_B,
         out_c (''# # This file was started on '' @ le_host env @ nl),
         out_c (''# # Machine local time was '' @ le_ctime env currt)])
     (bind_c (get_c falseGPS) (\<lambda>f.
      then_c (if_c f (out_c (''# # WARNING, there is no GPS, using PC time'' @ nl)))
      (out_c (''# #'' @ nl)))))"

definition new_file_v10 :: "lenv \<Rightarrow> ('a lago_scheme, int) cm" where
  "new_file_v10 env = bind_c (time_c env) (\<lambda>currt.
     bind_c (get_c (\<lambda>s. fToStdout (args s))) (\<lambda>so.
     then_c (if_c (\<not> so) (next_file env))
     (then_c (file_header_v10 env currt) (ret_c 0))))"

definition new_hour_v10 :: "lenv \<Rightarrow> ('a lago_scheme, unit) cm" where
  "new_hour_v10 env = bind_c (get_c (\<lambda>s. fToStdout (args s))) (\<lambda>so. if_c (\<not> so) (void_c (new_file_v10 env)))"

definition tick_pc_v10 :: "lenv \<Rightarrow> ('a lago_scheme, unit) cm" where
  "tick_pc_v10 env = then_c (date_c (\<lambda>d. d\<lparr>tm_sec := tm_sec d + 1\<rparr>))
     (bind_c (get_c fileDate) (\<lambda>d.
        if tm_sec d = 60 \<and> tm_min d = 59 then new_hour_v10 env else sync_date))"

definition tick_gps_v10 :: "lenv \<Rightarrow> u32 \<Rightarrow> ('a lago_scheme, unit) cm" where
  "tick_gps_v10 env wo = bind_c (get_c fileDate) (\<lambda>d.
     then_c (if_c (uint (to_u32 (tm_hour d)) \<noteq> byte_at 16 wo)
       (then_c (if_c (uint (to_u32 (tm_hour d)) > byte_at 16 wo) (date_c (\<lambda>d. d\<lparr>tm_mday := tm_mday d + 1\<rparr>)))
       (then_c (date_c (\<lambda>d. d\<lparr>tm_hour := byte_at 16 wo\<rparr>)) (new_hour_v10 env))))
     (date_c (\<lambda>d. d\<lparr>tm_hour := byte_at 16 wo, tm_min := byte_at 8 wo, tm_sec := byte_at 0 wo\<rparr>)))"

definition slow_control_v10 :: "lenv \<Rightarrow> ('a lago_scheme, unit) cm" where
  "slow_control_v10 env =
     bind_c (get_c hack) (\<lambda>h.
      then_c (mod_c (\<lambda>s. s\<lparr>hack := wrap32 (hack s + 1)\<rparr>))
     (bind_c (get_temp_AD592 (le_z env) (xadc_off XADC_AI0)) (\<lambda>t0.
      bind_c (get_temp_AD592 (le_z env) (xadc_off XADC_AI1)) (\<lambda>t1.
      then_c (out_c (''# p '' @ fmt_u (to_u32 h) @ '' '' @ fmt_f 1 t0 @ '' '' @ fmt_f 1 t1 @ nl))
     (bind_c (get_c hack) (\<lambda>h.
      then_c (if_c (h mod 60 = 0) (printf nl))
     (bind_c (get_c (\<lambda>s. ''rates '' @ fmt_wd 5 (r1 s) @ '' '' @ fmt_wd 5 (r2 s) @ '', PPS '' @ fmt_u (to_u32 (hack s))
          @ ''        '' @ [CHR 0x0D])) printf)))))))"

definition pps_word_v10 :: "lenv \<Rightarrow> u32 \<Rightarrow> ('a lago_scheme, unit) cm" where
  "pps_word_v10 env wo = bind_c (get_c falseGPS) (\<lambda>f.
     then_c (if f then tick_pc_v10 env else tick_gps_v10 env wo)
     (then_c (mtd_c (\<lambda>m. m\<lparr>mtd_seconds := wrap32 (mtd_seconds m + 1)\<rparr>))
     (then_c sync_date
     (bind_c (get_c (\<lambda>s. date_line (fileDate s) (fileTime s) (uint (wo AND 0x03FFFFFF)))) (\<lambda>l.
      then_c (out_c l) (slow_control_v10 env))))))"

text \<open>The other words are those of the later releases.\<close>

definition handle_word_v10 :: "lenv \<Rightarrow> bmp180 option \<Rightarrow> u32 \<Rightarrow> ('a lago_scheme, unit) cm" where
  "handle_word_v10 env bmp wo = (if uint (drop_bit 27 wo) = 0x1B then pps_word_v10 env wo else handle_word env bmp wo)"

section \<open>The readout\<close>

definition first_call_v10 :: "lenv \<Rightarrow> ('a lago_scheme, unit) cm" where
  "first_call_v10 env =
     bind_c (dev_read (le_z env) Cfg (cfg_off CFG_RESET_GRAL)) (\<lambda>v.
     bind_c (time_c env) (\<lambda>t.
     then_c (mod_c (\<lambda>s. s\<lparr>fileTime := t, fileDate := gmtime t\<rparr>))
     (then_c (if drop_bit 4 v AND 1 = 1 then mod_c (\<lambda>s. s\<lparr>falseGPS := True\<rparr>)
        else then_c (date_c gps_start_date) sync_date)
     (then_c (new_file_v10 env) (mod_c (\<lambda>s. s\<lparr>fFirstTime := False\<rparr>))))))"

definition mem_word :: "(nat \<Rightarrow> u32) \<Rightarrow> nat \<Rightarrow> ('a lago_scheme, u32) cm" where
  "mem_word ram i = (\<lambda>s. case ptrs s Mem of
       Null \<Rightarrow> Inl NullDeref | MapFailed \<Rightarrow> Inl OutOfBounds
     | Mapped n \<Rightarrow> if i + 4 \<le> n then Inr (ram i, s\<lparr>accs := accs s @ [Rd Mem (word_of_nat i)]\<rparr>) else Inl OutOfBounds)"

definition read_step_v10 :: "lenv \<Rightarrow> bmp180 option \<Rightarrow> (nat \<Rightarrow> u32) \<Rightarrow> nat \<Rightarrow> ('a lago_scheme, unit) cm" where
  "read_step_v10 env bmp ram i = bind_c (mem_word ram i) (\<lambda>wo.
     then_c (handle_word_v10 env bmp wo) (mod_c (\<lambda>s. s\<lparr>current := int i\<rparr>)))"

definition read_buffer_v10 :: "lenv \<Rightarrow> (nat \<Rightarrow> u32) \<Rightarrow> int \<Rightarrow> bmp180 option \<Rightarrow> ('a lago_scheme, int) cm" where
  "read_buffer_v10 env ram pos bmp =
     bind_c (get_c args) (\<lambda>a.
     then_c (if_c (fToStdout a) (mod_c (\<lambda>s. s\<lparr>fhout := HStdout\<rparr>)))
     (bind_c (get_c fFirstTime) (\<lambda>f.
     then_c (if_c f (first_call_v10 env))
     (bind_c (get_c (\<lambda>s. read_window (limit s) (current s) (wrap32 (pos * 8)))) (\<lambda>(cur, readinit, readend).
      then_c (mod_c (\<lambda>s. s\<lparr>current := cur\<rparr>))
      (then_c (if_c (cur \<noteq> wrap32 (pos * 8))
         (for_c (stride 4 (unat (to_u32 readinit)) (unat (to_u32 readend))) (read_step_v10 env bmp ram)))
      (ret_c 1)))))))"

section \<open>main\<close>

fun daq_loop_v10 :: "lenv \<Rightarrow> bmp180 option \<Rightarrow> daq_ev list \<Rightarrow> ('a lago_scheme, unit) cm" where
  "daq_loop_v10 env bmp [] = (\<lambda>s. if interrupted s then Inr ((), s) else Inl Blocked)"
| "daq_loop_v10 env bmp (Sigint # es) = then_c signal_handler (daq_loop_v10 env bmp es)"
| "daq_loop_v10 env bmp (ThreadWait ev # es) = bind_c (get_c not_gps) (\<lambda>t.
     then_c (if_c t (thread_isr_not_gps env [ev])) (daq_loop_v10 env bmp es))"
| "daq_loop_v10 env bmp (Pass ev ram # es) = bind_c (get_c interrupted) (\<lambda>i.
     if i then ret_c ()
     else then_c (wait_intc env ev) (bind_c (get_c position) (\<lambda>pos.
       then_c (read_buffer_v10 env ram pos bmp) (daq_loop_v10 env bmp es))))"

definition run_daq_v10 :: "lenv \<Rightarrow> bmp180 option \<Rightarrow> daq_ev list \<Rightarrow> ('a lago_scheme, unit) cm" where
  "run_daq_v10 env bmp evs =
     then_c (mod_c (\<lambda>s. s\<lparr>limit := 1024 * 1024 * 8, current := - 4\<rparr>))
     (then_c (seq_c [gral_rmw env (\<lambda>v. v OR 2), gral_rmw env (\<lambda>v. v OR 1), gral_rmw env (\<lambda>v. v OR 4)])
     (then_c (daq_loop_v10 env bmp evs)
     (seq_c [gral_rmw env (\<lambda>v. v AND NOT 1), gral_rmw env (\<lambda>v. v AND NOT 4), gral_rmw env (\<lambda>v. v AND NOT 2)])))"

definition print_xadc_v10 :: "lenv \<Rightarrow> ('a lago_scheme, unit) cm" where
  "print_xadc_v10 env = (let volt = (\<lambda>lbl a. bind_c (get_voltage (le_z env) (xadc_off a)) (\<lambda>v. printf (lbl @ fmt_f 3 v @ nl)));
       temp = (\<lambda>lbl a. bind_c (get_temp_AD592 (le_z env) (xadc_off a)) (\<lambda>t.
         printf (lbl @ fmt_f 1 t @ '' '' @ [CHR 0xC2, CHR 0xBA] @ ''C'' @ nl))) in
     seq_c [printf (''Reading XADC channels...'' @ nl),
       volt ''Voltage CH1: '' XADC_AI0, volt ''Voltage CH2: '' XADC_AI1,
       volt ''Voltage CH3: '' XADC_AI2, volt ''Voltage CH4: '' XADC_AI3,
       temp ''Base temperature CH1: '' XADC_AI0, temp ''Base temperature CH2: '' XADC_AI1])"

definition set_register_v10 :: "('a lago_scheme, unit) cm" where
  "set_register_v10 = bind_c (get_c args) (\<lambda>a.
     if fRegValue a then set_voltage_v10 (reg_off a) (atoi (charRegValue a))
     else void_c (wr_reg_value 1 (reg_off a) (atoi (charRegValue a)) True))"

definition devices_init_v10 :: "lenv \<Rightarrow> ('a lago_scheme, unit) cm" where
  "devices_init_v10 env = seq_c [void_c (mem_init (le_z env)), void_c (intc_init (le_z env)), void_c (cfg_init (le_z env)),
     void_c (sts_init_v10 (le_z env)), void_c (xadc_init_v10 (le_z env))]"

definition first_access_v10 :: "lenv \<Rightarrow> ('a lago_scheme, unit) cm" where
  "first_access_v10 env = bind_c (dev_read (le_z env) Cfg (cfg_off CFG_RESET_GRAL)) (\<lambda>v.
     if_c (v = 0) (seq_c [
       printf (''Initializing registers...'' @ nl),
       void_c (init_system_v10 (le_z env)),
       if le_thread env \<noteq> 0 then then_c (eprintf (''pthread_create :: error '' @ nl)) (stop_c (ExitWith 1))
         else mod_c (\<lambda>s. s\<lparr>not_gps := True\<rparr>),
       void_c enable_interrupt]))"

definition run_mode_v10 :: "lenv \<Rightarrow> bmp180 option \<Rightarrow> daq_ev list \<Rightarrow> ('a lago_scheme, unit) cm" where
  "run_mode_v10 env bmp evs = bind_c (get_c args) (\<lambda>a.
     if fReadReg a then void_c (rd_reg_value (le_z env) (n_dev a) (reg_off a) True)
     else if fWriteReg a then void_c (wr_reg_value (n_dev a) (reg_off a) (reg_val a) True)
     else if fSetCfgReg a then set_register_v10
     else if fGetCfgStatus a then void_c (rd_cfg_status_v10 (le_z env))
     else if fGetPT a then print_weather env bmp
     else if fGetGPS a then print_gps env
     else if fInitSystem a then then_c (printf (''Initializing registers...'' @ nl)) (void_c (init_system_v10 (le_z env)))
     else if fGetXADC a then print_xadc_v10 env
     else if_c (fToFile a \<or> fToStdout a) (run_daq_v10 env bmp evs))"

definition release_devices_v10 :: "lenv \<Rightarrow> ('a lago_scheme, unit) cm" where
  "release_devices_v10 env = (let pg = pagesize (le_z env) in
     then_c (for_c [Intc, Cfg, Sts, Xadc, Mem] (\<lambda>d. munmap_c d pg))
     (for_c [Intc, Cfg, Sts, Xadc] (\<lambda>d. bind_c (get_c (\<lambda>s. fds s d)) close_c)))"

definition main_v10 :: "lenv \<Rightarrow> daq_ev list \<Rightarrow> string list \<Rightarrow> ('a lago_scheme, int) cm" where
  "main_v10 env evs argv =
     bind_c (sensor_setup env) (\<lambda>bmp.
     bind_c (parse_param_v10 argv) (\<lambda>ok.
     if ok = 0 then bind_c (lift_c (arg_at argv 0)) (\<lambda>p. case p of None \<Rightarrow> stop_c NullDeref
       | Some progname \<Rightarrow> then_c (show_usage_v10 progname) (ret_c 1))
     else then_c (seq_c [devices_init_v10 env, first_access_v10 env, run_mode_v10 env bmp evs, release_devices_v10 env]) (ret_c 0)))"

section \<open>The start-up does not select the master mode\<close>

definition init_ups_v10 :: "(cfg_reg \<times> (u32 \<Rightarrow> u32)) list" where
  "init_ups_v10 = map (\<lambda>(r, f). (place r, f)) (take 15 init_ups)"

lemma init_system_v10_run: "mapped s Cfg 92 \<Longrightarrow>
    \<exists>a. init_system_v10 env s = Inr (0, (cfg_upds init_ups_v10 s)\<lparr>accs := a\<rparr>)"
  unfolding init_system_v10_def by (rule cfg_script_then) (simp_all add: init_ups_v10_def init_ups_def)

lemma init_ups_v10_value: "fold (\<lambda>(r, f) v. if r = q then f v else v) init_ups_v10 v
    = (if q = CFG_RESET_GRAL then (v AND NOT 15) OR 0x18 else init_value (place q) v)"
  by (cases q) (simp_all add: init_ups_v10_def init_ups_def FGPS_EN_MASK_def and.assoc or.assoc)

text \<open>
  A comment of \<open>main\<close> says that the default is the master mode; the bit of the mode is not written: on the first access, when the
  register is 0, the status report says slave.
\<close>

lemma v10_starts_as_slave:
  assumes "mapped s Cfg 92" "cfg_mem s (cfg_off CFG_RESET_GRAL) = 0"
  shows "\<exists>t. init_system_v10 env s = Inr (0, t) \<and> cfg_mem t (cfg_off CFG_RESET_GRAL) = 0x18
    \<and> drop_bit 5 (cfg_mem t (cfg_off CFG_RESET_GRAL)) AND 1 = 0"
proof -
  obtain a where a: "init_system_v10 env s = Inr (0, (cfg_upds init_ups_v10 s)\<lparr>accs := a\<rparr>)"
    using init_system_v10_run [OF assms(1)] by blast
  have "cfg_mem (cfg_upds init_ups_v10 s) (cfg_off CFG_RESET_GRAL) = 0x18"
    using cfg_bank.rd_upds [of init_ups_v10 s CFG_RESET_GRAL] assms(2) by (simp add: init_ups_v10_value del: cfg_off.simps)
  then show ?thesis using a by (simp del: cfg_off.simps)
qed

section \<open>The voltages of the status report\<close>

lemma a145_val: "a145 = 20031 / 524288"
  by code_simp

lemma b145_val: "b145 = 8628417 / 2097152"
  by code_simp

lemma mV145_err:
  assumes "0 \<le> j" "j < 16777216" "a145 * of_int j + b145 \<le> M"
  shows "\<bar>mV145 (to_u32 j) - (a145 * of_int j + b145)\<bar> \<le> 3 * M * (1 / 16777216)"
proof -
  have "f32 (of_int j) = of_int j" "uint (to_u32 j) = j" using assms by (auto intro: fp32.rnd_int uint_to_u32)
  then show ?thesis using calib_err [of a145 "of_int j" b145 M] assms(1,3) by (simp add: mV145_def a145_val b145_val)
qed

lemma dac_v10:
  assumes "8 \<le> v" "v \<le> 2500"
  shows "\<exists>n. dac_of_mV_v10 v = Inr n \<and> of_int v - 11 / 10 < mV145 n \<and> mV145 n \<le> of_int v + 1 / 1000
    \<and> 23 / 10 * of_int v - 42 / 10 < hv_mV n"
proof -
  have v: "8 \<le> (of_int v :: rat)" "(of_int v :: rat) \<le> 2500" using assms by auto
  have fv: "f32 (of_int v) = of_int v" using assms by (intro fp32.rnd_int) simp
  obtain k where k: "float_to_u32 (f32 (of_int v - b145)) = Inr (to_u32 k)" "0 \<le> k" "uint (to_u32 k) = k"
      "of_int v - b145 - 1 - 2500 * (1 / 16777216) < of_int k" "of_int k \<le> of_int v - b145 + 2500 * (1 / 16777216)"
    by (rule trunc_near [of "of_int v - b145" 2500]) (use v in \<open>simp_all add: b145_val\<close>)
  have k2: "0 \<le> (of_int k :: rat)" "(of_int k :: rat) \<le> 2496" using k(2,5) v by (simp_all add: b145_val)
  have fk: "f32 (of_int k) = of_int k" using k2 by (intro fp32.rnd_int) linarith
  obtain j where j: "float_to_u32 (f32 (of_int k / a145)) = Inr (to_u32 j)" "0 \<le> j" "uint (to_u32 j) = j"
      "of_int k / a145 - 1 - 65400 * (1 / 16777216) < of_int j" "of_int j \<le> of_int k / a145 + 65400 * (1 / 16777216)"
    by (rule trunc_near [of "of_int k / a145" 65400]) (use k2 in \<open>simp_all add: a145_val\<close>)
  have j2: "j \<le> 65400"
  proof -
    have "(of_int j :: rat) \<le> 65400" using j(5) k2 by (simp add: a145_val)
    then show ?thesis by simp
  qed
  have aj: "of_int k - 39 / 1000 < a145 * of_int j" "a145 * of_int j \<le> of_int k + 2 / 10000"
    using j(4,5) by (simp_all add: a145_val)
  have hj: "23 / 10 * of_int k - 1 / 10 < hv_a * of_int j" using j(4) k2 by (simp add: a145_val hv_a_val)
  have m: "a145 * of_int j + b145 \<le> 2510" "hv_a * of_int j + hv_b \<le> 5800" using j(5) k2 by (simp_all add: a145_val b145_val hv_a_val hv_b_val)
  have j3: "j < 16777216" using j2 by simp
  have "dac_of_mV_v10 v = Inr (to_u32 j)" unfolding dac_of_mV_v10_def fv k(1) bind_res_simps k(3) fk j(1) ..
  moreover have "of_int v - 11 / 10 < mV145 (to_u32 j)" "mV145 (to_u32 j) \<le> of_int v + 1 / 1000"
    using k(4,5) aj abs_diff_leD [OF mV145_err [OF j(2) j3 m(1)]] by linarith+
  moreover have "23 / 10 * of_int v - 42 / 10 < hv_mV (to_u32 j)"
    using k(4) hj abs_diff_leD [OF hv_mV_err [OF j(2) j3 m(2)]] by (simp add: b145_val hv_b_val)
  ultimately show ?thesis by blast
qed

text \<open>
  C32. Whichever output is set to a voltage between 8 and 2500 mV, the register gets the right word and the header of a data file
  shows the voltage within 1.1 mV, but the status report, whose formula is that for another amplifier, shows more than 2.3 times the
  voltage less 4.2 mV: above twice the voltage from 14 mV on.
\<close>

theorem v10_voltage_misreported:
  assumes "mapped s Cfg 92" "8 \<le> v" "v \<le> 2500"
  shows "\<exists>n s'. set_voltage_v10 (cfg_off (place r)) v s = Inr ((), s') \<and> cfg_mem s' = (cfg_mem s)(cfg_off (place r) := n)
    \<and> of_int v - 11 / 10 < mV145 n \<and> mV145 n \<le> of_int v + 1 / 1000
    \<and> (\<exists>s''. print_cfg_mV env lbl (place r) s' = Inr ((), s'') \<and> c_out s'' = c_out s' @ lbl @ fmt_f 1 (hv_mV n) @ '' mV'' @ nl)
    \<and> 23 / 10 * of_int v - 42 / 10 < hv_mV n"
proof -
  obtain n where n: "dac_of_mV_v10 v = Inr n" "of_int v - 11 / 10 < mV145 n" "mV145 n \<le> of_int v + 1 / 1000"
      "23 / 10 * of_int v - 42 / 10 < hv_mV n"
    using dac_v10 [OF assms(2,3)] by blast
  obtain s' where s': "set_voltage_v10 (cfg_off (place r)) v s = Inr ((), s')" "cfg_mem s' = (cfg_mem s)(cfg_off (place r) := n)"
      "mapped s' Cfg 92"
    using assms(1) n(1) by (simp add: set_voltage_v10_def cm_defs del: cfg_off.simps place.simps) (simp add: mapped_def)
  then have "\<exists>s''. print_cfg_mV env lbl (place r) s' = Inr ((), s'') \<and> c_out s'' = c_out s' @ lbl @ fmt_f 1 (hv_mV n) @ '' mV'' @ nl"
    by (simp add: print_cfg_mV_def cm_defs del: cfg_off.simps place.simps)
  with s' n(2-4) show ?thesis by blast
qed

theorem v10_voltage_misreported_witness:
  "\<exists>n s'. set_voltage_v10 0x40 1000 sample_zio = Inr ((), s') \<and> cfg_mem s' 0x40 = n
    \<and> 9989 / 10 < mV145 n \<and> mV145 n \<le> 1001 \<and> 2295 < hv_mV n"
proof -
  have "mapped sample_zio Cfg 92" by (simp add: mapped_def sample_zio_def)
  from v10_voltage_misreported [OF this, of 1000 CFG_HV1 sample_env "[]"]
  obtain n s' where "set_voltage_v10 0x40 1000 sample_zio = Inr ((), s')" "cfg_mem s' = (cfg_mem sample_zio)(0x40 := n)"
    "1000 - 11 / 10 < mV145 n" "mV145 n \<le> 1000 + 1 / 1000" "2300 - 42 / 10 < hv_mV n" by auto
  then show ?thesis by (intro exI [of _ n] exI [of _ s']) simp
qed

section \<open>The readout\<close>

text \<open>The frame of the functions that have another text in this release.\<close>

lemma frame_new_file_v10: "pres (\<lambda>s. ring_view s = c) (new_file_v10 env)"
  unfolding new_file_v10_def next_file_def file_header_v10_def out_cfg_d_def out_cfg_mV_v10_def
  by (intro pres_intro ring_frame pres_mod) (auto intro!: pres_intro ring_frame)

lemma frame_pps_v10: "pres (\<lambda>s. ring_view s = c) (pps_word_v10 env wo)"
  unfolding pps_word_v10_def tick_pc_v10_def tick_gps_v10_def new_hour_v10_def slow_control_v10_def void_c_def
  by (intro pres_intro ring_frame frame_new_file_v10 pres_mod) simp_all

lemma frame_handle_v10: "pres (\<lambda>s. ring_view s = c) (handle_word_v10 env bmp wo)"
  unfolding handle_word_v10_def by (intro pres_intro ring_frame frame_pps_v10)

lemma frame_first_v10: "pres (\<lambda>s. ring_view s = c) (first_call_v10 env)"
  unfolding first_call_v10_def by (intro pres_intro ring_frame frame_new_file_v10 pres_mod) simp_all

lemma read_step_v10_view:
  assumes "read_step_v10 env bmp ram i s = Inr (u, s')"
  shows "current s' = int i \<and> limit s' = limit s \<and> ptrs s' = ptrs s \<and> mem_reads s' = mem_reads s @ [word_of_nat i]
    \<and> (\<exists>n. ptrs s Mem = Mapped n \<and> i + 4 \<le> n)"
proof -
  obtain wo t u' t' where w: "mem_word ram i s = Inr (wo, t)" and h: "handle_word_v10 env bmp wo t = Inr (u', t')"
    and s': "s' = t'\<lparr>current := int i\<rparr>"
    using assms by (auto simp: read_step_v10_def cm_inv)
  have t: "t = s\<lparr>accs := accs s @ [Rd Mem (word_of_nat i)]\<rparr>" "\<exists>n. ptrs s Mem = Mapped n \<and> i + 4 \<le> n"
    using w by (auto simp: mem_word_def split: ptr.splits if_splits)
  have "ring_view t' = ring_view t" using presD [OF frame_handle_v10 h] by simp
  then show ?thesis using t s' by (auto simp: ring_view_def mem_reads_def main_view_def pos_looks_def)
qed

lemma read_steps_v10_view:
  assumes "for_c xs (read_step_v10 env bmp ram) s = Inr (u, s')"
  shows "current s' = (if xs = [] then current s else int (last xs)) \<and> limit s' = limit s \<and> ptrs s' = ptrs s
    \<and> mem_reads s' = mem_reads s @ map word_of_nat xs \<and> (\<forall>i \<in> set xs. \<exists>n. ptrs s Mem = Mapped n \<and> i + 4 \<le> n)"
  using assms
proof (induction xs arbitrary: s)
  case (Cons x xs)
  then obtain v t where st: "read_step_v10 env bmp ram x s = Inr (v, t)" and rest: "for_c xs (read_step_v10 env bmp ram) t = Inr (u, s')"
    by (auto split: sum.splits)
  show ?case using read_step_v10_view [OF st] Cons.IH [OF rest] by auto
qed simp

definition rb_call_v10 :: "lenv \<Rightarrow> bmp180 option \<Rightarrow> (nat \<Rightarrow> u32) \<times> int \<Rightarrow> ('a lago_scheme, int) cm" where
  "rb_call_v10 env bmp c = read_buffer_v10 env (fst c) (snd c) bmp"

lemma read_buffer_v10_window:
  assumes "rb_at s h" "0 \<le> pos" "8 * pos \<le> limit s" "read_buffer_v10 env ram pos bmp s = Inr (r, s')"
  obtains t u where "ring_view t = (int h - 4, limit s, ptrs s, cma_reads s, main_view s)"
    "for_c (stride 4 h (ring_end (nat (limit s)) h (nat (8 * pos)))) (read_step_v10 env bmp ram) t = Inr (u, s')"
proof -
  let ?B = "nat (limit s)" and ?p = "nat (8 * pos)"
  have ok: "ring_ok ?B (current s) h" and B: "limit s = int ?B" using assms(1) by (auto simp: rb_at_def)
  have p: "8 dvd ?p" "?p \<le> ?B" "wrap32 (pos * 8) = int ?p"
    using assms(2,3) ok by (auto simp: nat_mult_distrib ring_ok_def in_s32_def)
  obtain v1 v2 v3 s1 s2 where s1: "(if_c (fToStdout (args s)) (mod_c (\<lambda>s. s\<lparr>fhout := HStdout\<rparr>))) s = Inr (v1, s1)"
    and s2: "if_c (fFirstTime s1) (first_call_v10 env) s1 = Inr (v2, s2)"
    and run: "(case read_window (limit s2) (current s2) (wrap32 (pos * 8)) of (cur, readinit, readend) \<Rightarrow>
      then_c (mod_c (\<lambda>s. s\<lparr>current := cur\<rparr>))
      (then_c (if_c (cur \<noteq> wrap32 (pos * 8))
         (for_c (stride 4 (unat (to_u32 readinit)) (unat (to_u32 readend))) (read_step_v10 env bmp ram)))
      (ret_c 1))) s2 = Inr (r, s')"
    using assms(4) unfolding read_buffer_v10_def by (auto simp: bind_c_Inr then_c_Inr get_c_def)
  have "ring_view s1 = ring_view s" using s1 by (auto simp: cm_inv split: if_splits)
  moreover have "ring_view s2 = ring_view s1"
    using presD [OF pres_if_c [OF frame_first_v10] s2, of "ring_view s1"] by simp
  ultimately have v: "ring_view s2 = ring_view s" by simp
  then have cl: "limit s2 = int ?B" "current s2 = current s" using B by (simp_all add: ring_view_def)
  note w = read_window_refines [OF ok p(1,2)]
  note u = window_words [OF ok p(2)]
  obtain v4 where "for_c (stride 4 h (ring_end ?B h ?p)) (read_step_v10 env bmp ram) (s2\<lparr>current := int h - 4\<rparr>) = Inr (v4, s')"
    using run w(2) unfolding cl p(3) w(1) by (auto simp: cm_inv u split: if_splits)
  moreover have "ring_view (s2\<lparr>current := int h - 4\<rparr>) = (int h - 4, limit s, ptrs s, cma_reads s, main_view s)"
    using v by (simp add: ring_view_def cma_reads_def mem_reads_def main_view_def pos_looks_def)
  ultimately show thesis using that by blast
qed

lemma read_buffer_v10_contiguous:
  assumes "rb_at s h" "rb_valid c s" "rb_call_v10 env bmp c s = Inr (r, s')"
  shows "limit s' = limit s \<and> ptrs s' = ptrs s \<and> (\<exists>n. ring_end (nat (limit s)) h (nat (8 * snd c)) = h + 4 * n
    \<and> mem_reads s' = mem_reads s @ map (\<lambda>j. word_of_nat ((h + 4 * j) mod nat (limit s))) [0..<n]
    \<and> rb_at s' ((h + 4 * n) mod nat (limit s)))"
proof -
  let ?B = "nat (limit s)" and ?p = "nat (8 * snd c)"
  have ok: "ring_ok ?B (current s) h" "0 \<le> limit s" using assms(1) by (auto simp: rb_at_def)
  have pos: "0 \<le> snd c" "8 * snd c \<le> limit s" using assms(2) by (auto simp: rb_valid_def)
  have p: "8 dvd ?p" "?p \<le> ?B" using pos by (auto simp: nat_mult_distrib)
  obtain t u where t: "ring_view t = (int h - 4, limit s, ptrs s, cma_reads s, main_view s)"
    and run: "for_c (stride 4 h (ring_end ?B h ?p)) (read_step_v10 env bmp (fst c)) t = Inr (u, s')"
    using read_buffer_v10_window [OF assms(1) pos] assms(3) unfolding rb_call_v10_def by blast
  obtain n where n: "ring_end ?B h ?p = h + 4 * n" "h + 4 * n \<le> ?B" "even n"
    using ring_end_bounds [OF ok(1) p] by blast
  note view = read_steps_v10_view [OF run [unfolded n(1)]]
  have lim: "limit s' = limit s" "ptrs s' = ptrs s" using view t by (simp_all add: ring_view_def)
  have reads: "mem_reads s' = mem_reads s @ map (\<lambda>j. word_of_nat ((h + 4 * j) mod ?B)) [0..<n]"
    using view t window_ring [OF n(2)] ok by (auto simp: ring_view_def main_view_def ring_ok_def)
  have "ring_ok ?B (current s') ((h + 4 * n) mod ?B)"
  proof (cases "n = 0")
    case True
    then show ?thesis using view t ok(1) by (auto simp: ring_view_def ring_ok_def)
  next
    case False
    then have "stride 4 h (h + 4 * n) \<noteq> []" by (simp add: stride_mult)
    then show ?thesis using view ring_step [OF ok(1) n(2,3)] False by simp
  qed
  then show ?thesis using lim reads n(1) ok(2) by (auto simp: rb_at_def)
qed

interpretation daq10: ring_reader "rb_call_v10 env bmp" rb_valid mem_reads rb_at "\<lambda>s. nat (limit s)" word_of_nat for env bmp
proof
  fix s :: "'a lago_scheme" and h c r s'
  assume "rb_at s h" "rb_valid c s" "rb_call_v10 env bmp c s = Inr (r, s')"
  from read_buffer_v10_contiguous [OF this]
  show "nat (limit s') = nat (limit s) \<and> (\<exists>n. mem_reads s' = mem_reads s @ map (\<lambda>j. word_of_nat ((h + 4 * j) mod nat (limit s))) [0..<n]
      \<and> rb_at s' ((h + 4 * n) mod nat (limit s)))" by auto
next
  fix s :: "'a lago_scheme" and c r s' h d
  assume "rb_call_v10 env bmp c s = Inr (r, s')" "rb_at s h" "rb_valid c s" "rb_valid d s"
  then show "rb_valid d s'" using read_buffer_v10_contiguous [of s h c env bmp r s'] by (simp add: rb_valid_def)
qed (auto simp: rb_at_def ring_ok_def)

section \<open>The whole ring is mapped\<close>

lemma runs_header_v10: "runs ready (file_header_v10 env t)"
  unfolding file_header_v10_def out_cfg_d_def out_cfg_mV_v10_def
  by (intro runs_intro) (auto intro!: runs_intro simp del: cfg_off.simps)

lemma new_file_v10_run:
  assumes "env_ok env bmp" "can_open s"
  shows "\<exists>s'. new_file_v10 env s = Inr (0, s') \<and> ready s'"
proof -
  let ?s = "s\<lparr>time_calls := Suc (time_calls s)\<rparr>"
  have "\<exists>t. if_c (\<not> fToStdout (args ?s)) (next_file env) ?s = Inr ((), t) \<and> ready t"
  proof (cases "fToStdout (args s)")
    case True
    then show ?thesis using assms(2) by (simp add: if_c_def can_open_def ready_def devs_ok_def out_ok_def mapped_def)
  next
    case False
    then show ?thesis using assms
      by (auto simp: if_c_def next_file_def close_out_def sync_date_def open_out_def cm_defs env_ok_def
          can_open_def ready_def devs_ok_def out_ok_def mapped_def Let_def split: handle.splits)
  qed
  then obtain t where t: "if_c (\<not> fToStdout (args ?s)) (next_file env) ?s = Inr ((), t)" "ready t" by blast
  obtain v t' where "file_header_v10 env (le_time env (time_calls s)) t = Inr (v, t')" "ready t'"
    using runsD [OF runs_header_v10 t(2)] by blast
  then show ?thesis using t(1) by (simp add: new_file_v10_def cm_defs)
qed

lemma runs_handle_v10:
  assumes e: "env_ok env bmp"
  shows "runs ready (handle_word_v10 env bmp wo)"
proof -
  have "runs ready (new_file_v10 env)" using new_file_v10_run [OF e ready_can_open] by (force simp: runs_def)
  then have "runs ready (pps_word_v10 env wo)"
    unfolding pps_word_v10_def tick_pc_v10_def tick_gps_v10_def new_hour_v10_def slow_control_v10_def void_c_def
    by (intro runs_intro runs_mod) simp_all
  then show ?thesis unfolding handle_word_v10_def by (intro runs_intro runs_handle_word [OF e])
qed

lemma read_steps_v10_run:
  assumes e: "env_ok env bmp" and "\<forall>i \<in> set xs. i + 4 \<le> n" "ready s" "ptrs s Mem = Mapped n"
  shows "\<exists>s'. for_c xs (read_step_v10 env bmp ram) s = Inr ((), s') \<and> ready s'"
  using assms(2-)
proof (induction xs arbitrary: s)
  case (Cons x xs)
  let ?t = "s\<lparr>accs := accs s @ [Rd Mem (word_of_nat x)]\<rparr>"
  obtain u t where h: "handle_word_v10 env bmp (ram x) ?t = Inr (u, t)" "ready t"
    using runsD [OF runs_handle_v10 [OF e], of ?t "ram x"] Cons.prems by auto
  have "ring_view t = ring_view ?t" using presD [OF frame_handle_v10 h(1)] by simp
  then have "ptrs t = ptrs s" by (simp add: ring_view_def)
  then show ?case
    using Cons.IH [of "t\<lparr>current := int x\<rparr>"] Cons.prems h by (simp add: read_step_v10_def mem_word_def cm_defs)
qed simp

lemma first_call_v10_run:
  assumes "env_ok env bmp" "can_open s"
  shows "\<exists>s'. first_call_v10 env s = Inr ((), s') \<and> ready s'"
proof -
  define s1 where "s1 = s\<lparr>accs := accs s @ [Rd Cfg (cfg_off CFG_RESET_GRAL)], time_calls := Suc (time_calls s),
    fileTime := le_time env (time_calls s), fileDate := gmtime (le_time env (time_calls s))\<rparr>"
  define s2 where "s2 = (if drop_bit 4 (cfg_mem s (cfg_off CFG_RESET_GRAL)) AND 1 = 1 then s1\<lparr>falseGPS := True\<rparr>
    else let d = gps_start_date (fileDate s1) in s1\<lparr>fileTime := timegm d, fileDate := gmtime (timegm d)\<rparr>)"
  have "can_open s2" using assms(2) by (simp add: s2_def s1_def Let_def)
  then obtain s3 where "new_file_v10 env s2 = Inr (0, s3)" "ready s3" using new_file_v10_run [OF assms(1)] by blast
  moreover have "mapped s Cfg 92" using assms(2) by (simp add: can_open_def devs_ok_def)
  ultimately show ?thesis
    by (simp add: first_call_v10_def cm_defs s2_def s1_def sync_date_def Let_def del: cfg_off.simps split: if_splits)
qed

lemma read_buffer_v10_run:
  assumes e: "env_ok env bmp" and "rb_at s h" "0 \<le> pos" "8 * pos \<le> limit s"
    and dev: "devs_ok s" and out: "fToStdout (args s) \<or> fFirstTime s \<or> out_ok s"
    and mem: "ptrs s Mem = Mapped n" "limit s \<le> int n"
  shows "\<exists>s'. read_buffer_v10 env ram pos bmp s = Inr (1, s') \<and> ready s'"
proof -
  let ?B = "nat (limit s)" and ?p = "nat (8 * pos)"
  let ?s1 = "if fToStdout (args s) then s\<lparr>fhout := HStdout\<rparr> else s"
  have "\<exists>s2. if_c (fFirstTime s) (first_call_v10 env) ?s1 = Inr ((), s2) \<and> ready s2 \<and> ring_view s2 = ring_view s"
  proof (cases "fFirstTime s")
    case True
    have "can_open ?s1" using dev by (simp add: can_open_def devs_ok_def out_ok_def mapped_def)
    then obtain s2 where s2: "first_call_v10 env ?s1 = Inr ((), s2)" "ready s2" using first_call_v10_run [OF e] by blast
    have "ring_view s2 = ring_view ?s1" using presD [OF frame_first_v10 s2(1)] by simp
    then show ?thesis using s2 True by (auto simp: if_c_def)
  next
    case False
    then show ?thesis using dev out by (auto simp: if_c_def ready_def devs_ok_def out_ok_def mapped_def)
  qed
  then obtain s2 where s2: "if_c (fFirstTime s) (first_call_v10 env) ?s1 = Inr ((), s2)" "ready s2" "ring_view s2 = ring_view s" by blast
  have ok: "ring_ok ?B (current s) h" and B: "limit s = int ?B" using assms(2) by (auto simp: rb_at_def)
  have p: "8 dvd ?p" "?p \<le> ?B" "wrap32 (pos * 8) = int ?p"
    using assms(3,4) ok by (auto simp: nat_mult_distrib ring_ok_def in_s32_def)
  note w = read_window_refines [OF ok p(1,2), folded B]
  obtain k where k: "ring_end ?B h ?p = h + 4 * k" "h + 4 * k \<le> ?B" using ring_end_bounds [OF ok p(1,2)] by blast
  have "?B \<le> n" using mem(2) by simp
  then have bounds: "\<forall>i \<in> set (stride 4 h (ring_end ?B h ?p)). i + 4 \<le> n"
    using k unfolding k(1) by (auto simp: stride_mult)
  have v: "limit s2 = limit s" "current s2 = current s" "ptrs s2 = ptrs s" using s2(3) by (simp_all add: ring_view_def)
  obtain s3 where s3: "for_c (stride 4 h (ring_end ?B h ?p)) (read_step_v10 env bmp ram) (s2\<lparr>current := int h - 4\<rparr>) = Inr ((), s3)" "ready s3"
    using read_steps_v10_run [OF e bounds, of "s2\<lparr>current := int h - 4\<rparr>"] s2(2) mem(1) v by auto
  note u = window_words [OF ok p(2)]
  have "read_window (limit s2) (current s2) (wrap32 (pos * 8)) = (int h - 4, int h, int (ring_end ?B h ?p))"
    using w(1) v by (simp add: p(3))
  then have "read_buffer_v10 env ram pos bmp s = Inr (1, s3)"
    using s2(1) s3(1) w(2) unfolding read_buffer_v10_def
    by (cases "fToStdout (args s)") (simp_all add: bind_c_def then_c_def get_c_def if_c_def [of True] if_c_def [of False] mod_c_def ret_c_def u p(3))
  then show ?thesis using s3(2) by blast
qed

definition run_calls_v10 :: "lenv \<Rightarrow> bmp180 option \<Rightarrow> ((nat \<Rightarrow> u32) \<times> int) list \<Rightarrow> ('a lago_scheme, unit) cm" where
  "run_calls_v10 env bmp calls = for_c calls (\<lambda>c. then_c (read_buffer_v10 env (fst c) (snd c) bmp) (ret_c ()))"

lemma run_calls_v10_return:
  assumes e: "env_ok env bmp"
  shows "rb_at s h \<Longrightarrow> \<forall>c \<in> set calls. rb_valid c s \<Longrightarrow> devs_ok s \<Longrightarrow> fToStdout (args s) \<or> fFirstTime s \<or> out_ok s \<Longrightarrow>
    ptrs s Mem = Mapped n \<Longrightarrow> limit s \<le> int n \<Longrightarrow> \<exists>s'. run_calls_v10 env bmp calls s = Inr ((), s')"
proof (induction calls arbitrary: s h)
  case (Cons c cs)
  have pos: "0 \<le> snd c" "8 * snd c \<le> limit s" using Cons.prems(2) by (simp_all add: rb_valid_def)
  obtain t where t: "read_buffer_v10 env (fst c) (snd c) bmp s = Inr (1, t)" "ready t"
    using read_buffer_v10_run [OF e Cons.prems(1) pos Cons.prems(3-6)] by blast
  have v: "rb_valid c s" using Cons.prems(2) by simp
  from read_buffer_v10_contiguous [OF Cons.prems(1) v, of env bmp 1 t] t(1)
  obtain m where m: "limit t = limit s" "ptrs t = ptrs s" "rb_at t ((h + 4 * m) mod nat (limit s))"
    unfolding rb_call_v10_def by blast
  have "devs_ok t" "out_ok t" using t(2) by (simp_all add: ready_def)
  then have "\<exists>s'. run_calls_v10 env bmp cs t = Inr ((), s')"
    using Cons.prems(2,5,6) m by (intro Cons.IH [OF m(3)]) (simp_all add: rb_valid_def)
  then show ?case using t(1) by (simp add: run_calls_v10_def then_c_def ret_c_def)
qed (simp add: run_calls_v10_def)

lemma mem_init_run:
  assumes "1 \<le> os_open z ''/dev/mem''" "os_mmap z ''/dev/mem'' 8388608 0x1E000000" "pagesize z = 4096"
  shows "\<exists>s'. mem_init z s = Inr (0, s') \<and> s' = s\<lparr>fds := fds s', ptrs := (ptrs s)(Mem := Mapped 8388608), dev_size := dev_size s'\<rparr>"
  using assms by (simp add: mem_init_def open_dev_def mmap_dev_def set_size_def cm_defs page_up_def Let_def)

text \<open>The memory mapped, the start of the ring, and then the calls.\<close>

definition readout_v10 :: "lenv \<Rightarrow> bmp180 option \<Rightarrow> ((nat \<Rightarrow> u32) \<times> int) list \<Rightarrow> ('a lago_scheme, unit) cm" where
  "readout_v10 env bmp calls = seq_c [void_c (mem_init (le_z env)), mod_c (\<lambda>s. s\<lparr>limit := 1024 * 1024 * 8, current := - 4\<rparr>),
     run_calls_v10 env bmp calls]"

text \<open>
  C31. In release 1.0 the ring and its mapping have the same size: with pages of 4096 bytes, once \<open>mem_init\<close> has mapped the memory every
  sequence of calls of \<open>read_buffer\<close> with positions inside the ring returns, whatever the words are, and has read consecutive words
  of the ring from its start on.
\<close>

theorem v10_readout_returns:
  assumes "env_ok env bmp" "1 \<le> os_open (le_z env) ''/dev/mem''" "os_mmap (le_z env) ''/dev/mem'' 8388608 0x1E000000" "pagesize (le_z env) = 4096"
    and "devs_ok s" "fToStdout (args s) \<or> fFirstTime s \<or> out_ok s" "\<forall>c \<in> set calls. 0 \<le> snd c \<and> snd c \<le> 1048576"
  shows "\<exists>s' n. readout_v10 env bmp calls s = Inr ((), s')
    \<and> mem_reads s' = mem_reads s @ map (\<lambda>j. word_of_nat (4 * j mod 8388608)) [0..<n]"
proof -
  obtain t where t: "mem_init (le_z env) s = Inr (0, t)"
      "t = s\<lparr>fds := fds t, ptrs := (ptrs s)(Mem := Mapped 8388608), dev_size := dev_size t\<rparr>"
    using mem_init_run [OF assms(2-4)] by blast
  define u where "u = t\<lparr>limit := 8388608, current := - 4\<rparr>"
  have p: "ptrs t = (ptrs s)(Mem := Mapped 8388608)" "mem_reads t = mem_reads s" "args t = args s" "fFirstTime t = fFirstTime s" "out_ok t = out_ok s"
    by (subst t(2), simp add: mem_reads_def out_ok_def)+
  have u: "ptrs u Mem = Mapped 8388608" "limit u = 8388608" "mem_reads u = mem_reads s" "rb_at u 0"
    using p by (simp_all add: u_def mem_reads_def rb_at_def ring_ok_def)
  have "devs_ok u" using assms(5) p(1) by (simp add: u_def devs_ok_def mapped_def)
  moreover have "fToStdout (args u) \<or> fFirstTime u \<or> out_ok u" using assms(6) p by (simp add: u_def out_ok_def)
  moreover have v: "\<forall>c \<in> set calls. rb_valid c u" using assms(7) u(2) by (auto simp: rb_valid_def)
  ultimately obtain s' where s': "run_calls_v10 env bmp calls u = Inr ((), s')"
    using run_calls_v10_return [OF assms(1) u(4)] u(1,2) by fastforce
  from daq10.calls_contiguous [OF u(4) v, unfolded rb_call_v10_def, OF s' [unfolded run_calls_v10_def]]
  obtain n where "mem_reads s' = mem_reads u @ map (\<lambda>j. word_of_nat ((0 + 4 * j) mod nat (limit u))) [0..<n]" by blast
  moreover have "readout_v10 env bmp calls s = Inr ((), s')"
    using t(1) s' by (simp add: readout_v10_def void_c_def then_c_def bind_c_def ret_c_def mod_c_def u_def)
  ultimately show ?thesis using u(2,3) by auto
qed

theorem v10_readout_returns_witness:
  "\<exists>s' n. readout_v10 daq_lenv (Some sample_bmp) [(\<lambda>_. 0, 2), (\<lambda>_. 0x40000005, 1048576), (\<lambda>_. 0, 1)] daq_lago = Inr ((), s')
    \<and> mem_reads s' = map (\<lambda>j. word_of_nat (4 * j mod 8388608)) [0..<n]"
proof -
  have h: "1 \<le> os_open (le_z daq_lenv) ''/dev/mem''" "os_mmap (le_z daq_lenv) ''/dev/mem'' 8388608 0x1E000000" "pagesize (le_z daq_lenv) = 4096"
    "devs_ok daq_lago" "fToStdout (args daq_lago) \<or> fFirstTime daq_lago \<or> out_ok daq_lago" "mem_reads daq_lago = []"
    by (simp_all add: daq_lenv_def sample_lenv_def sample_env_def daq_lago_def sample_lago_def sample_uart_def zio.defs uart_st.defs
        devs_ok_def mapped_def mem_reads_def sample_zio_def)
  show ?thesis
    using v10_readout_returns [OF daq_env_ok h(1-5), of "[(\<lambda>_. 0, 2), (\<lambda>_. 0x40000005, 1048576), (\<lambda>_. 0, 1)]"] h(6) by simp
qed

end
