(* ===== verification/Lago_V12.thy ===== *)
theory Lago_V12
  imports Lago_V13
begin

text \<open>
  Release 1.2, \<^verbatim>\<open>projects/lago_v1_2/src\<close>.  Its files are those of release 1.3 but for the readout: there it has the text of
  release 1.5 (\<open>limit\<close>, \<open>current\<close> and the position in bytes, \<open>cma_ptr\<close> without a type).  So what was written for 1.3 is the readout alone, and
  1.5 went back to that of 1.2.
\<close>

definition run_mode_v12 :: "lenv \<Rightarrow> bmp180 option \<Rightarrow> daq_ev list \<Rightarrow> ('a lago_scheme, unit) cm" where
  "run_mode_v12 env bmp evs = bind_c (get_c args) (\<lambda>a.
     if fReadReg a then void_c (rd_reg_value (le_z env) (n_dev a) (reg_off a) True)
     else if fWriteReg a then void_c (wr_reg_value (n_dev a) (reg_off a) (reg_val a) True)
     else if fSetCfgReg a then set_register
     else if fGetCfgStatus a then void_c (rd_cfg_status_v13 (le_z env))
     else if fGetPT a then print_weather env bmp
     else if fGetGPS a then print_gps env
     else if fInitSystem a then then_c (printf (''Initializing registers...'' @ nl)) (void_c (init_system_v13 (le_z env)))
     else if fGetXADC a then print_xadc env
     else if_c (fToFile a \<or> fToStdout a) (run_daq env bmp evs))"

definition main_v12 :: "lenv \<Rightarrow> daq_ev list \<Rightarrow> string list \<Rightarrow> ('a lago_scheme, int) cm" where
  "main_v12 env evs argv =
     bind_c (sensor_setup env) (\<lambda>bmp.
     bind_c (parse_param_v13 argv) (\<lambda>ok.
     if ok = 0 then bind_c (lift_c (arg_at argv 0)) (\<lambda>p. case p of None \<Rightarrow> stop_c NullDeref
       | Some progname \<Rightarrow> then_c (show_usage_v13 progname) (ret_c 1))
     else then_c (seq_c [devices_init_v13 env, writer_address env, first_access_v13 env,
         run_mode_v12 env bmp evs, release_devices_v13 env]) (ret_c 0)))"

text \<open>
  In every mode but the status, the start-up and the histogram the releases 1.2 and 1.5 do the same, the acquisition
  included; releases 1.2 and 1.3 do the same in every mode but the acquisition.
\<close>

lemma run_mode_v12_v15:
  "\<not> fGetHst (args s) \<Longrightarrow> \<not> fGetCfgStatus (args s) \<Longrightarrow> \<not> fInitSystem (args s) \<Longrightarrow> run_mode_v12 env bmp evs s = run_mode fuel env bmp evs s"
  by (simp add: run_mode_v12_def run_mode_def bind_c_def get_c_def)

lemma run_mode_v12_v13:
  "\<not> fToFile (args s) \<Longrightarrow> \<not> fToStdout (args s) \<Longrightarrow> run_mode_v12 env bmp evs s = run_mode_v13 env bmp evs s"
  by (simp add: run_mode_v12_def run_mode_v13_def bind_c_def get_c_def if_c_def)

end
