(* ===== verification/Kernel_Dma.thy ===== *)
theory Kernel_Dma
  imports C_String
begin

text \<open>
  What the two allocator modules use of the kernel: the coherent DMA memory.  An allocation gives a buffer that
  is not in use, and freeing takes back a buffer with exactly the address, size and handle it was
  allocated with; freeing anything else is undefined.  Freeing through NULL does nothing.
\<close>

record dma_buf =
  d_addr :: nat
  d_size :: u32
  d_handle :: u32

record kern = cio +
  live :: "dma_buf list"

text \<open>The answer of the allocator: NULL, an error pointer, or an address and a handle.\<close>

datatype alloc = ANull | AErr int | AOk nat u32

definition dma_alloc_coherent :: "u32 \<Rightarrow> alloc \<Rightarrow> ('a kern_scheme, alloc) cm" where
  "dma_alloc_coherent sz r = (case r of
       AOk a h \<Rightarrow> then_c (mod_c (\<lambda>s. s\<lparr>live := \<lparr>d_addr = a, d_size = sz, d_handle = h\<rparr> # live s\<rparr>)) (ret_c r)
     | _ \<Rightarrow> ret_c r)"

definition freed :: "u32 \<Rightarrow> nat option \<Rightarrow> u32 \<Rightarrow> dma_buf list \<Rightarrow> dma_buf list option" where
  "freed sz p h l = (case p of None \<Rightarrow> Some l
     | Some a \<Rightarrow> (let b = \<lparr>d_addr = a, d_size = sz, d_handle = h\<rparr> in if b \<in> set l then Some (remove1 b l) else None))"

definition dma_free_coherent :: "u32 \<Rightarrow> nat option \<Rightarrow> u32 \<Rightarrow> ('a kern_scheme, unit) cm" where
  "dma_free_coherent sz p h = (\<lambda>s. case freed sz p h (live s) of None \<Rightarrow> Inl OutOfBounds | Some l \<Rightarrow> Inr ((), s\<lparr>live := l\<rparr>))"

text \<open>A result the allocator can give: a buffer is never NULL and never one that is in use.\<close>

definition alloc_ok :: "'a kern_scheme \<Rightarrow> alloc \<Rightarrow> bool" where
  "alloc_ok s r = (case r of AOk a h \<Rightarrow> (\<forall>b \<in> set (live s). d_addr b \<noteq> a) | _ \<Rightarrow> True)"

abbreviation printk :: "string \<Rightarrow> ('a kern_scheme, unit) cm" where
  "printk \<equiv> printf"

section \<open>The contract of a module\<close>

text \<open>The states any sequence of calls leads to; a call goes with the answers of the kernel and may be restricted.\<close>

inductive drv_reach :: "('c \<Rightarrow> ('s, 'r) cm) \<Rightarrow> ('c \<Rightarrow> 's \<Rightarrow> bool) \<Rightarrow> 's \<Rightarrow> 's \<Rightarrow> bool" for call ok where
  drv_start: "drv_reach call ok s s"
| drv_step: "drv_reach call ok s t \<Longrightarrow> ok c t \<Longrightarrow> call c t = Inr (r, t') \<Longrightarrow> drv_reach call ok s t'"

text \<open>A module that promises to answer every permitted call and to keep its invariant does so for ever.\<close>

locale driver_module =
  fixes call :: "'c \<Rightarrow> ('s, 'r) cm" and permitted :: "'c \<Rightarrow> 's \<Rightarrow> bool" and inv :: "'s \<Rightarrow> bool"
  assumes call_runs: "inv s \<Longrightarrow> permitted c s \<Longrightarrow> \<exists>r s'. call c s = Inr (r, s') \<and> inv s'"
begin

lemma reach_inv: "drv_reach call permitted s t \<Longrightarrow> inv s \<Longrightarrow> inv t"
proof (induction rule: drv_reach.induct)
  case (drv_step s t c r t')
  then show ?case using call_runs [of t c] by auto
qed

lemma reach_runs: "drv_reach call permitted s t \<Longrightarrow> inv s \<Longrightarrow> permitted c t \<Longrightarrow> \<exists>r t'. call c t = Inr (r, t')"
  using reach_inv call_runs by blast

end

end
