(* ===== verification/Cma_Driver.thy ===== *)
theory Cma_Driver
  imports Kernel_Dma
begin

text \<open>
  The kernel module behind \<^verbatim>\<open>/dev/cma\<close>, \<^verbatim>\<open>patches/cma.c\<close>: one coherent buffer for the whole device, replaced by every
  allocation request and given back by every close.
\<close>

section \<open>The module\<close>

record cma_st = kern +
  dma_device :: bool
  dma_size :: u32
  cpu_addr :: "nat option"
  dma_addr :: u32

definition CMA_ALLOC :: u32 where "CMA_ALLOC = 0xC0045A00"
definition ENOTTY :: int where "ENOTTY = 25"
definition ENOMEM :: int where "ENOMEM = 12"

definition cma_free :: "('a cma_st_scheme, unit) cm" where
  "cma_free = bind_c (get_c (\<lambda>s. s)) (\<lambda>s. case cpu_addr s of None \<Rightarrow> ret_c ()
     | Some a \<Rightarrow> then_c (dma_free_coherent (dma_size s) (Some a) (dma_addr s)) (mod_c (\<lambda>s. s\<lparr>cpu_addr := None\<rparr>)))"

text \<open>
  The arguments of a request: the word in the caller's memory with the number of bytes that could not
  be copied in, the answer of the allocator, and the number of bytes that could not be copied out.
  The result is what \<open>ioctl\<close> returns and the word left in the caller's memory.
\<close>

definition cma_ioctl :: "u32 \<Rightarrow> u32 \<Rightarrow> int \<Rightarrow> alloc \<Rightarrow> int \<Rightarrow> ('a cma_st_scheme, int \<times> u32) cm" where
  "cma_ioctl cmd user n_in r n_out =
     (if cmd \<noteq> CMA_ALLOC then ret_c (- ENOTTY, user)
      else if n_in \<noteq> 0 then ret_c (n_in, user)
      else then_c cma_free
        (then_c (mod_c (\<lambda>s. s\<lparr>dma_size := user\<rparr>))
        (bind_c (dma_alloc_coherent user r) (\<lambda>p. case p of
            ANull \<Rightarrow> then_c (mod_c (\<lambda>s. s\<lparr>cpu_addr := None\<rparr>)) (ret_c (- ENOMEM, user))
          | AErr e \<Rightarrow> then_c (mod_c (\<lambda>s. s\<lparr>cpu_addr := None\<rparr>)) (ret_c (if e = 0 then - ENOMEM else e, user))
          | AOk a h \<Rightarrow> then_c (mod_c (\<lambda>s. s\<lparr>cpu_addr := Some a, dma_addr := h\<rparr>))
              (ret_c (n_out, if n_out = 0 then h else user))))))"

text \<open>\<open>mmap\<close> maps the current buffer, whatever it is; \<open>dma_mmap_coherent\<close> gives the result.\<close>

definition cma_mmap :: "(nat option \<Rightarrow> u32 \<Rightarrow> u32 \<Rightarrow> int) \<Rightarrow> ('a cma_st_scheme, int) cm" where
  "cma_mmap mm = get_c (\<lambda>s. mm (cpu_addr s) (dma_addr s) (dma_size s))"

definition cma_release :: "('a cma_st_scheme, int) cm" where
  "cma_release = then_c cma_free (ret_c 0)"

definition cma_init_module :: "int \<Rightarrow> ('a cma_st_scheme, int) cm" where
  "cma_init_module rc = (if rc \<noteq> 0 then ret_c rc else then_c (mod_c (\<lambda>s. s\<lparr>dma_device := True\<rparr>)) (ret_c 0))"

definition cma_exit :: "('a cma_st_scheme, unit) cm" where
  "cma_exit = then_c cma_free (mod_c (\<lambda>s. s\<lparr>dma_device := False\<rparr>))"

section \<open>Runs of the module\<close>

text \<open>
  The calls processes can make, in any order, once the module is loaded.  With each call goes what the
  kernel answers.
\<close>

datatype cma_call = Ioctl u32 u32 int alloc int | Mmap "nat option \<Rightarrow> u32 \<Rightarrow> u32 \<Rightarrow> int" | Close

fun cma_do :: "cma_call \<Rightarrow> ('a cma_st_scheme, unit) cm" where
  "cma_do (Ioctl cmd user n_in r n_out) = then_c (cma_ioctl cmd user n_in r n_out) (ret_c ())"
| "cma_do (Mmap mm) = then_c (cma_mmap mm) (ret_c ())"
| "cma_do Close = then_c cma_release (ret_c ())"

text \<open>The allocator gives a buffer that is not in use, at the time it is asked: after the old one is freed.\<close>

fun call_ok :: "cma_call \<Rightarrow> 'a cma_st_scheme \<Rightarrow> bool" where
  "call_ok (Ioctl cmd user n_in r n_out) s = (case cma_free s of Inr (_, t) \<Rightarrow> alloc_ok t r | Inl _ \<Rightarrow> True)"
| "call_ok (Mmap mm) s = True"
| "call_ok Close s = True"

abbreviation cma_reach :: "cma_st \<Rightarrow> cma_st \<Rightarrow> bool" where
  "cma_reach \<equiv> drv_reach cma_do call_ok"

section \<open>The buffer is owned\<close>

definition owned :: "'a cma_st_scheme \<Rightarrow> bool" where
  "owned s \<longleftrightarrow> live s = (case cpu_addr s of None \<Rightarrow> []
     | Some a \<Rightarrow> [\<lparr>d_addr = a, d_size = dma_size s, d_handle = dma_addr s\<rparr>])"

lemma cma_free_run:
  assumes "owned s"
  shows "cma_free s = Inr ((), s\<lparr>live := [], cpu_addr := None\<rparr>)"
proof (cases "cpu_addr s")
  case None
  then have "s = s\<lparr>live := [], cpu_addr := None\<rparr>" using assms by (cases s) (simp add: owned_def)
  then show ?thesis using None by (simp add: cma_free_def cm_defs)
next
  case (Some a)
  then show ?thesis using assms by (simp add: cma_free_def cm_defs dma_free_coherent_def freed_def owned_def)
qed

lemma cma_do_owned:
  assumes "owned s"
  shows "\<exists>s'. cma_do c s = Inr ((), s') \<and> owned s'"
proof (cases c)
  case (Ioctl cmd user n_in r n_out)
  then show ?thesis using assms cma_free_run [OF assms]
    by (cases r) (auto simp: cma_ioctl_def cm_defs dma_alloc_coherent_def owned_def)
next
  case (Mmap mm)
  then show ?thesis using assms by (simp add: cma_mmap_def cm_defs)
next
  case Close
  then show ?thesis using cma_free_run [OF assms] by (simp add: cma_release_def cm_defs owned_def)
qed

interpretation cma: driver_module cma_do call_ok owned
  by unfold_locales (use cma_do_owned in blast)

text \<open>
  C23. The module never leaks and never frees twice: in every state that calls from any processes, in any order and with
  any failures of the allocator, lead to from a freshly loaded module, the allocated memory is exactly the
  current buffer, every further call returns, and closing the device and unloading the module free everything.
\<close>

theorem cma_no_leak:
  assumes "cma_reach s t" "live s = []" "cpu_addr s = None"
  shows "(case cpu_addr t of None \<Rightarrow> live t = [] | Some a \<Rightarrow> live t = [\<lparr>d_addr = a, d_size = dma_size t, d_handle = dma_addr t\<rparr>])
    \<and> (\<forall>c. \<exists>t'. cma_do c t = Inr ((), t'))
    \<and> (\<exists>t'. cma_release t = Inr (0, t') \<and> live t' = [] \<and> cpu_addr t' = None) \<and> (\<exists>t'. cma_exit t = Inr ((), t') \<and> live t' = [])"
proof -
  have o: "owned t" using cma.reach_inv [OF assms(1)] assms(2,3) by (simp add: owned_def)
  have "\<exists>t'. cma_release t = Inr (0, t') \<and> live t' = [] \<and> cpu_addr t' = None" "\<exists>t'. cma_exit t = Inr ((), t') \<and> live t' = []"
    using cma_free_run [OF o] by (simp_all add: cma_release_def cma_exit_def cm_defs)
  then show ?thesis using o cma_do_owned [OF o] by (auto simp: owned_def split: option.splits)
qed

definition cma0 :: cma_st where
  "cma0 = \<lparr>c_out = [], c_err = [], live = [], dma_device = True, dma_size = 0, cpu_addr = None, dma_addr = 0\<rparr>"

theorem cma_no_leak_witness:
  "cma_reach cma0 (cma0\<lparr>live := [\<lparr>d_addr = 5, d_size = 4096, d_handle = 0x1E000000\<rparr>], dma_size := 4096, cpu_addr := Some 5, dma_addr := 0x1E000000\<rparr>)
    \<and> (\<exists>t'. cma_release (cma0\<lparr>live := [\<lparr>d_addr = 5, d_size = 4096, d_handle = 0x1E000000\<rparr>], dma_size := 4096, cpu_addr := Some 5, dma_addr := 0x1E000000\<rparr>) = Inr (0, t') \<and> live t' = [])"
proof -
  let ?t = "cma0\<lparr>live := [\<lparr>d_addr = 5, d_size = 4096, d_handle = 0x1E000000\<rparr>], dma_size := 4096, cpu_addr := Some 5, dma_addr := 0x1E000000\<rparr>"
  have "cma_do (Ioctl CMA_ALLOC 4096 0 (AOk 5 0x1E000000) 0) cma0 = Inr ((), ?t)"
    by (simp add: cma0_def cma_ioctl_def cma_free_def dma_alloc_coherent_def cm_defs)
  moreover have "call_ok (Ioctl CMA_ALLOC 4096 0 (AOk 5 0x1E000000) 0) cma0"
    by (simp add: cma0_def cma_free_def alloc_ok_def cm_defs)
  ultimately have r: "cma_reach cma0 ?t" by (rule drv_step [OF drv_start, rotated])
  have "live cma0 = []" "cpu_addr cma0 = None" by (simp_all add: cma0_def)
  from cma_no_leak [OF r this] r show ?thesis by blast
qed

text \<open>
  The buffer has no owner among the processes: a request or a close by any of them frees the buffer another
  one was given the address of, whether or not it is still mapped.
\<close>

lemma cma_any_close_frees:
  assumes "cma_reach s t" "live s = []" "cpu_addr s = None" "cpu_addr t = Some a"
  shows "\<exists>t'. cma_do Close t = Inr ((), t') \<and> live t' = [] \<and> cpu_addr t' = None"
proof -
  have "owned t" using cma.reach_inv [OF assms(1)] assms(2,3) by (simp add: owned_def)
  then show ?thesis using cma_free_run [of t] by (simp add: cma_release_def cm_defs)
qed

end
