(* ===== verification/Memalloc_Driver.thy ===== *)
theory Memalloc_Driver
  imports Kernel_Dma "HOL-Library.Multiset"
begin

text \<open>
  The kernel module \<^verbatim>\<open>apps/dma/dma_driver/memalloc.c\<close>: a table of 16 DMA buffers that user programs reserve, look up,
  activate and release by number through \<open>ioctl\<close>.
\<close>

section \<open>The table\<close>

record bufferInfo =
  b_active :: bool
  b_size :: u32
  b_handle :: u32
  kernelAddress :: "nat option"

text \<open>What is registered with the kernel: the device number, the character device, the class and the device node.\<close>

datatype resource = Region | Cdev | Class | Node

record mem_st = kern +
  bufferInfoTable :: "bufferInfo list"
  activeBufferID :: nat
  regs :: "resource set"

definition BUFFER_MAX_NUMBER :: nat where "BUFFER_MAX_NUMBER = 16"

datatype memAllocCmd = MEMALLOC_RESERVE | MEMALLOC_RELEASE | MEMALLOC_GET_VIRTUAL | MEMALLOC_GET_PHYSICAL
  | MEMALLOC_ACTIVATE_BUFFER

definition cmd_of :: "u32 \<Rightarrow> memAllocCmd option" where
  "cmd_of c = (if c = 0 then Some MEMALLOC_RESERVE else if c = 1 then Some MEMALLOC_RELEASE
     else if c = 2 then Some MEMALLOC_GET_VIRTUAL else if c = 3 then Some MEMALLOC_GET_PHYSICAL
     else if c = 4 then Some MEMALLOC_ACTIVATE_BUFFER else None)"

text \<open>\<open>bufferInfoTable[i]\<close>: there are 16 entries.\<close>

definition slot :: "int \<Rightarrow> ('a mem_st_scheme, bufferInfo) cm" where
  "slot i = (\<lambda>s. if 0 \<le> i \<and> nat i < length (bufferInfoTable s) then Inr (bufferInfoTable s ! nat i, s) else Inl OutOfBounds)"

definition set_slot :: "int \<Rightarrow> (bufferInfo \<Rightarrow> bufferInfo) \<Rightarrow> ('a mem_st_scheme, unit) cm" where
  "set_slot i f = bind_c (slot i) (\<lambda>b. mod_c (\<lambda>s. s\<lparr>bufferInfoTable := (bufferInfoTable s)[nat i := f b]\<rparr>))"

definition nlk :: string where "nlk = [CHR 0x0A]"

definition fmt_X :: "u32 \<Rightarrow> string" where
  "fmt_X w = map (\<lambda>c. if c \<in> set ''abcdef'' then char_of (of_char c - (32 :: nat)) else c) (fmt_x w)"

definition releaseBuffer :: "int \<Rightarrow> ('a mem_st_scheme, int) cm" where
  "releaseBuffer i = (if i > int BUFFER_MAX_NUMBER then then_c (printk (''Wrong bufferID '' @ fmt_d i @ nlk)) (ret_c (- 1))
     else then_c (printk (''Releasing buffer '' @ fmt_d i @ nlk))
       (then_c (set_slot i (\<lambda>b. b\<lparr>b_active := False\<rparr>))
       (bind_c (slot i) (\<lambda>b. then_c (dma_free_coherent (b_size b) (kernelAddress b) (b_handle b)) (ret_c 0)))))"

text \<open>The first entry that is not in use.\<close>

fun first_free :: "nat \<Rightarrow> bufferInfo list \<Rightarrow> nat" where
  "first_free i [] = i"
| "first_free i (b # bs) = (if \<not> b_active b then i else first_free (Suc i) bs)"

text \<open>The answer of \<open>dma_alloc_coherent\<close> is NULL or an address with a handle.\<close>

definition reserveBuffer :: "u32 \<Rightarrow> (nat \<times> u32) option \<Rightarrow> ('a mem_st_scheme, int) cm" where
  "reserveBuffer sz r = bind_c (get_c (\<lambda>s. first_free 0 (bufferInfoTable s))) (\<lambda>i.
     if i < BUFFER_MAX_NUMBER then
       then_c (printk (''Reserving buffer '' @ fmt_d (int i) @ nlk))
       (then_c (set_slot (int i) (\<lambda>b. b\<lparr>b_active := True\<rparr>))
       (bind_c (dma_alloc_coherent sz (case r of None \<Rightarrow> ANull | Some (a, h) \<Rightarrow> AOk a h)) (\<lambda>p. case p of
           AOk a h \<Rightarrow> then_c (set_slot (int i) (\<lambda>b. b\<lparr>kernelAddress := Some a, b_handle := h\<rparr>))
             (then_c (printk (''Allocated buffer with Paddr = '' @ fmt_X h @ nlk))
             (then_c (set_slot (int i) (\<lambda>b. b\<lparr>b_size := sz\<rparr>)) (ret_c (int i))))
         | _ \<Rightarrow> then_c (set_slot (int i) (\<lambda>b. b\<lparr>kernelAddress := None\<rparr>))
             (then_c (printk (''Allocation failure'' @ nlk)) (ret_c (- 1))))))
     else then_c (printk (''No buffer available'' @ nlk)) (ret_c (- 1)))"

definition cleanup_slot :: "nat \<Rightarrow> ('a mem_st_scheme, unit) cm" where
  "cleanup_slot i = bind_c (slot (int i)) (\<lambda>b. if_c (b_active b)
     (then_c (dma_free_coherent (b_size b) (kernelAddress b) (b_handle b)) (set_slot (int i) (\<lambda>b. b\<lparr>b_active := False\<rparr>))))"

definition cleanup :: "('a mem_st_scheme, unit) cm" where
  "cleanup = for_c [0..<BUFFER_MAX_NUMBER] cleanup_slot"

definition memAllocGetPhysical :: "int \<Rightarrow> ('a mem_st_scheme, u32) cm" where
  "memAllocGetPhysical i = (if i > int BUFFER_MAX_NUMBER then then_c (printk (''Wrong bufferID '' @ fmt_d i @ nlk)) (ret_c (- 1))
     else bind_c (slot i) (\<lambda>b. if \<not> b_active b then then_c (printk (''Wrong bufferID '' @ fmt_d i @ nlk)) (ret_c (- 1))
       else ret_c (b_handle b)))"

definition memAllocIoctl :: "u32 \<Rightarrow> u32 \<Rightarrow> (nat \<times> u32) option \<Rightarrow> ('a mem_st_scheme, int) cm" where
  "memAllocIoctl cmd arg r =
     then_c (printk (''received command '' @ fmt_u cmd @ '' arg '' @ fmt_u arg @ nlk))
     (case cmd_of cmd of
        Some MEMALLOC_RESERVE \<Rightarrow> reserveBuffer arg r
      | Some MEMALLOC_RELEASE \<Rightarrow> releaseBuffer (of_u32 arg)
      | Some MEMALLOC_GET_PHYSICAL \<Rightarrow> bind_c (memAllocGetPhysical (of_u32 arg)) (\<lambda>p. ret_c (of_u32 p))
      | Some MEMALLOC_ACTIVATE_BUFFER \<Rightarrow>
          (if uint arg > int BUFFER_MAX_NUMBER then then_c (printk (''Wrong bufferID '' @ fmt_u arg @ nlk)) (ret_c (- 1))
           else bind_c (slot (uint arg)) (\<lambda>b. if \<not> b_active b then then_c (printk (''Wrong bufferID '' @ fmt_u arg @ nlk)) (ret_c (- 1))
             else then_c (mod_c (\<lambda>s. s\<lparr>activeBufferID := unat arg\<rparr>)) (ret_c (uint arg))))
      | _ \<Rightarrow> then_c (printk (''Wrong command: '' @ fmt_d (of_u32 cmd) @ nlk)) (ret_c (- 1)))"

definition memAllocMmap :: "(nat option \<Rightarrow> u32 \<Rightarrow> u32 \<Rightarrow> int) \<Rightarrow> u32 \<Rightarrow> ('a mem_st_scheme, int) cm" where
  "memAllocMmap mm len = bind_c (get_c activeBufferID) (\<lambda>k. bind_c (slot (int k)) (\<lambda>b.
     ret_c (mm (kernelAddress b) (b_handle b) len)))"

definition memAllocRelease :: "('a mem_st_scheme, int) cm" where
  "memAllocRelease = then_c cleanup (ret_c 0)"

definition memAllocOpen :: "('a mem_st_scheme, int) cm" where
  "memAllocOpen = ret_c 0"

section \<open>Loading and unloading\<close>

definition reg_add :: "resource \<Rightarrow> ('a mem_st_scheme, unit) cm" where
  "reg_add x = mod_c (\<lambda>s. s\<lparr>regs := insert x (regs s)\<rparr>)"

definition reg_del :: "resource \<Rightarrow> ('a mem_st_scheme, unit) cm" where
  "reg_del x = mod_c (\<lambda>s. s\<lparr>regs := regs s - {x}\<rparr>)"

text \<open>The results of \<open>alloc_chrdev_region\<close> and \<open>cdev_add\<close>, and whether \<open>device_create\<close> gives an error pointer.\<close>

definition memAllocInit :: "int \<Rightarrow> int \<Rightarrow> bool \<Rightarrow> ('a mem_st_scheme, int) cm" where
  "memAllocInit rc1 rc2 err = then_c (printk (''Loading DMA allocation module'' @ nlk))
     (if rc1 \<noteq> 0 then then_c (printk (''Unable to get a char device number'' @ nlk)) (ret_c rc1)
      else then_c (reg_add Region)
       (if rc2 \<noteq> 0 then then_c (printk (''Unable to add char device'' @ nlk)) (then_c (reg_del Cdev) (ret_c rc2))
        else then_c (reg_add Cdev) (then_c (reg_add Class)
         (if err then then_c (printk (''Unable to create the device'' @ nlk)) (then_c (reg_del Class) (then_c (reg_del Cdev) (ret_c rc2)))
          else then_c (reg_add Node)
            (then_c (for_c [0..<BUFFER_MAX_NUMBER] (\<lambda>i. bind_c (get_c activeBufferID) (\<lambda>k. set_slot (int k) (\<lambda>b. b\<lparr>b_active := False\<rparr>))))
              (ret_c 0))))))"

definition my_memAllocExit :: "('a mem_st_scheme, unit) cm" where
  "my_memAllocExit = then_c (printk (''Module unloading'' @ nlk)) (then_c cleanup
     (then_c (reg_del Cdev) (then_c (reg_del Node) (then_c (reg_del Class) (reg_del Region)))))"


section \<open>The table owns the memory\<close>

definition buf_of :: "bufferInfo \<Rightarrow> dma_buf list" where
  "buf_of b = (case kernelAddress b of Some a \<Rightarrow> if b_active b then [\<lparr>d_addr = a, d_size = b_size b, d_handle = b_handle b\<rparr>] else []
     | None \<Rightarrow> [])"

definition bufs :: "bufferInfo list \<Rightarrow> dma_buf multiset" where
  "bufs tab = mset (concat (map buf_of tab))"

definition mem_inv :: "'a mem_st_scheme \<Rightarrow> bool" where
  "mem_inv s \<longleftrightarrow> length (bufferInfoTable s) = 16 \<and> activeBufferID s < 16 \<and> mset (live s) = bufs (bufferInfoTable s)"

lemma bufs_update: "i < length tab \<Longrightarrow> bufs (tab[i := b]) + mset (buf_of (tab ! i)) = bufs tab + mset (buf_of b)"
proof (induction tab arbitrary: i)
  case (Cons x tab)
  then show ?case by (cases i) (auto simp: bufs_def ac_simps)
qed simp

lemma buf_in: "i < length tab \<Longrightarrow> buf_of (tab ! i) = [b] \<Longrightarrow> b \<in># bufs tab"
  by (auto simp: bufs_def intro!: bexI [of _ "tab ! i"])

lemma slot_run [simp]: "mem_inv s \<Longrightarrow> 0 \<le> i \<Longrightarrow> i < 16 \<Longrightarrow> slot i s = Inr (bufferInfoTable s ! nat i, s)"
  by (simp add: slot_def mem_inv_def)

lemma set_slot_run: "0 \<le> i \<Longrightarrow> i < int (length (bufferInfoTable s)) \<Longrightarrow>
    set_slot i f s = Inr ((), s\<lparr>bufferInfoTable := (bufferInfoTable s)[nat i := f (bufferInfoTable s ! nat i)]\<rparr>)"
  by (simp add: set_slot_def slot_def cm_defs nat_less_iff)

text \<open>Freeing the buffer of an active entry and clearing the entry.\<close>

lemma free_slot:
  assumes "mem_inv s" "i < 16" "b_active (bufferInfoTable s ! i)" "b = bufferInfoTable s ! i"
  shows "\<exists>l. freed (b_size b) (kernelAddress b) (b_handle b) (live s) = Some l
    \<and> mset l = bufs ((bufferInfoTable s)[i := b\<lparr>b_active := False\<rparr>])"
proof -
  let ?t = "bufferInfoTable s"
  have l: "i < length ?t" "mset (live s) = bufs ?t" using assms(1,2) by (simp_all add: mem_inv_def)
  have off: "buf_of (b\<lparr>b_active := False\<rparr>) = []" by (simp add: buf_of_def split: option.splits)
  note up = bufs_update [OF l(1), of "b\<lparr>b_active := False\<rparr>", unfolded off]
  show ?thesis
  proof (cases "kernelAddress b")
    case None
    then have "buf_of (?t ! i) = []" using assms(4) by (simp add: buf_of_def)
    then have "bufs (?t[i := b\<lparr>b_active := False\<rparr>]) = mset (live s)" using up l(2) by simp
    then show ?thesis using None by (intro exI [of _ "live s"]) (simp add: freed_def)
  next
    case (Some a)
    let ?d = "\<lparr>d_addr = a, d_size = b_size b, d_handle = b_handle b\<rparr>"
    have d: "buf_of (?t ! i) = [?d]" using assms(3,4) Some by (simp add: buf_of_def)
    then have "?d \<in> set (live s)" using buf_in [OF l(1) d] l(2) by (metis set_mset_mset)
    moreover have "mset (remove1 ?d (live s)) = bufs (?t[i := b\<lparr>b_active := False\<rparr>])"
    proof -
      have "add_mset ?d (bufs (?t[i := b\<lparr>b_active := False\<rparr>])) = mset (live s)" using up l(2) unfolding d by simp
      then have "mset (live s) - {#?d#} = bufs (?t[i := b\<lparr>b_active := False\<rparr>])" by (metis add_mset_remove_trivial)
      then show ?thesis by simp
    qed
    ultimately show ?thesis using Some by (intro exI [of _ "remove1 ?d (live s)"]) (simp add: freed_def Let_def)
  qed
qed


lemma releaseBuffer_run:
  assumes "mem_inv s" "0 \<le> i" "i < 16" "b_active (bufferInfoTable s ! nat i)"
  shows "\<exists>s'. releaseBuffer i s = Inr (0, s') \<and> mem_inv s' \<and> \<not> b_active (bufferInfoTable s' ! nat i)"
proof -
  let ?b = "bufferInfoTable s ! nat i"
  have n: "nat i < 16" "length (bufferInfoTable s) = 16" using assms by (auto simp: mem_inv_def)
  obtain l where l: "freed (b_size ?b) (kernelAddress ?b) (b_handle ?b) (live s) = Some l"
    "mset l = bufs ((bufferInfoTable s)[nat i := ?b\<lparr>b_active := False\<rparr>])"
    using free_slot [OF assms(1) n(1) assms(4) refl] by blast
  let ?s = "s\<lparr>c_out := c_out s @ ''Releasing buffer '' @ fmt_d i @ nlk, bufferInfoTable := (bufferInfoTable s)[nat i := ?b\<lparr>b_active := False\<rparr>]\<rparr>"
  have "releaseBuffer i s = Inr (0, ?s\<lparr>live := l\<rparr>)"
    using assms(2,3) n l(1) by (simp add: releaseBuffer_def dma_free_coherent_def BUFFER_MAX_NUMBER_def cm_defs set_slot_run slot_def)
  moreover have "mem_inv (?s\<lparr>live := l\<rparr>)" using assms(1) l(2) by (simp add: mem_inv_def)
  ultimately show ?thesis using n by auto
qed

lemma first_free_bound: "first_free k tab \<le> k + length tab"
  by (induction k tab rule: first_free.induct) auto

lemma first_free_inactive: "first_free k tab < k + length tab \<Longrightarrow> k \<le> first_free k tab \<and> \<not> b_active (tab ! (first_free k tab - k))"
proof (induction k tab rule: first_free.induct)
  case (2 i b bs)
  show ?case
  proof (cases "b_active b")
    case True
    then have h: "Suc i \<le> first_free (Suc i) bs" "\<not> b_active (bs ! (first_free (Suc i) bs - Suc i))" using 2 by auto
    then have "first_free (Suc i) bs - i = Suc (first_free (Suc i) bs - Suc i)" by simp
    then show ?thesis using True h by simp
  qed simp
qed simp

lemma reserve_run:
  assumes "mem_inv s"
  shows "\<exists>v s'. reserveBuffer sz r s = Inr (v, s') \<and> mem_inv s'"
proof -
  let ?i = "first_free 0 (bufferInfoTable s)" and ?t = "bufferInfoTable s"
  have n: "length ?t = 16" "mset (live s) = bufs ?t" using assms by (auto simp: mem_inv_def)
  show ?thesis
  proof (cases "?i < 16")
    case False
    then show ?thesis using assms by (simp add: reserveBuffer_def BUFFER_MAX_NUMBER_def cm_defs mem_inv_def)
  next
    case True
    then have i: "?i < length ?t" "\<not> b_active (?t ! ?i)" using n first_free_inactive [of 0 ?t] by auto
    then have o: "buf_of (?t ! ?i) = []" by (simp add: buf_of_def split: option.splits)
    show ?thesis
    proof (cases r)
      case None
      let ?b = "(?t ! ?i)\<lparr>b_active := True, kernelAddress := None\<rparr>"
      have "bufs (?t[?i := ?b]) = bufs ?t" using bufs_update [OF i(1), of ?b] o by (simp add: buf_of_def)
      then show ?thesis using None True n assms
        by (simp add: reserveBuffer_def BUFFER_MAX_NUMBER_def cm_defs set_slot_run dma_alloc_coherent_def mem_inv_def)
    next
      case (Some p)
      obtain a h where p: "p = (a, h)" by (cases p)
      let ?b = "(?t ! ?i)\<lparr>b_active := True, kernelAddress := Some a, b_handle := h, b_size := sz\<rparr>"
      have "bufs (?t[?i := ?b]) = add_mset \<lparr>d_addr = a, d_size = sz, d_handle = h\<rparr> (bufs ?t)"
        using bufs_update [OF i(1), of ?b] o by (simp add: buf_of_def)
      then show ?thesis using Some p True n assms
        by (simp add: reserveBuffer_def BUFFER_MAX_NUMBER_def cm_defs set_slot_run dma_alloc_coherent_def mem_inv_def)
    qed
  qed
qed

lemma cleanup_slot_run:
  assumes "mem_inv s" "i < 16"
  shows "\<exists>s'. cleanup_slot i s = Inr ((), s') \<and> mem_inv s' \<and> \<not> b_active (bufferInfoTable s' ! i)
    \<and> (\<forall>j. j \<noteq> i \<longrightarrow> bufferInfoTable s' ! j = bufferInfoTable s ! j)"
proof -
  let ?b = "bufferInfoTable s ! i"
  have n: "length (bufferInfoTable s) = 16" using assms by (auto simp: mem_inv_def)
  show ?thesis
  proof (cases "b_active ?b")
    case True
    obtain l where l: "freed (b_size ?b) (kernelAddress ?b) (b_handle ?b) (live s) = Some l"
      "mset l = bufs ((bufferInfoTable s)[i := ?b\<lparr>b_active := False\<rparr>])"
      using free_slot [OF assms True refl] by blast
    then have "cleanup_slot i s = Inr ((), s\<lparr>live := l, bufferInfoTable := (bufferInfoTable s)[i := ?b\<lparr>b_active := False\<rparr>]\<rparr>)"
      using True assms n by (simp add: cleanup_slot_def slot_def cm_defs set_slot_run dma_free_coherent_def)
    then show ?thesis using assms l(2) n by (simp add: mem_inv_def)
  next
    case False
    then show ?thesis using assms n by (simp add: cleanup_slot_def slot_def cm_defs)
  qed
qed

lemma cleanup_run:
  assumes "mem_inv s"
  shows "\<exists>s'. cleanup s = Inr ((), s') \<and> mem_inv s' \<and> live s' = []"
proof -
  have "k \<le> 16 \<Longrightarrow> \<exists>s'. for_c [0..<k] cleanup_slot s = Inr ((), s') \<and> mem_inv s' \<and> (\<forall>j < k. \<not> b_active (bufferInfoTable s' ! j))" for k
  proof (induction k)
    case (Suc k)
    then obtain t where t: "for_c [0..<k] cleanup_slot s = Inr ((), t)" "mem_inv t" "\<forall>j < k. \<not> b_active (bufferInfoTable t ! j)" by auto
    obtain t' where "cleanup_slot k t = Inr ((), t')" "mem_inv t'" "\<not> b_active (bufferInfoTable t' ! k)"
        "\<forall>j. j \<noteq> k \<longrightarrow> bufferInfoTable t' ! j = bufferInfoTable t ! j"
      using cleanup_slot_run [OF t(2), of k] Suc.prems by auto
    then show ?case using t by (auto simp: for_c_append less_Suc_eq)
  qed (use assms in simp)
  from this [of 16] obtain s' where s': "for_c [0..<16] cleanup_slot s = Inr ((), s')" "mem_inv s'" "\<forall>j < 16. \<not> b_active (bufferInfoTable s' ! j)" by auto
  have "buf_of b = []" if "b \<in> set (bufferInfoTable s')" for b
    using that s'(2,3) by (auto simp: in_set_conv_nth mem_inv_def buf_of_def split: option.splits)
  then have "concat (map buf_of (bufferInfoTable s')) = []" by (simp add: concat_eq_Nil_conv)
  then have "live s' = []" using s'(2) unfolding mem_inv_def bufs_def by (metis mset.simps(1) mset_zero_iff)
  then show ?thesis using s' by (auto simp: cleanup_def BUFFER_MAX_NUMBER_def)
qed


section \<open>Any sequence of calls\<close>

datatype mem_call = Ioc u32 u32 "(nat \<times> u32) option" | Map "nat option \<Rightarrow> u32 \<Rightarrow> u32 \<Rightarrow> int" u32 | Opn | Cls

fun mem_do :: "mem_call \<Rightarrow> ('a mem_st_scheme, int) cm" where
  "mem_do (Ioc cmd arg r) = memAllocIoctl cmd arg r"
| "mem_do (Map mm len) = memAllocMmap mm len"
| "mem_do Opn = memAllocOpen"
| "mem_do Cls = memAllocRelease"

text \<open>
  What a program must keep to: a buffer number is one of the table, and a buffer is released only
  while it is reserved.
\<close>

fun disciplined :: "mem_call \<Rightarrow> 'a mem_st_scheme \<Rightarrow> bool" where
  "disciplined (Ioc cmd arg r) s =
     ((cmd = 1 \<longrightarrow> uint arg < 16 \<and> b_active (bufferInfoTable s ! unat arg)) \<and> (cmd = 3 \<or> cmd = 4 \<longrightarrow> uint arg < 16))"
| "disciplined _ s = True"

abbreviation mem_reach :: "mem_st \<Rightarrow> mem_st \<Rightarrow> bool" where
  "mem_reach \<equiv> drv_reach mem_do disciplined"

lemma of_u32_index: "uint (arg :: u32) < 16 \<Longrightarrow> of_u32 arg = uint arg"
proof -
  assume "uint arg < 16"
  then have "signed_take_bit 31 (uint arg) = uint arg" using signed_take_bit_id [of 31 "uint arg"] uint_ge_0 [of arg] by simp
  then show ?thesis by (simp add: of_u32_def sint_uint)
qed

lemma memAllocIoctl_run:
  assumes "mem_inv s" "disciplined (Ioc cmd arg r) s"
  shows "\<exists>v s'. memAllocIoctl cmd arg r s = Inr (v, s') \<and> mem_inv s'"
proof -
  let ?s = "s\<lparr>c_out := c_out s @ ''received command '' @ fmt_u cmd @ '' arg '' @ fmt_u arg @ nlk\<rparr>"
  have inv: "mem_inv ?s" using assms(1) by (simp add: mem_inv_def)
  have i: "0 \<le> uint arg" "nat (uint arg) = unat arg" by simp_all
  consider "cmd = 0" | "cmd = 1" | "cmd = 3" | "cmd = 4" | "cmd \<notin> {0, 1, 3, 4}" by blast
  then show ?thesis
  proof cases
    case 1
    then show ?thesis using reserve_run [OF inv, of arg r] by (simp add: memAllocIoctl_def cm_defs cmd_of_def)
  next
    case 2
    then have a: "uint arg < 16" "b_active (bufferInfoTable s ! unat arg)" using assms(2) by auto
    then have "\<exists>s'. releaseBuffer (of_u32 arg) ?s = Inr (0, s') \<and> mem_inv s'"
      using releaseBuffer_run [OF inv i(1) a(1)] i(2) by (auto simp: of_u32_index)
    then show ?thesis using 2 by (auto simp: memAllocIoctl_def cm_defs cmd_of_def)
  next
    case 3
    then have a: "uint arg < 16" using assms(2) by auto
    then show ?thesis using 3 inv
      by (simp add: memAllocIoctl_def memAllocGetPhysical_def BUFFER_MAX_NUMBER_def cm_defs cmd_of_def of_u32_index) (simp add: mem_inv_def)
  next
    case 4
    then have a: "uint arg < 16" using assms(2) by auto
    then have "unat arg < 16" using i by linarith
    then have m: "mem_inv (?s\<lparr>activeBufferID := unat arg\<rparr>)" "mem_inv (?s\<lparr>c_out := x\<rparr>)" for x using inv by (simp_all add: mem_inv_def)
    have "slot (uint arg) ?s = Inr (bufferInfoTable s ! unat arg, ?s)" using slot_run [OF inv i(1) a] i(2) by simp
    then show ?thesis using 4 a m
      by (cases "b_active (bufferInfoTable s ! unat arg)") (simp_all add: memAllocIoctl_def BUFFER_MAX_NUMBER_def cm_defs cmd_of_def del: nat_uint_eq)
  next
    case 5
    then show ?thesis using inv by (auto simp: memAllocIoctl_def cm_defs cmd_of_def mem_inv_def)
  qed
qed

lemma mem_do_inv:
  assumes "mem_inv s" "disciplined c s"
  shows "\<exists>v s'. mem_do c s = Inr (v, s') \<and> mem_inv s'"
proof (cases c)
  case (Ioc cmd arg r)
  then show ?thesis using memAllocIoctl_run [OF assms(1), of cmd arg r] assms(2) by simp
next
  case (Map mm len)
  have "activeBufferID s < 16" using assms(1) by (simp add: mem_inv_def)
  then show ?thesis using Map assms(1) by (simp add: memAllocMmap_def cm_defs)
next
  case Opn
  then show ?thesis using assms(1) by (simp add: memAllocOpen_def cm_defs)
next
  case Cls
  then show ?thesis using cleanup_run [OF assms(1)] by (auto simp: memAllocRelease_def cm_defs)
qed

interpretation mem: driver_module mem_do disciplined mem_inv
  by unfold_locales (use mem_do_inv in blast)

definition mem0 :: mem_st where
  "mem0 = \<lparr>c_out = [], c_err = [], live = [],
     bufferInfoTable = replicate 16 \<lparr>b_active = False, b_size = 0, b_handle = 0, kernelAddress = None\<rparr>,
     activeBufferID = 0, regs = {}\<rparr>"

lemma mem0_inv: "mem_inv mem0"
  by (simp add: mem_inv_def mem0_def bufs_def buf_of_def numeral_eq_Suc)

text \<open>
  C24. The module owns its memory: in every state that any sequence of disciplined calls, with any answers of the
  allocator, leads to, the allocated buffers are exactly those of the reserved entries of the table,
  every further disciplined call returns, and closing the device gives everything back.
\<close>

theorem memalloc_owns_buffers:
  assumes "mem_reach mem0 s"
  shows "mset (live s) = bufs (bufferInfoTable s) \<and> (\<forall>c. disciplined c s \<longrightarrow> (\<exists>v s'. mem_do c s = Inr (v, s')))
    \<and> (\<exists>s'. mem_do Cls s = Inr (0, s') \<and> live s' = [])"
proof -
  have i: "mem_inv s" using mem.reach_inv [OF assms mem0_inv] .
  then have "\<exists>s'. mem_do Cls s = Inr (0, s') \<and> live s' = []" using cleanup_run by (force simp: memAllocRelease_def cm_defs)
  moreover have "\<forall>c. disciplined c s \<longrightarrow> (\<exists>v s'. mem_do c s = Inr (v, s'))" using mem_do_inv [OF i] by blast
  ultimately show ?thesis using i by (simp add: mem_inv_def)
qed

theorem memalloc_owns_buffers_witness:
  "\<exists>s. mem_reach mem0 s \<and> length (live s) = 1 \<and> (\<exists>s'. mem_do Cls s = Inr (0, s') \<and> live s' = [])"
proof -
  have "\<exists>s. mem_do (Ioc 0 4096 (Some (7, 0x1E000000))) mem0 = Inr (0, s) \<and> length (live s) = 1"
    by (simp add: mem0_def memAllocIoctl_def reserveBuffer_def cmd_of_def slot_def set_slot_def dma_alloc_coherent_def BUFFER_MAX_NUMBER_def cm_defs numeral_eq_Suc)
  then obtain s where s: "mem_do (Ioc 0 4096 (Some (7, 0x1E000000))) mem0 = Inr (0, s)" "length (live s) = 1" by blast
  have r: "mem_reach mem0 s" using s(1) by (rule drv_step [where call = mem_do, OF drv_start, rotated]) simp
  from memalloc_owns_buffers [OF r] r s(2) show ?thesis by blast
qed

text \<open>
  The bound of the table is checked with the wrong comparison: buffer number 16 passes the test of release, address
  lookup and activation, and the entry after the last one is accessed.
\<close>

lemma memalloc_number_16:
  assumes "mem_reach mem0 s" "cmd = 1 \<or> cmd = 3 \<or> cmd = 4"
  shows "memAllocIoctl cmd 16 r s = Inl OutOfBounds"
proof -
  have "length (bufferInfoTable s) = 16" using mem.reach_inv [OF assms(1) mem0_inv] by (simp add: mem_inv_def)
  then show ?thesis using assms(2)
    by (auto simp: memAllocIoctl_def cmd_of_def releaseBuffer_def memAllocGetPhysical_def set_slot_def slot_def BUFFER_MAX_NUMBER_def cm_defs of_u32_def)
qed

text \<open>A failed allocation keeps its entry: after 16 of them no buffer can be reserved any more.\<close>

lemma failed_reserve:
  assumes "length (bufferInfoTable s) = 16" "first_free 0 (bufferInfoTable s) < 16"
  shows "\<exists>s'. reserveBuffer sz None s = Inr (- 1, s') \<and> live s' = live s
    \<and> map b_active (bufferInfoTable s') = (map b_active (bufferInfoTable s))[first_free 0 (bufferInfoTable s) := True]"
  using assms by (simp add: reserveBuffer_def BUFFER_MAX_NUMBER_def cm_defs set_slot_run dma_alloc_coherent_def map_update)

lemma table_full: "\<forall>b \<in> set tab. b_active b \<Longrightarrow> first_free k tab = k + length tab"
  by (induction k tab rule: first_free.induct) auto

lemma full_table_refuses:
  assumes "length (bufferInfoTable s) = 16" "\<forall>b \<in> set (bufferInfoTable s). b_active b"
  shows "\<exists>s'. reserveBuffer sz r s = Inr (- 1, s') \<and> live s' = live s"
  using assms table_full [OF assms(2), of 0] by (simp add: reserveBuffer_def BUFFER_MAX_NUMBER_def cm_defs)

text \<open>When the device node cannot be created, loading reports success although nothing but the device number is left.\<close>

lemma init_reports_success: "memAllocInit 0 0 True s = Inr (v, s') \<Longrightarrow> v = 0 \<and> Node \<notin> regs s' \<or> Node \<in> regs s"
  by (auto simp: memAllocInit_def reg_add_def reg_del_def cm_defs)

end
