(* ===== verification/Memalloc_Test.thy ===== *)
theory Memalloc_Test
  imports Memalloc_Driver
begin

text \<open>
  The user program \<^verbatim>\<open>apps/dma/dma_driver/test.c\<close> on top of the allocation driver: it reserves two buffers, looks each up,
  activates and maps it, and releases both.
\<close>

section \<open>The program\<close>

text \<open>A call through the file descriptor: without one it fails, and a negative answer of the driver becomes \<open>-1\<close>.\<close>

definition sys_c :: "int \<Rightarrow> ('a mem_st_scheme, int) cm \<Rightarrow> ('a mem_st_scheme, int) cm" where
  "sys_c fd m = (if fd < 0 then ret_c (- 1) else bind_c m (\<lambda>r. ret_c (if - 4095 \<le> r \<and> r < 0 then - 1 else r)))"

definition TEST_SIZE :: u32 where "TEST_SIZE = 2048"

text \<open>
  Reserve, look up, activate, map, and ask for the virtual address, a command the driver does not have.  Only the number of the buffer is
  used later.  \<open>r\<close> is the answer of the allocator, \<open>mm\<close> the kernel's mapping function.
\<close>

definition use_buffer :: "int \<Rightarrow> (nat \<times> u32) option \<Rightarrow> (nat option \<Rightarrow> u32 \<Rightarrow> u32 \<Rightarrow> int) \<Rightarrow> ('a mem_st_scheme, int) cm" where
  "use_buffer fd r mm =
     bind_c (sys_c fd (memAllocIoctl 0 TEST_SIZE r)) (\<lambda>ident.
     bind_c (sys_c fd (memAllocIoctl 3 (to_u32 ident) None)) (\<lambda>paddr.
     bind_c (sys_c fd (memAllocIoctl 4 (to_u32 ident) None)) (\<lambda>_.
     bind_c (sys_c fd (memAllocMmap mm TEST_SIZE)) (\<lambda>vaddr.
     bind_c (sys_c fd (memAllocIoctl 2 (to_u32 ident) None)) (\<lambda>_. ret_c ident)))))"

definition memtest_main :: "int \<Rightarrow> (nat \<times> u32) option \<Rightarrow> (nat \<times> u32) option \<Rightarrow> (nat option \<Rightarrow> u32 \<Rightarrow> u32 \<Rightarrow> int) \<Rightarrow> ('a mem_st_scheme, int) cm" where
  "memtest_main fd r1 r2 mm =
     bind_c (use_buffer fd r1 mm) (\<lambda>ibuf.
     bind_c (use_buffer fd r2 mm) (\<lambda>obuf.
     bind_c (sys_c fd (memAllocIoctl 1 (to_u32 ibuf) None)) (\<lambda>_.
     bind_c (sys_c fd (memAllocIoctl 1 (to_u32 obuf) None)) (\<lambda>_. ret_c 0))))"

section \<open>One call\<close>

definition taken :: "bufferInfo \<Rightarrow> u32 \<Rightarrow> nat \<Rightarrow> u32 \<Rightarrow> bufferInfo" where
  "taken b sz a h = b\<lparr>b_active := True, kernelAddress := Some a, b_handle := h, b_size := sz\<rparr>"

lemma index_word:
  assumes "i < 16"
  shows "uint (to_u32 (int i)) = int i" "of_u32 (to_u32 (int i)) = int i" "unat (to_u32 (int i)) = i"
  using assms by (simp_all add: uint_to_u32 in_s32_def flip: nat_uint_eq)

lemma ioc_reserve:
  assumes "mem_inv s" "first_free 0 (bufferInfoTable s) = i" "i < 16"
  shows "\<exists>s'. memAllocIoctl 0 sz (Some (a, h)) s = Inr (int i, s') \<and> mem_inv s'
    \<and> bufferInfoTable s' = (bufferInfoTable s)[i := taken (bufferInfoTable s ! i) sz a h]"
proof -
  have n: "length (bufferInfoTable s) = 16" using assms(1) by (simp add: mem_inv_def)
  obtain v s' where r: "memAllocIoctl 0 sz (Some (a, h)) s = Inr (v, s')" "mem_inv s'"
    using memAllocIoctl_run [OF assms(1), of 0 sz "Some (a, h)"] by auto
  have "v = int i \<and> bufferInfoTable s' = (bufferInfoTable s)[i := taken (bufferInfoTable s ! i) sz a h]"
    using r(1) assms(2,3) n
    by (auto simp: memAllocIoctl_def cmd_of_def reserveBuffer_def BUFFER_MAX_NUMBER_def cm_defs set_slot_run dma_alloc_coherent_def taken_def)
  with r show ?thesis by simp
qed

lemma ioc_keeps:
  assumes "mem_inv s" "i < 16" "b_active (bufferInfoTable s ! i)" "cmd = 2 \<or> cmd = 3 \<or> cmd = 4"
  shows "\<exists>v s'. memAllocIoctl cmd (to_u32 (int i)) None s = Inr (v, s') \<and> mem_inv s' \<and> bufferInfoTable s' = bufferInfoTable s"
proof -
  have "length (bufferInfoTable s) = 16" using assms(1) by (simp add: mem_inv_def)
  moreover have "disciplined (Ioc cmd (to_u32 (int i)) None) s" using assms(2,4) by (auto simp: index_word)
  then obtain v s' where r: "memAllocIoctl cmd (to_u32 (int i)) None s = Inr (v, s')" "mem_inv s'"
    using memAllocIoctl_run [OF assms(1)] by blast
  ultimately have "bufferInfoTable s' = bufferInfoTable s"
    using assms(2-4) by (auto simp: memAllocIoctl_def cmd_of_def memAllocGetPhysical_def slot_def BUFFER_MAX_NUMBER_def cm_defs index_word split: if_splits)
  with r show ?thesis by blast
qed

lemma ioc_release:
  assumes "mem_inv s" "i < 16" "b_active (bufferInfoTable s ! i)"
  shows "\<exists>v s'. memAllocIoctl 1 (to_u32 (int i)) None s = Inr (v, s') \<and> mem_inv s'
    \<and> bufferInfoTable s' = (bufferInfoTable s)[i := (bufferInfoTable s ! i)\<lparr>b_active := False\<rparr>]"
proof -
  have n: "length (bufferInfoTable s) = 16" using assms(1) by (simp add: mem_inv_def)
  have "disciplined (Ioc 1 (to_u32 (int i)) None) s" using assms(2,3) by (simp add: index_word)
  then obtain v s' where r: "memAllocIoctl 1 (to_u32 (int i)) None s = Inr (v, s')" "mem_inv s'"
    using memAllocIoctl_run [OF assms(1)] by blast
  have "bufferInfoTable s' = (bufferInfoTable s)[i := (bufferInfoTable s ! i)\<lparr>b_active := False\<rparr>]"
    using r(1) assms(2) n
    by (auto simp: memAllocIoctl_def cmd_of_def releaseBuffer_def set_slot_run slot_def dma_free_coherent_def BUFFER_MAX_NUMBER_def cm_defs
        index_word split: option.splits)
  with r show ?thesis by blast
qed

lemma sys_run: "0 \<le> fd \<Longrightarrow> m s = Inr (v, s') \<Longrightarrow> sys_c fd m s = Inr (if - 4095 \<le> v \<and> v < 0 then - 1 else v, s')"
  by (simp add: sys_c_def bind_c_def ret_c_def)

lemma bind_run: "m s = Inr (v, t) \<Longrightarrow> bind_c m f s = f v t"
  by (simp add: bind_c_def)

section \<open>One buffer\<close>

lemma use_buffer_run:
  assumes "0 \<le> fd" "mem_inv s" "first_free 0 (bufferInfoTable s) = i" "i < 16"
  shows "\<exists>s'. use_buffer fd (Some (a, h)) mm s = Inr (int i, s') \<and> mem_inv s'
    \<and> bufferInfoTable s' = (bufferInfoTable s)[i := taken (bufferInfoTable s ! i) TEST_SIZE a h]"
proof -
  let ?tab = "(bufferInfoTable s)[i := taken (bufferInfoTable s ! i) TEST_SIZE a h]"
  have n: "length (bufferInfoTable s) = 16" using assms(2) by (simp add: mem_inv_def)
  then have act: "b_active (?tab ! i)" using assms(4) by (simp add: taken_def)
  obtain s1 where s1: "memAllocIoctl 0 TEST_SIZE (Some (a, h)) s = Inr (int i, s1)" "mem_inv s1" "bufferInfoTable s1 = ?tab"
    using ioc_reserve [OF assms(2-4)] by blast
  obtain v2 s2 where s2: "memAllocIoctl 3 (to_u32 (int i)) None s1 = Inr (v2, s2)" "mem_inv s2" "bufferInfoTable s2 = ?tab"
    using ioc_keeps [OF s1(2) assms(4), of 3] act s1(3) by auto
  obtain v3 s3 where s3: "memAllocIoctl 4 (to_u32 (int i)) None s2 = Inr (v3, s3)" "mem_inv s3" "bufferInfoTable s3 = ?tab"
    using ioc_keeps [OF s2(2) assms(4), of 4] act s2(3) by auto
  have "activeBufferID s3 < 16" using s3(2) by (simp add: mem_inv_def)
  then obtain v4 where s4: "memAllocMmap mm TEST_SIZE s3 = Inr (v4, s3)" using s3(2) by (simp add: memAllocMmap_def cm_defs)
  obtain v5 s5 where s5: "memAllocIoctl 2 (to_u32 (int i)) None s3 = Inr (v5, s5)" "mem_inv s5" "bufferInfoTable s5 = ?tab"
    using ioc_keeps [OF s3(2) assms(4), of 2] act s3(3) by auto
  have "use_buffer fd (Some (a, h)) mm s = Inr (int i, s5)"
    using assms(1) s1(1) s2(1) s3(1) s4 s5(1) by (simp add: use_buffer_def bind_run sys_run ret_c_def)
  with s5 show ?thesis by blast
qed

text \<open>The first free entry and the next one.\<close>

lemma first_free_taken:
  assumes "first_free 0 tab = i" "i < length tab"
  shows "first_free 0 (tab[i := taken b sz a h]) = j \<Longrightarrow> j < length tab \<Longrightarrow> i \<noteq> j \<and> \<not> b_active (tab ! j)"
proof -
  assume j: "first_free 0 (tab[i := taken b sz a h]) = j" "j < length tab"
  then have "\<not> b_active (tab[i := taken b sz a h] ! j)" using first_free_inactive [of 0 "tab[i := taken b sz a h]"] by simp
  then show ?thesis using assms by (auto simp: taken_def nth_list_update split: if_splits)
qed

lemma update_twice: "i \<noteq> j \<Longrightarrow> xs[i := a, j := b, i := c, j := d] = xs[i := c, j := d]"
  by (simp add: list_update_swap [of i j])

lemma bufs_idle: "i < length tab \<Longrightarrow> \<not> b_active (tab ! i) \<Longrightarrow> \<not> b_active b \<Longrightarrow> bufs (tab[i := b]) = bufs tab"
  using bufs_update [of i tab b] by (simp add: buf_of_def split: option.splits)

section \<open>The whole program\<close>

text \<open>
  C29. With two entries free and both allocations granted, the test program runs to its end on every state
  the driver can be in, with 0, and leaves the kernel's memory and the use of the table as they were.  When the first
  allocation fails, the driver is asked for the address of buffer \<open>-1\<close> and reads in front of its table.
\<close>

theorem memtest_round_trip:
  assumes "mem_reach mem0 s" "0 \<le> fd" "first_free 0 (bufferInfoTable s) = i" "i < 16"
  shows "(first_free 0 ((bufferInfoTable s)[i := taken (bufferInfoTable s ! i) TEST_SIZE a h]) < 16 \<longrightarrow>
      (\<exists>s'. memtest_main fd (Some (a, h)) (Some (a', h')) mm s = Inr (0, s') \<and> mset (live s') = mset (live s)
        \<and> map b_active (bufferInfoTable s') = map b_active (bufferInfoTable s)))
    \<and> memtest_main fd None r mm s = Inl OutOfBounds"
proof (intro conjI impI)
  have inv: "mem_inv s" using mem.reach_inv [OF assms(1) mem0_inv] .
  let ?t = "bufferInfoTable s"
  have n: "length ?t = 16" "mset (live s) = bufs ?t" using inv by (simp_all add: mem_inv_def)
  have free: "\<not> b_active (?t ! i)" using first_free_inactive [of 0 ?t] assms(3,4) n by simp
  show "memtest_main fd None r mm s = Inl OutOfBounds"
    using assms(2-4) n(1)
    by (simp add: memtest_main_def use_buffer_def sys_c_def memAllocIoctl_def cmd_of_def reserveBuffer_def BUFFER_MAX_NUMBER_def cm_defs set_slot_run
        dma_alloc_coherent_def memAllocGetPhysical_def in_s32_def) (simp add: slot_def)
  let ?t1 = "?t[i := taken (?t ! i) TEST_SIZE a h]"
  assume j: "first_free 0 ?t1 < 16"
  define j where "j = first_free 0 ?t1"
  have ij: "i \<noteq> j" "\<not> b_active (?t ! j)" "j < 16" using first_free_taken [of ?t i "?t ! i" TEST_SIZE a h j] assms(3,4) n j by (simp_all add: j_def)
  obtain s1 where s1: "use_buffer fd (Some (a, h)) mm s = Inr (int i, s1)" "mem_inv s1" "bufferInfoTable s1 = ?t1"
    using use_buffer_run [OF assms(2) inv assms(3,4)] by blast
  have jj: "first_free 0 (bufferInfoTable s1) = j" by (simp add: s1(3) j_def)
  obtain s2 where s2: "use_buffer fd (Some (a', h')) mm s1 = Inr (int j, s2)" "mem_inv s2"
    "bufferInfoTable s2 = ?t1[j := taken (?t1 ! j) TEST_SIZE a' h']"
    using use_buffer_run [OF assms(2) s1(2) jj ij(3), of a' h' mm] s1(3) by auto
  have act: "b_active (bufferInfoTable s2 ! i)" "b_active (bufferInfoTable s2 ! j)" using ij assms(4) n s2(3) by (simp_all add: taken_def)
  obtain v3 s3 where s3: "memAllocIoctl 1 (to_u32 (int i)) None s2 = Inr (v3, s3)" "mem_inv s3"
    "bufferInfoTable s3 = (bufferInfoTable s2)[i := (bufferInfoTable s2 ! i)\<lparr>b_active := False\<rparr>]"
    using ioc_release [OF s2(2) assms(4) act(1)] by blast
  have "b_active (bufferInfoTable s3 ! j)" using act(2) ij s3(3) by simp
  then obtain v4 s4 where s4: "memAllocIoctl 1 (to_u32 (int j)) None s3 = Inr (v4, s4)" "mem_inv s4"
    "bufferInfoTable s4 = (bufferInfoTable s3)[j := (bufferInfoTable s3 ! j)\<lparr>b_active := False\<rparr>]"
    using ioc_release [OF s3(2) ij(3)] by blast
  have run: "memtest_main fd (Some (a, h)) (Some (a', h')) mm s = Inr (0, s4)"
    using assms(2) s1(1) s2(1) s3(1) s4(1) by (simp add: memtest_main_def bind_run sys_run ret_c_def)
  obtain bi bj where tab: "bufferInfoTable s4 = ?t[i := bi, j := bj]" "\<not> b_active bi" "\<not> b_active bj"
  proof
    show "bufferInfoTable s4 = ?t[i := (taken (?t ! i) TEST_SIZE a h)\<lparr>b_active := False\<rparr>, j := (taken (?t ! j) TEST_SIZE a' h')\<lparr>b_active := False\<rparr>]"
      using ij(1) s4(3) assms(4) ij(3) n unfolding s3(3) s2(3) by (simp add: update_twice)
  qed simp_all
  have "mset (live s4) = bufs (?t[i := bi, j := bj])" using s4(2) tab(1) by (simp add: mem_inv_def)
  also have "\<dots> = bufs ?t" using free ij tab assms(4) n by (simp add: bufs_idle)
  finally have "mset (live s4) = mset (live s)" using n(2) by simp
  moreover have "map b_active (?t[i := bi, j := bj]) = map b_active ?t"
    using free ij tab n assms(4) by (intro nth_equalityI) (auto simp: nth_list_update)
  ultimately show "\<exists>s'. memtest_main fd (Some (a, h)) (Some (a', h')) mm s = Inr (0, s') \<and> mset (live s') = mset (live s)
        \<and> map b_active (bufferInfoTable s') = map b_active (bufferInfoTable s)"
    using run tab(1) by auto
qed

theorem memtest_round_trip_witness:
  "(\<exists>s'. memtest_main 3 (Some (100, 0x1E000000)) (Some (200, 0x1E010000)) (\<lambda>_ _ _. 0) mem0 = Inr (0, s') \<and> live s' = [])
    \<and> memtest_main 3 None None (\<lambda>_ _ _. 0) mem0 = Inl OutOfBounds"
proof -
  have i: "first_free 0 (bufferInfoTable mem0) = 0" by (simp add: mem0_def numeral_eq_Suc)
  have j: "first_free 0 ((bufferInfoTable mem0)[0 := taken (bufferInfoTable mem0 ! 0) TEST_SIZE 100 0x1E000000]) < 16"
    by (simp add: mem0_def numeral_eq_Suc taken_def)
  have "live mem0 = []" by (simp add: mem0_def)
  then show ?thesis
    using memtest_round_trip [OF drv_start _ i, of 3 100 "0x1E000000" 200 "0x1E010000" "\<lambda>_ _ _. 0" None] j
    by auto
qed

end
