(* ===== verification/Blink_Driver.thy ===== *)
theory Blink_Driver
  imports Kernel_Dma
begin

text \<open>
  The example character device \<^verbatim>\<open>apps/dma/LKM/blink.c\<close>: one register that switches a LED, opened by one process at a
  time.
\<close>

record blink_st = cio +
  Device_Open :: int
  mod_refs :: int
  mmio :: "u32 option"
  major_num :: int

definition EBUSY :: int where "EBUSY = 16"
definition nlr :: string where "nlr = [CHR 0x0A, CHR 0x0D]"
definition nlb :: string where "nlb = [CHR 0x0A]"

text \<open>The ioctl numbers \<open>_IOR(100, n, char *)\<close>.\<close>

definition IOCTL_ON_LED :: u32 where "IOCTL_ON_LED = 0x80046400"
definition IOCTL_STOP_LED :: u32 where "IOCTL_STOP_LED = 0x80046401"

definition write_mmio :: "u32 \<Rightarrow> ('a blink_st_scheme, unit) cm" where
  "write_mmio v = (\<lambda>s. case mmio s of None \<Rightarrow> Inl NullDeref | Some _ \<Rightarrow> Inr ((), s\<lparr>mmio := Some v\<rparr>))"

definition set_blink_ctrl :: "('a blink_st_scheme, unit) cm" where
  "set_blink_ctrl = then_c (printf (''KERNEL PRINT : set_blink_ctrl '' @ nlr)) (write_mmio 1)"

definition reset_blink_ctrl :: "('a blink_st_scheme, unit) cm" where
  "reset_blink_ctrl = then_c (printf (''KERNEL PRINT : reset_blink_ctrl '' @ nlr)) (write_mmio 0)"

text \<open>The debug lines print kernel pointers; their text is an argument.\<close>

definition device_open :: "string \<Rightarrow> ('a blink_st_scheme, int) cm" where
  "device_open dbg = then_c (printf dbg)
     (bind_c (get_c Device_Open) (\<lambda>n. if n \<noteq> 0 then ret_c (- EBUSY)
      else then_c (mod_c (\<lambda>s. s\<lparr>Device_Open := wrap32 (Device_Open s + 1), mod_refs := mod_refs s + 1\<rparr>)) (ret_c 0)))"

definition device_release :: "string \<Rightarrow> ('a blink_st_scheme, int) cm" where
  "device_release dbg = then_c (printf dbg)
     (then_c (mod_c (\<lambda>s. s\<lparr>Device_Open := wrap32 (Device_Open s - 1), mod_refs := mod_refs s - 1\<rparr>)) (ret_c 0))"

definition device_read :: "('a blink_st_scheme, int) cm" where
  "device_read = ret_c 0"

definition device_write :: "('a blink_st_scheme, int) cm" where
  "device_write = ret_c 0"

definition device_ioctl :: "u32 \<Rightarrow> ('a blink_st_scheme, int) cm" where
  "device_ioctl num = then_c (if num = IOCTL_ON_LED then set_blink_ctrl else if num = IOCTL_STOP_LED then reset_blink_ctrl else ret_c ())
     (ret_c 0)"

text \<open>
  Loading: the result of \<open>register_chrdev\<close> and of \<open>ioremap\<close>, with what the register holds.  On failure the
  code prints and returns a variable it never set.
\<close>

definition init_module :: "int \<Rightarrow> u32 option \<Rightarrow> ('a blink_st_scheme, int) cm" where
  "init_module major remap = then_c (mod_c (\<lambda>s. s\<lparr>major_num := major\<rparr>))
     (if major < 0 then stop_c Uninit
      else then_c (seq_c (map printf [
          ''Registeration is a success The major device number is '' @ fmt_d major @ ''.'' @ nlb,
          ''If you want to talk to the device driver,'' @ nlb,
          ''Than create a device file by following command. '' @ nlb,
          ''mknod /dev/blink_dev c '' @ fmt_d major @ '' 0'' @ nlb,
          ''The device file name is important, because'' @ nlb,
          ''the ioctl program assumes that'' @ [CHR 39] @ ''s the'' @ nlb,
          ''file you'' @ [CHR 39] @ ''ll use.'' @ nlb]))
        (then_c (mod_c (\<lambda>s. s\<lparr>mmio := remap\<rparr>)) (ret_c 0)))"

definition cleanup_module :: "('a blink_st_scheme, unit) cm" where
  "cleanup_module = mod_c (\<lambda>s. s\<lparr>mmio := None\<rparr>)"

section \<open>One process at a time\<close>

text \<open>Processes open the device, use it while they hold it, and close it; a process is a number.\<close>

inductive blink_run :: "blink_st \<Rightarrow> nat set \<Rightarrow> bool" where
  blink_load: "Device_Open s = 0 \<Longrightarrow> blink_run s {}"
| blink_open: "blink_run s P \<Longrightarrow> device_open d s = Inr (0, s') \<Longrightarrow> blink_run s' (insert p P)"
| blink_busy: "blink_run s P \<Longrightarrow> device_open d s = Inr (r, s') \<Longrightarrow> r < 0 \<Longrightarrow> blink_run s' P"
| blink_ioctl: "blink_run s P \<Longrightarrow> p \<in> P \<Longrightarrow> device_ioctl n s = Inr (r, s') \<Longrightarrow> blink_run s' P"
| blink_close: "blink_run s P \<Longrightarrow> p \<in> P \<Longrightarrow> device_release d s = Inr (r, s') \<Longrightarrow> blink_run s' (P - {p})"

lemma blink_exclusive_count: "blink_run s P \<Longrightarrow> finite P \<and> Device_Open s = int (card P) \<and> card P \<le> 1"
proof (induction rule: blink_run.induct)
  case (blink_open s P d s' p)
  then show ?case by (auto simp: device_open_def cm_defs EBUSY_def in_s32_def split: if_splits)
next
  case (blink_busy s P d r s')
  then show ?case by (auto simp: device_open_def cm_defs split: if_splits)
next
  case (blink_ioctl s P p n r s')
  then show ?case
    by (auto simp: device_ioctl_def set_blink_ctrl_def reset_blink_ctrl_def write_mmio_def cm_defs split: if_splits option.splits)
next
  case (blink_close s P p d r s')
  then have "card P = 1" by (metis Suc_leI card_gt_0_iff empty_iff le_antisym One_nat_def)
  then show ?case using blink_close by (auto simp: device_release_def cm_defs in_s32_def)
qed simp

end
