(* ===== verification/Blink_App.thy ===== *)
theory Blink_App
  imports Blink_Driver
begin

text \<open>
  The program \<^verbatim>\<open>apps/dma/LKM/linux_blinkled_app.c\<close> on top of the LED driver: it reads numbers from the terminal and switches
  the LED through \<open>ioctl\<close> until it reads one that is neither 0 nor 1.
\<close>

section \<open>State\<close>

text \<open>The driver's state with what the program printed, what is left of its input, and \<open>Choice\<close>, which has no value at first.\<close>

record blink_app = blink_st +
  app_out :: string
  app_in :: string
  Choice :: "int option"

definition app_print :: "string \<Rightarrow> ('a blink_app_scheme, unit) cm" where
  [cm_defs]: "app_print t = mod_c (\<lambda>s. s\<lparr>app_out := app_out s @ t\<rparr>)"

section \<open>scanf\<close>

text \<open>
  \<open>scanf("%d", ...)\<close>: a number and the rest of the input, or nothing with the input from the character that does
  not fit.  A value outside \<open>int\<close> is stored as the nearest one.
\<close>

definition scan_d :: "string \<Rightarrow> int option \<times> string" where
  "scan_d s = (let (neg, t) = sign_of (skip_space s); (v, rest) = digit_run 10 0 t; x = (if neg then - v else v) in
     if t = [] \<or> \<not> digit_val (hd t) < 10 then (None, t) else (Some (max (- 2147483648) (min 2147483647 x)), rest))"

definition read_choice :: "('a blink_app_scheme, unit) cm" where
  "read_choice = mod_c (\<lambda>s. let (r, rest) = scan_d (app_in s) in
     s\<lparr>app_in := rest, Choice := (case r of None \<Rightarrow> Choice s | Some x \<Rightarrow> Some x)\<rparr>)"

section \<open>The program\<close>

definition ioctl_ON_LED :: "('a blink_app_scheme, unit) cm" where
  "ioctl_ON_LED = bind_c (device_ioctl IOCTL_ON_LED) (\<lambda>r.
     if_c (r < 0) (then_c (app_print (''ioctl_ON_LED failed:'' @ fmt_d r @ nlb)) (stop_c (ExitWith (- 1)))))"

definition ioctl_OFF_LED :: "('a blink_app_scheme, unit) cm" where
  "ioctl_OFF_LED = bind_c (device_ioctl IOCTL_STOP_LED) (\<lambda>r.
     if_c (r < 0) (then_c (app_print (''ioctl_OFF_LED failed:'' @ fmt_d r @ nlb)) (stop_c (ExitWith (- 1)))))"

definition blink_menu :: "('a blink_app_scheme, unit) cm" where
  "blink_menu = seq_c (map app_print [
     ''************************************************ '' @ nlr,
     ''Press '' @ [CHR 39] @ ''1'' @ [CHR 39] @ '' to Start Blink LED TEST '' @ nlr,
     ''Press '' @ [CHR 39] @ ''0'' @ [CHR 39] @ '' to Stop Blink LED TEST '' @ nlr,
     ''************************************************ '' @ nlr])"

definition read_value :: "('a blink_app_scheme, int) cm" where
  "read_value = (\<lambda>s. case Choice s of None \<Rightarrow> Inl Uninit | Some c \<Rightarrow> Inr (c, s))"

text \<open>The loop, for a number of passes; \<open>False\<close> when it has not ended by then.\<close>

fun blink_loop :: "nat \<Rightarrow> ('a blink_app_scheme, bool) cm" where
  "blink_loop 0 = ret_c False"
| "blink_loop (Suc k) = then_c blink_menu (then_c read_choice (bind_c read_value (\<lambda>c.
     then_c (app_print (''Choice  :: '' @ fmt_d c @ '' '' @ nlr))
       (if c = 1 then then_c ioctl_ON_LED (blink_loop k)
        else if c = 0 then then_c ioctl_OFF_LED (blink_loop k)
        else ret_c True))))"

definition blink_banner :: "string \<Rightarrow> ('a blink_app_scheme, unit) cm" where
  "blink_banner t = seq_c (map app_print [''################################ '' @ nlr, t @ nlr, ''################################ '' @ nlr])"

text \<open>\<open>loaded\<close>: the device file is there.  The result is nothing while the program is still running.\<close>

definition blink_main :: "bool \<Rightarrow> string \<Rightarrow> nat \<Rightarrow> ('a blink_app_scheme, int option) cm" where
  "blink_main loaded dbg k =
     then_c (blink_banner ''      Blink LED Application  '')
     (bind_c (if loaded then device_open dbg else ret_c (- 1)) (\<lambda>fd.
       if fd < 0 then then_c (app_print (''Can'' @ [CHR 39] @ ''t open device file: /dev/blink_dev'' @ nlb)) (stop_c (ExitWith (- 1)))
       else bind_c (blink_loop k) (\<lambda>done. if \<not> done then ret_c None
         else bind_c (device_release dbg) (\<lambda>_. then_c (blink_banner ''      Bye Blink LED Application  '') (ret_c (Some 0))))))"

section \<open>Numbers on the terminal\<close>

lemma scan_d_number:
  assumes "in_s32 n"
  shows "scan_d (fmt_d n @ CHR 0x0A # rest) = (Some n, CHR 0x0A # rest)"
proof -
  have end_run: "digit_run 10 m (CHR 0x0A # rest) = (m, CHR 0x0A # rest)" for m
    by (simp add: digit_val_def chr_val_def)
  show ?thesis
  proof (cases "n < 0")
    case True
    obtain d ds where d: "digits 10 (- n) = digit_chr d # ds" "0 \<le> d" "d < 10" using digits_hd [of "- n" 10] True by auto
    have "digit_run 10 0 (digits 10 (- n) @ CHR 0x0A # rest) = (- n, CHR 0x0A # rest)"
      using digit_run_digits_0 [of 10 "- n" "CHR 0x0A # rest"] end_run True by simp
    then show ?thesis using True d assms digit_val_digit_chr [of d]
      by (simp add: scan_d_def fmt_d_def skip_space_minus sign_of_def in_s32_def Let_def del: skip_space.simps digit_run.simps)
  next
    case False
    obtain d ds where d: "digits 10 n = digit_chr d # ds" "0 \<le> d" "d < 10" using digits_hd [of n 10] False by auto
    have "digit_run 10 0 (digits 10 n @ CHR 0x0A # rest) = (n, CHR 0x0A # rest)"
      using digit_run_digits_0 [of 10 n "CHR 0x0A # rest"] end_run False by simp
    then show ?thesis using False d assms digit_val_digit_chr [of d] digit_chr_plain [of d]
      by (simp add: scan_d_def fmt_d_def sign_of_def in_s32_def Let_def del: digit_run.simps)
  qed
qed

lemma scan_d_newline: "scan_d (CHR 0x0A # s) = scan_d s"
  by (simp add: scan_d_def is_space_def chr_val_def)

text \<open>The input a user types, a number on each line; the reader may stand at the end of the line before.\<close>

definition typed :: "int list \<Rightarrow> string" where
  "typed ns = concat (map (\<lambda>n. fmt_d n @ [CHR 0x0A]) ns)"

lemma scan_d_typed:
  assumes "in_s32 n" "inp = typed (n # ns) \<or> inp = CHR 0x0A # typed (n # ns)"
  shows "scan_d inp = (Some n, CHR 0x0A # typed ns)"
  using assms scan_d_number [OF assms(1), of "typed ns"] by (auto simp: typed_def scan_d_newline)

section \<open>Switching the LED\<close>

lemma ioctl_run: "mmio s = Some w \<Longrightarrow> (if c = 1 then ioctl_ON_LED else ioctl_OFF_LED) s
    = Inr ((), s\<lparr>c_out := c_out s @ (if c = (1 :: int) then ''KERNEL PRINT : set_blink_ctrl '' else ''KERNEL PRINT : reset_blink_ctrl '') @ nlr,
        mmio := Some (if c = 1 then 1 else 0)\<rparr>)"
  by (simp add: ioctl_ON_LED_def ioctl_OFF_LED_def device_ioctl_def set_blink_ctrl_def reset_blink_ctrl_def write_mmio_def cm_defs
      IOCTL_ON_LED_def IOCTL_STOP_LED_def)

lemma blink_loop_run:
  assumes "mmio s = Some w" "set cs \<subseteq> {0, 1}" "n \<noteq> 0" "n \<noteq> 1" "in_s32 n"
    and "app_in s = typed (cs @ [n]) \<or> app_in s = CHR 0x0A # typed (cs @ [n])" "length cs < k"
  shows "\<exists>s'. blink_loop k s = Inr (True, s') \<and> mmio s' = Some (if cs = [] then w else word_of_int (last cs))
    \<and> Device_Open s' = Device_Open s \<and> mod_refs s' = mod_refs s"
  using assms
proof (induction cs arbitrary: s w k)
  case Nil
  then obtain k' where "k = Suc k'" by (cases k) auto
  then show ?case using Nil.prems scan_d_typed [of n "app_in s" "[]"]
    by (simp add: blink_menu_def read_choice_def read_value_def cm_defs)
next
  case (Cons c cs)
  then obtain k' where k: "k = Suc k'" by (cases k) auto
  have c: "c = 0 \<or> c = 1" "in_s32 c" using Cons.prems(2) by (auto simp: in_s32_def)
  have r: "scan_d (app_in s) = (Some c, CHR 0x0A # typed (cs @ [n]))" using Cons.prems(6) c(2) by (intro scan_d_typed) auto
  obtain t where t: "blink_loop (Suc k') s = blink_loop k' t" "mmio t = Some (word_of_int c)" "app_in t = CHR 0x0A # typed (cs @ [n])"
    "Device_Open t = Device_Open s" "mod_refs t = mod_refs s"
    using c(1) r Cons.prems(1)
    by (fastforce simp: blink_menu_def read_choice_def read_value_def cm_defs ioctl_ON_LED_def ioctl_OFF_LED_def device_ioctl_def set_blink_ctrl_def
        reset_blink_ctrl_def write_mmio_def IOCTL_ON_LED_def IOCTL_STOP_LED_def)
  show ?case using Cons.IH [OF t(2) _ Cons.prems(3-5), of k'] Cons.prems(2,7) t k by auto
qed

text \<open>
  A user who types the numbers 0 and 1 any number of times and then another number finds the LED
  as the last 0 or 1 said, and the device released for the next process: the program ends with 0, after as many
  passes as numbers were typed.
\<close>

lemma blink_app_switches:
  assumes "mmio s = Some w" "Device_Open s = 0" "set cs \<subseteq> {0, 1}" "n \<noteq> 0" "n \<noteq> 1" "in_s32 n"
    and "app_in s = typed (cs @ [n])" "length cs < k"
  shows "\<exists>s'. blink_main True dbg k s = Inr (Some 0, s') \<and> mmio s' = Some (if cs = [] then w else word_of_int (last cs))
    \<and> Device_Open s' = 0 \<and> mod_refs s' = mod_refs s"
proof -
  obtain t where t: "(bind_c (blink_loop k) (\<lambda>done. if \<not> done then ret_c None
         else bind_c (device_release dbg) (\<lambda>_. then_c (blink_banner ''      Bye Blink LED Application  '') (ret_c (Some 0))))) t
      = blink_main True dbg k s"
    "mmio t = Some w" "app_in t = typed (cs @ [n])" "Device_Open t = 1" "mod_refs t = mod_refs s + 1"
    using assms(1,2,7) by (fastforce simp: blink_main_def blink_banner_def device_open_def cm_defs in_s32_def)
  obtain u where u: "blink_loop k t = Inr (True, u)" "mmio u = Some (if cs = [] then w else word_of_int (last cs))"
    "Device_Open u = 1" "mod_refs u = mod_refs s + 1"
    using blink_loop_run [OF t(2) assms(3-6) _ assms(8)] t(3-5) by auto
  show ?thesis unfolding t(1) [symmetric] using u
    by (simp add: bind_c_def [of "blink_loop k"]) (simp add: device_release_def blink_banner_def cm_defs in_s32_def)
qed

section \<open>Input that is not a number\<close>

text \<open>The result of \<open>scanf\<close> is not looked at: text in front of the first number makes the program use a variable without a value.\<close>

lemma blink_first_not_number: "fst (scan_d (app_in s)) = None \<Longrightarrow> Choice s = None \<Longrightarrow> blink_loop (Suc k) s = Inl Uninit"
  by (auto simp: blink_menu_def read_choice_def read_value_def cm_defs split: prod.splits)

text \<open>After a 0 or a 1 it repeats that choice for ever.\<close>

lemma blink_never_ends:
  assumes "app_in s = CHR ''q'' # rest" "Choice s = Some c" "c = 0 \<or> c = 1" "mmio s = Some w"
  shows "\<exists>s'. blink_loop k s = Inr (False, s')"
  using assms
proof (induction k arbitrary: s w)
  case (Suc k)
  have q: "scan_d (CHR ''q'' # rest) = (None, CHR ''q'' # rest)"
    by (simp add: scan_d_def is_space_def chr_val_def sign_of_def digit_val_def split: prod.splits)
  obtain t where "blink_loop (Suc k) s = blink_loop k t" "app_in t = CHR ''q'' # rest" "Choice t = Some c" "mmio t = Some (word_of_int c)"
    using q Suc.prems
    by (fastforce simp: blink_menu_def read_choice_def read_value_def cm_defs ioctl_ON_LED_def ioctl_OFF_LED_def device_ioctl_def set_blink_ctrl_def
        reset_blink_ctrl_def write_mmio_def IOCTL_ON_LED_def IOCTL_STOP_LED_def)
  then show ?case using Suc.IH [of t] Suc.prems(3) by simp
qed (simp add: ret_c_def)

end
