(* ===== verification/Sync_Args.thy ===== *)
theory Sync_Args
  imports Lago_Args
begin

text \<open>
  The command line of the first generation of the program, \<^verbatim>\<open>apps/lago/lago.c\<close>, where a register of the board was a number
  written in decimal.  The file holds the parser and the usage text; the version it prints is defined
  elsewhere and is an argument.
\<close>

section \<open>State\<close>

text \<open>The flags and strings, and the raw array \<open>scRegister\<close>, into which single characters are stored.\<close>

record sync_args = cio +
  s_fGetReg :: bool
  s_fPutReg :: bool
  s_fGetRegSet :: bool
  s_fPutRegSet :: bool
  s_fToFile :: bool
  s_fToStdout :: bool
  s_fGetPT :: bool
  s_fGetGPS :: bool
  s_fFile :: bool
  s_fCount :: bool
  s_fByte :: bool
  s_fData :: bool
  s_fXsvfFile :: bool
  s_fScanJTAG :: bool
  s_fShowVersion :: bool
  s_action :: string
  s_reg :: string
  s_register :: string
  s_file :: string
  s_count :: string
  s_byte :: string
  s_data :: string

section \<open>The parser\<close>

definition sync_reset :: "('a sync_args_scheme, unit) cm" where
  "sync_reset = mod_c (\<lambda>s. s\<lparr>s_fGetReg := False, s_fPutReg := False, s_fGetRegSet := False, s_fPutRegSet := False, s_fToFile := False,
     s_fToStdout := False, s_fGetPT := False, s_fGetGPS := False, s_fFile := False, s_fCount := False, s_fByte := False, s_fData := False,
     s_fXsvfFile := False, s_fScanJTAG := False\<rparr>)"

text \<open>The action: the value of an early return, or nothing to go on.\<close>

definition sync_action :: "string \<Rightarrow> ('a sync_args_scheme, bool option) cm" where
  "sync_action act =
     (if act = ''-r'' then then_c (mod_c (\<lambda>s. s\<lparr>s_fGetReg := True\<rparr>)) (ret_c None)
      else if act = ''-p'' then then_c (mod_c (\<lambda>s. s\<lparr>s_fPutReg := True\<rparr>)) (ret_c None)
      else if act = ''-a'' then then_c (mod_c (\<lambda>s. s\<lparr>s_fGetRegSet := True\<rparr>)) (ret_c (Some True))
      else if act = ''-v'' then then_c (mod_c (\<lambda>s. s\<lparr>s_fShowVersion := True\<rparr>)) (ret_c (Some False))
      else if act = ''-s'' then then_c (mod_c (\<lambda>s. s\<lparr>s_fPutRegSet := True\<rparr>)) (ret_c None)
      else if act = ''-f'' then then_c (mod_c (\<lambda>s. s\<lparr>s_fToFile := True\<rparr>)) (ret_c None)
      else if act = ''-o'' then then_c (mod_c (\<lambda>s. s\<lparr>s_fToStdout := True\<rparr>)) (ret_c (Some True))
      else if act = ''-t'' then then_c (mod_c (\<lambda>s. s\<lparr>s_fGetPT := True\<rparr>)) (ret_c (Some True))
      else if act = ''-g'' then then_c (mod_c (\<lambda>s. s\<lparr>s_fGetGPS := True\<rparr>)) (ret_c (Some True))
      else if act = ''-x'' then then_c (mod_c (\<lambda>s. s\<lparr>s_fXsvfFile := True\<rparr>)) (ret_c None)
      else if act = ''-j'' then then_c (mod_c (\<lambda>s. s\<lparr>s_fScanJTAG := True\<rparr>)) (ret_c (Some True))
      else ret_c (Some False))"

text \<open>The characters the name of a register puts at the start of \<open>scRegister\<close>.\<close>

definition sync_digits :: "string \<Rightarrow> string option" where
  "sync_digits r =
     (if r = ''t1'' then Some ''1'' else if r = ''t2'' then Some ''3'' else if r = ''t3'' then Some ''5''
      else if r = ''st1'' then Some ''7'' else if r = ''st2'' then Some ''9'' else if r = ''st3'' then Some ''11''
      else if r = ''hv1'' then Some ''13'' else if r = ''hv2'' then Some ''15'' else if r = ''hv3'' then Some ''17''
      else if r = ''tm'' then Some ''19'' else None)"

text \<open>Storing them leaves the rest of the array as it is.\<close>

definition set_chars :: "string \<Rightarrow> ('a sync_args_scheme, unit) cm" where
  "set_chars cs = (\<lambda>s. if length cs \<le> length (s_register s)
     then Inr ((), s\<lparr>s_register := cs @ drop (length cs) (s_register s)\<rparr>) else Inl OutOfBounds)"

definition sync_set :: "string list \<Rightarrow> ('a sync_args_scheme, bool) cm" where
  "sync_set argv =
     bind_c (lift_c (copy_arg MAXCHRLEN argv 2)) (\<lambda>reg.
     then_c (mod_c (\<lambda>s. s\<lparr>s_reg := reg\<rparr>))
     (case sync_digits reg of None \<Rightarrow> ret_c False
      | Some cs \<Rightarrow> then_c (set_chars cs)
        (bind_c (lift_c (copy_arg 16 argv 3)) (\<lambda>d.
         then_c (mod_c (\<lambda>s. s\<lparr>s_data := d\<rparr>))
         (if starts_with ''hv'' reg \<and> atoi d > 4000
          then then_c (printf (''Error: maximum voltage 4000'' @ nl)) (stop_c (ExitWith 1))
          else then_c (mod_c (\<lambda>s. s\<lparr>s_fData := True\<rparr>)) (ret_c True))))))"

fun sync_options :: "string list \<Rightarrow> ('a sync_args_scheme, bool) cm" where
  "sync_options [] = ret_c True"
| "sync_options (opt # rest) =
     (if opt = ''-f'' then (case rest of [] \<Rightarrow> ret_c False | v # vs \<Rightarrow>
        then_c (mod_c (\<lambda>s. s\<lparr>s_file := take 15 v, s_fFile := True\<rparr>)) (sync_options vs))
      else if opt = ''-c'' then (case rest of [] \<Rightarrow> ret_c False | v # vs \<Rightarrow>
        then_c (mod_c (\<lambda>s. s\<lparr>s_count := take 15 v, s_fCount := True\<rparr>)) (sync_options vs))
      else if opt = ''-b'' then (case rest of [] \<Rightarrow> ret_c False | v # vs \<Rightarrow>
        then_c (mod_c (\<lambda>s. s\<lparr>s_byte := take 15 v, s_fByte := True\<rparr>)) (sync_options vs))
      else ret_c False)"

definition sync_register :: "string list \<Rightarrow> ('a sync_args_scheme, bool) cm" where
  "sync_register argv =
     bind_c (lift_c (arg_at argv 2)) (\<lambda>p.
     bind_c (get_c s_register) (\<lambda>old.
     bind_c (lift_c (StrcpyS old MAXCHRLEN p)) (\<lambda>new.
     then_c (mod_c (\<lambda>s. s\<lparr>s_register := new\<rparr>))
     (bind_c (sync_options (drop 3 argv)) (\<lambda>ok.
      if \<not> ok then ret_c False
      else bind_c (get_c (\<lambda>s. (s_fPutReg s \<and> \<not> s_fByte s, s_fToFile s \<and> \<not> s_fFile s))) (\<lambda>(nobyte, nofile).
        if nobyte then then_c (printf (''Error: No byte value provided'' @ nl)) (ret_c False)
        else if nofile then then_c (printf (''Error: No filename provided'' @ nl)) (ret_c False)
        else ret_c True))))))"

definition sync_file :: "nat \<Rightarrow> bool \<Rightarrow> string list \<Rightarrow> ('a sync_args_scheme, bool) cm" where
  "sync_file n flag argv = bind_c (lift_c (arg_at argv 2)) (\<lambda>p. case p of None \<Rightarrow> ret_c False
     | Some a \<Rightarrow> then_c (mod_c (\<lambda>s. s\<lparr>s_file := take (n - 1) a\<rparr>)) (then_c (if_c flag (mod_c (\<lambda>s. s\<lparr>s_fFile := True\<rparr>))) (ret_c True)))"

definition FParseParamSync :: "string list \<Rightarrow> ('a sync_args_scheme, bool) cm" where
  "FParseParamSync argv =
     then_c sync_reset
     (if length argv < 2 then ret_c False
      else bind_c (lift_c (copy_arg MAXCHRLEN argv 1)) (\<lambda>act.
        then_c (mod_c (\<lambda>s. s\<lparr>s_action := act\<rparr>))
        (bind_c (sync_action act) (\<lambda>r. case r of Some v \<Rightarrow> ret_c v
         | None \<Rightarrow> bind_c (get_c (\<lambda>s. (s_fPutRegSet s, s_fToFile s, s_fXsvfFile s))) (\<lambda>(set, file, xsvf).
             if set then sync_set argv
             else if file then sync_file MAXFILENAMELEN True argv
             else if xsvf then sync_file 127 False argv
             else sync_register argv)))))"

section \<open>The usage text\<close>

text \<open>What the file takes from elsewhere: \<open>VERSION\<close>, \<open>REVISION\<close>, \<open>DATAVERSION\<close> and \<open>EXP\<close>.\<close>

record sync_version =
  sv_version :: int
  sv_revision :: int
  sv_data :: int
  sv_exp :: string

definition sync_usage :: "sync_version \<Rightarrow> string \<Rightarrow> ('a sync_args_scheme, unit) cm" where
  "sync_usage v progname = bind_c (get_c s_fShowVersion) (\<lambda>show.
     if show then printf (''LAGO ACQUA BRC v'' @ fmt_d (sv_version v) @ ''r'' @ fmt_d (sv_revision v) @ '' data v'' @ fmt_d (sv_data v) @ nl)
     else seq_c [
       printf (nl @ tab @ ''The LAGO ACQUA suite'' @ nl),
       printf (tab @ ''Data acquisition system for the LAGO BRC electronic'' @ nl),
       printf (tab @ ''(c) 2012-Today, The LAGO Project, http://lagoproject.org'' @ nl),
       printf (tab @ ''(c) 2012, LabDPR, http://labdpr.cab.cnea.gov.ar'' @ nl),
       printf (nl @ tab @ ''The LAGO Project, lago@lagoproject.org'' @ nl),
       printf (nl @ tab @ ''DPR Lab. 2012'' @ nl),
       printf (tab @ ''H. Arnaldi, lharnaldi@gmail.com - H. Asorey, asoreyh@gmail.com'' @ nl),
       printf (tab @ sv_exp v @ '' v'' @ fmt_d (sv_version v) @ ''r'' @ fmt_d (sv_revision v) @ '' comms soft'' @ nl @ nl),
       printf (''Usage: '' @ progname @ '' <action> <register> <value> [options]'' @ nl),
       printf (nl @ tab @ ''Actions:'' @ nl),
       printf (tab @ ''-x'' @ tab @ tab @ tab @ tab @ ''Specify .xsvf file to load into FPGA'' @ nl),
       printf (tab @ ''-a'' @ tab @ tab @ tab @ tab @ ''Get all registers status'' @ nl),
       printf (tab @ ''-s'' @ tab @ tab @ tab @ tab @ ''Set registers'' @ nl),
       printf (tab @ ''-f'' @ tab @ tab @ tab @ tab @ ''Start DAQ and save data to file'' @ nl),
       printf (tab @ ''-o'' @ tab @ tab @ tab @ tab @ ''Start DAQ and send data to stdout'' @ nl),
       printf (tab @ ''-g'' @ tab @ tab @ tab @ tab @ ''Get GPS data'' @ nl),
       printf (tab @ ''-t'' @ tab @ tab @ tab @ tab @ ''Get Pressure and Temperature data'' @ nl),
       printf (tab @ ''-v'' @ tab @ tab @ tab @ tab @ ''Show DAQ version'' @ nl),
       printf (nl @ tab @ ''Registers:'' @ nl),
       printf (tab @ ''t1, t2, t3'' @ tab @ tab @ tab @ ''Specify triggers 1, 2 and 3'' @ nl),
       printf (tab @ ''hv1, hv2, hv3'' @ tab @ tab @ tab @ ''Specify high voltages ...'' @ nl),
       printf (tab @ ''tm'' @ tab @ tab @ tab @ tab @ ''Specify Time Mode for GPS Receiver (0 - UTC, 1 - GPS)'' @ nl),
       printf (nl @ tab @ ''Options:'' @ nl),
       printf (tab @ ''-f <filename>'' @ tab @ tab @ tab @ ''Specify file name'' @ nl),
       printf (tab @ ''-c <# bytes>'' @ tab @ tab @ tab @ ''Number of bytes to read/write'' @ nl),
       printf (tab @ ''-b <byte>'' @ tab @ tab @ tab @ ''Value to load into register'' @ nl),
       printf (nl @ nl)])"

section \<open>The numbers of the registers\<close>

text \<open>
  What a command can set, with the number of its first register as the comments of the code give it: each target has
  two registers of its own, the time mode one.
\<close>

datatype sync_target = Trigger nat | Subtrigger nat | HighVoltage nat | TimeMode

fun target_name :: "sync_target \<Rightarrow> string" where
  "target_name (Trigger n) = ''t'' @ fmt_d (int n)"
| "target_name (Subtrigger n) = ''st'' @ fmt_d (int n)"
| "target_name (HighVoltage n) = ''hv'' @ fmt_d (int n)"
| "target_name TimeMode = ''tm''"

fun target_no :: "sync_target \<Rightarrow> int" where
  "target_no (Trigger n) = 2 * int n - 1"
| "target_no (Subtrigger n) = 2 * int n + 5"
| "target_no (HighVoltage n) = 2 * int n + 11"
| "target_no TimeMode = 19"

fun target_ok :: "sync_target \<Rightarrow> bool" where
  "target_ok (Trigger n) = (n \<in> {1, 2, 3})"
| "target_ok (Subtrigger n) = (n \<in> {1, 2, 3})"
| "target_ok (HighVoltage n) = (n \<in> {1, 2, 3})"
| "target_ok TimeMode = True"

lemma small_numbers:
  "fmt_d 1 = ''1''" "fmt_d 2 = ''2''" "fmt_d 3 = ''3''" "fmt_d 5 = ''5''" "fmt_d 7 = ''7''" "fmt_d 9 = ''9''" "fmt_d 11 = ''11''"
  "fmt_d 13 = ''13''" "fmt_d 15 = ''15''" "fmt_d 17 = ''17''" "fmt_d 19 = ''19''"
  by code_simp+

lemma target_digits: "target_ok t \<Longrightarrow> sync_digits (target_name t) = Some (fmt_d (target_no t)) \<and> length (target_name t) \<le> 3
    \<and> starts_with ''hv'' (target_name t) = (\<exists>n. t = HighVoltage n)"
  by (cases t) (auto simp: sync_digits_def small_numbers)

lemma target_no_small: "target_ok t \<Longrightarrow> in_s32 (target_no t) \<and> nul \<notin> set (fmt_d (target_no t)) \<and> length (fmt_d (target_no t)) \<le> 2"
  by (cases t) (auto simp: small_numbers nul_def in_s32_def)

text \<open>
  A command that sets one of the ten named targets is accepted with the register number that the comments of
  the code give for it, in decimal, and with the value, unless it asks for a high voltage above 4000, on which the
  program exits.  This is for the first call, while the array of the number is still empty.
\<close>

lemma sync_set_numbers:
  assumes "target_ok t" "length v \<le> 15" "s_register s = replicate 1024 nul" "argv = [p, ''-s'', target_name t, v]"
  shows "if (\<exists>n. t = HighVoltage n) \<and> atoi v > 4000 then FParseParamSync argv s = Inl (ExitWith 1)
    else \<exists>s' num. FParseParamSync argv s = Inr (True, s') \<and> s_data s' = v \<and> s_fData s' \<and> s_fPutRegSet s'
      \<and> cstr (s_register s') = Inr num \<and> atoi num = target_no t"
proof -
  have copy: "copy_arg MAXCHRLEN argv 1 = Inr ''-s''" "copy_arg MAXCHRLEN argv 2 = Inr (target_name t)" "copy_arg 16 argv 3 = Inr v"
    "\<not> length argv < 2"
    using assms(2,4) target_digits [OF assms(1)] by (simp_all add: copy_arg_def arg_at_def copied_def MAXCHRLEN_def)
  let ?d = "fmt_d (target_no t)"
  have num: "cstr (?d @ replicate (1024 - length ?d) nul) = Inr ?d" "atoi ?d = target_no t"
  proof -
    have "replicate (1024 - length ?d) nul = nul # replicate (1023 - length ?d) nul"
      using target_no_small [OF assms(1)] Suc_diff_le [of "length ?d" 1023] by (simp flip: replicate_Suc)
    then show "cstr (?d @ replicate (1024 - length ?d) nul) = Inr ?d" using target_no_small [OF assms(1)] by simp
  qed (use target_no_small [OF assms(1)] in \<open>simp add: atoi_fmt_d\<close>)
  have reg: "sync_action ''-s'' t = Inr (None, t\<lparr>s_fPutRegSet := True\<rparr>)" for t :: "'a sync_args_scheme"
    by (simp add: sync_action_def cm_defs)
  show ?thesis
    using num copy target_digits [OF assms(1)] target_no_small [OF assms(1)] assms(3)
    by (auto simp: FParseParamSync_def sync_reset_def sync_set_def set_chars_def reg cm_defs)
qed

text \<open>In a later call the second digit of an earlier number is left behind: after \<open>tm\<close> the trigger 1 has the number of the time mode.\<close>

lemma sync_stale_digit: "set_chars ''1'' s = Inr ((), s') \<Longrightarrow> take 3 (s_register s) = [CHR ''1'', CHR ''9'', nul] \<Longrightarrow> take 3 (s_register s') = take 3 (s_register s)"
  by (cases "s_register s") (auto simp: set_chars_def split: if_splits)

end
