(* ===== verification/Half_Buffer.thy ===== *)
theory Half_Buffer
  imports Lago_Prelude
begin

text \<open>
  A buffer of two halves that the FPGA fills over and over and a program empties half by half: the protocol
  of the streaming servers and of the recorders.  A half holds \<open>hw\<close> words of 8 bytes; the writer's position
  register gives the number of the word it writes next.  The FPGA has no notion of a reader, so the program
  has to look at the position often enough; the lemmas say what it then gets.
\<close>

section \<open>The writer\<close>

text \<open>
  The stream is the sequence \<open>b\<close> of all bytes written since the start.  After \<open>T\<close> words the register shows
  \<open>T mod (2 * hw)\<close> and the buffer holds the last \<open>16 * hw\<close> bytes of the stream, each in its place.
\<close>

definition ring_holds :: "nat \<Rightarrow> (nat \<Rightarrow> u8) \<Rightarrow> nat \<Rightarrow> (nat \<Rightarrow> u8) \<Rightarrow> bool" where
  "ring_holds hw b T ram \<longleftrightarrow> (\<forall>m. m < 8 * T \<and> 8 * T \<le> m + 16 * hw \<longrightarrow> ram (m mod (16 * hw)) = b m)"

text \<open>The offset of the half with the given number.\<close>

definition half_off :: "nat \<Rightarrow> nat \<Rightarrow> nat" where
  "half_off hw n = (if even n then 0 else 8 * hw)"

lemma half_off_simps [simp]: "even n \<Longrightarrow> half_off hw n = 0" "odd n \<Longrightarrow> half_off hw n = 8 * hw"
  by (simp_all add: half_off_def)

lemma half_off_mod: "i < 8 * hw \<Longrightarrow> (8 * hw * n + i) mod (16 * hw) = half_off hw n + i"
proof -
  assume i: "i < 8 * hw"
  have k: "8 * hw * n + i = half_off hw n + i + 16 * hw * (n div 2)"
    by (cases "even n") (auto simp: half_off_def algebra_simps elim!: evenE oddE)
  have "half_off hw n + i < 16 * hw" using i by (simp add: half_off_def)
  then show ?thesis unfolding k by (simp only: mod_mult_self2 mod_less)
qed

text \<open>The position of a writer that is in the half with number \<open>n\<close>.\<close>

lemma pos_in_half:
  assumes "hw * n \<le> T" "T < hw * (n + 1)"
  shows "8 * (T mod (2 * hw)) = half_off hw n + (8 * T - 8 * hw * n)"
proof -
  obtain i where i: "8 * T = 8 * hw * n + i" "i < 8 * hw"
    using assms by (intro that [of "8 * T - 8 * hw * n"]) (simp_all add: algebra_simps)
  have "8 * (T mod (2 * hw)) = (8 * T) mod (16 * hw)" by (simp add: mult_mod_right)
  then show ?thesis using half_off_mod [OF i(2), of n] i(1) by simp
qed

text \<open>What a program finds in the part of a half that has been written and not yet overwritten.\<close>

lemma half_byte:
  assumes "ring_holds hw b T ram" "T \<le> hw * (n + 2)" "8 * hw * n + i < 8 * T" "i < 8 * hw"
  shows "ram (half_off hw n + i) = b (8 * hw * n + i)"
proof -
  have "8 * T \<le> 8 * (hw * (n + 2))" using assms(2) by (rule mult_le_mono2)
  then have "8 * T \<le> (8 * hw * n + i) + 16 * hw" by (simp add: algebra_simps)
  then have "ram ((8 * hw * n + i) mod (16 * hw)) = b (8 * hw * n + i)" using assms(1,3) by (simp add: ring_holds_def)
  then show ?thesis by (simp only: half_off_mod [OF assms(4)])
qed

text \<open>
  A copy takes time, and the FPGA goes on writing.  \<open>ram k\<close> is the memory at the moment at which the copy reads its \<open>k\<close>-th piece; while it
  runs the number of words written goes from \<open>T\<close> to \<open>E\<close>.
\<close>

definition read_during :: "nat \<Rightarrow> (nat \<Rightarrow> u8) \<Rightarrow> nat \<Rightarrow> nat \<Rightarrow> (nat \<Rightarrow> nat \<Rightarrow> u8) \<Rightarrow> bool" where
  "read_during hw b T E ram \<longleftrightarrow> (\<forall>k. \<exists>t. T \<le> t \<and> t \<le> E \<and> ring_holds hw b t (ram k))"

lemma half_bytes:
  assumes "read_during hw b T E ram" "E \<le> hw * (n + 2)" "8 * hw * n + len \<le> 8 * T" "len \<le> 8 * hw"
  shows "map (\<lambda>i. ram (f i) (half_off hw n + i)) [0..<len] = map b [8 * hw * n..<8 * hw * n + len]"
proof -
  have "ram (f i) (half_off hw n + i) = b (8 * hw * n + i)" if "i < len" for i
  proof -
    obtain t where t: "T \<le> t" "t \<le> E" "ring_holds hw b t (ram (f i))" using assms(1) by (auto simp: read_during_def)
    then show ?thesis using half_byte [OF t(3)] assms(2-4) that by simp
  qed
  then show ?thesis by (intro nth_equalityI) simp_all
qed

text \<open>Halves of 256 kB.\<close>

lemma words_32k: "2 * 32768 = (65536 :: nat)"
  by simp

lemma pos_in_half_32k:
  "32768 * n \<le> T \<Longrightarrow> T < 32768 * (n + 1) \<Longrightarrow> 8 * (T mod 65536) = half_off 32768 n + (8 * T - 262144 * n)"
  using pos_in_half [of 32768 n T] by simp

lemma half_bytes_32k:
  assumes "read_during 32768 b T E ram" "E \<le> 32768 * (n + 2)" "262144 * n + len \<le> 8 * T" "len \<le> 262144"
  shows "map (\<lambda>i. ram (f i) (half_off 32768 n + i)) [0..<len] = map b [262144 * n..<262144 * n + len]"
  using half_bytes [OF assms(1), of n len f] assms(2-4) by simp

text \<open>A stream that counts: byte \<open>i\<close> is \<open>i mod 256\<close>, and so is the buffer it is written to.\<close>

lemma counting_ring: "ring_holds 32768 word_of_nat T word_of_nat"
proof -
  have "(word_of_nat (m mod 524288) :: u8) = word_of_nat m" for m
    by (simp add: word_of_nat_eq_iff take_bit_nat_def mod_mod_cancel)
  then show ?thesis by (simp add: ring_holds_def)
qed

lemma counting_during: "T \<le> E \<Longrightarrow> read_during 32768 word_of_nat T E (\<lambda>_. word_of_nat)"
  using counting_ring by (auto simp: read_during_def)

section \<open>The reader\<close>

lemma mod_block: "2 * hw * k \<le> T \<Longrightarrow> T < 2 * hw * k + 2 * hw \<Longrightarrow> T mod (2 * hw) = T - 2 * hw * (k :: nat)"
proof -
  assume "2 * hw * k \<le> T" "T < 2 * hw * k + 2 * hw"
  then obtain r where "T = r + 2 * hw * k" "r < 2 * hw" by (metis add.commute le_Suc_ex nat_add_left_cancel_less)
  then show ?thesis by simp
qed

text \<open>
  \<open>caught_up hw n T\<close>: with \<open>n\<close> halves read and \<open>T\<close> words written no complete half is waiting, but perhaps
  one that was completed just now.
\<close>

definition caught_up :: "nat \<Rightarrow> nat \<Rightarrow> nat \<Rightarrow> bool" where
  "caught_up hw n T \<longleftrightarrow> hw * n \<le> T \<and> T \<le> hw * (n + 1)"

lemma caught_up_next:
  "caught_up hw n T \<Longrightarrow> T \<le> T' \<Longrightarrow> T' < T + hw \<Longrightarrow> hw * n \<le> T'"
  "caught_up hw n T \<Longrightarrow> T \<le> T' \<Longrightarrow> T' < T + hw \<Longrightarrow> T' < hw * (n + 2)"
  by (simp_all add: caught_up_def)

text \<open>
  The passes of the program: each looks at the position when \<open>T\<close> words have been written, and is done with what it does then when \<open>E\<close> have.
  From a look to the end of the next pass fewer than \<open>hw\<close> words are written.
\<close>

fun passes_ok :: "nat \<Rightarrow> nat \<Rightarrow> nat \<Rightarrow> (nat \<times> nat) list \<Rightarrow> bool" where
  "passes_ok hw L M [] = True"
| "passes_ok hw L M ((T, E) # ps) = (M \<le> T \<and> T \<le> E \<and> E < L + hw \<and> passes_ok hw T E ps)"

lemma passes_ok_snoc:
  "passes_ok hw L M (ps @ [(T, E)]) \<longleftrightarrow> passes_ok hw L M ps \<and> last (M # map snd ps) \<le> T \<and> T \<le> E \<and> E < last (L # map fst ps) + hw"
  by (induction hw L M ps rule: passes_ok.induct) auto

lemma passes_ok_last: "passes_ok hw L M ps \<Longrightarrow> L \<le> M \<Longrightarrow> last (L # map fst ps) \<le> last (M # map snd ps)"
  by (induction hw L M ps rule: passes_ok.induct) auto

fun halves_read :: "nat \<Rightarrow> (bool \<Rightarrow> nat \<Rightarrow> bool) \<Rightarrow> nat \<Rightarrow> nat list \<Rightarrow> nat" where
  "halves_read hw ready n [] = n"
| "halves_read hw ready n (T # Ts) = halves_read hw ready (if ready (even n) (T mod (2 * hw)) then Suc n else n) Ts"

text \<open>The test a program makes: for the first half, that the writer is in the second, and the other way round.\<close>

locale half_reader =
  fixes hw :: nat and ready :: "bool \<Rightarrow> nat \<Rightarrow> bool"
  assumes ready_first: "p < 2 * hw \<Longrightarrow> ready True p \<longleftrightarrow> hw < p"
    and ready_second: "p < 2 * hw \<Longrightarrow> ready False p \<longleftrightarrow> p < hw"
begin

lemma ready_iff:
  assumes "hw * n \<le> T" "T < hw * (n + 2)"
  shows "ready (even n) (T mod (2 * hw)) \<longleftrightarrow> (if even n then hw * (n + 1) < T else hw * (n + 1) \<le> T)"
proof (cases "even n")
  case True
  then obtain k where k: "n = 2 * k" by (elim evenE)
  then have b: "2 * hw * k \<le> T" "T < 2 * hw * k + 2 * hw" using assms by (simp_all add: algebra_simps)
  then have "T mod (2 * hw) = T - 2 * hw * k" by (rule mod_block)
  then show ?thesis using True k b ready_first [of "T - 2 * hw * k"] by (auto simp: algebra_simps)
next
  case False
  then obtain k where k: "n = 2 * k + 1" by (elim oddE)
  then have b: "2 * hw * k + hw \<le> T" "T < 2 * hw * k + 3 * hw" using assms by (simp_all add: algebra_simps)
  show ?thesis
  proof (cases "T < 2 * hw * (k + 1)")
    case True
    then have "T mod (2 * hw) = T - 2 * hw * k" using b by (intro mod_block) (simp_all add: algebra_simps)
    then show ?thesis using False True k b ready_second [of "T - 2 * hw * k"] by (auto simp: algebra_simps)
  next
    case ge: False
    then have "T mod (2 * hw) = T - 2 * hw * (k + 1)" using b by (intro mod_block) (simp_all add: algebra_simps)
    then show ?thesis using False ge k b ready_second [of "T - 2 * hw * (k + 1)"] by (auto simp: algebra_simps)
  qed
qed

lemma poll:
  assumes "caught_up hw n T" "T \<le> T'" "T' < T + hw"
  shows "ready (even n) (T' mod (2 * hw)) \<Longrightarrow> hw * (n + 1) \<le> T'" "T' < hw * (n + 2)"
    "caught_up hw (if ready (even n) (T' mod (2 * hw)) then Suc n else n) T'"
proof -
  have b: "hw * n \<le> T'" "T' < hw * (n + 2)" using caught_up_next [OF assms] by blast+
  note r = ready_iff [OF b]
  show "T' < hw * (n + 2)" by (fact b(2))
  show "ready (even n) (T' mod (2 * hw)) \<Longrightarrow> hw * (n + 1) \<le> T'" using r by (simp split: if_splits)
  show "caught_up hw (if ready (even n) (T' mod (2 * hw)) then Suc n else n) T'"
    using r b by (auto simp: caught_up_def)
qed

end

end
