(* ===== verification/Adc_Server.thy ===== *)
theory Adc_Server
  imports Half_Buffer C_String
begin

text \<open>
  The streaming server \<^verbatim>\<open>projects/adc_test/server/adc-test-server.c\<close>: the FPGA fills a buffer of 512 kB over and over, and the
  server sends each half to the client while the other one is being filled.
\<close>

section \<open>State\<close>

text \<open>
  Where the program waits: for a client, for the next look at the counter, or nowhere, with its
  exit status.  What was sent is kept for each connection: the offset of the half and the position seen.
\<close>

datatype smode = Accepting | Serving | Done int

record server = cio +
  srv_interrupted :: bool
  srv_mode :: smode
  rx_rst :: u8
  rx_rate :: u16
  rx_addr :: u32
  srv_limit :: int
  sent :: "(nat \<times> int) list list"
  naps :: "nat list"
  closed_fds :: "int list"
  client :: int

text \<open>
  The system calls before the loop: the results of opening the two devices, the address the CMA driver returns
  (\<open>None\<close> when \<open>ioctl\<close> fails), whether the mappings succeed, and the results of \<open>socket\<close> and \<open>bind\<close>.
\<close>

record senv =
  se_mem :: int
  se_cma :: int
  se_ioctl :: "u32 option"
  se_cfg_map :: bool
  se_sts_map :: bool
  se_sock :: int
  se_bind :: int

section \<open>Set-up\<close>

definition srv_fail :: "string \<Rightarrow> ('a server_scheme, unit) cm" where
  "srv_fail t = then_c (eprintf t) (mod_c (\<lambda>s. s\<lparr>srv_mode := Done 1\<rparr>))"

definition nap :: "nat \<Rightarrow> ('a server_scheme, unit) cm" where
  [cm_defs]: "nap n = mod_c (\<lambda>s. s\<lparr>naps := naps s @ [n]\<rparr>)"

definition rst_and :: "u8 \<Rightarrow> ('a server_scheme, unit) cm" where
  [cm_defs]: "rst_and m = mod_c (\<lambda>s. s\<lparr>rx_rst := rx_rst s AND m\<rparr>)"

definition close_fd :: "int \<Rightarrow> ('a server_scheme, unit) cm" where
  [cm_defs]: "close_fd fd = mod_c (\<lambda>s. s\<lparr>closed_fds := closed_fds s @ [fd]\<rparr>)"

text \<open>The top of the outer loop, up to the wait for a client.\<close>

definition enter_reset :: "('a server_scheme, unit) cm" where
  "enter_reset = seq_c [rst_and (NOT 1), nap 100, rst_and (NOT 2), mod_c (\<lambda>s. s\<lparr>rx_rate := 4, srv_mode := Accepting\<rparr>)]"

definition server_setup :: "senv \<Rightarrow> ('a server_scheme, unit) cm" where
  "server_setup e =
     (if se_mem e < 0 then srv_fail ''open''
      else then_c (close_fd (se_mem e))
       (if se_cma e < 0 then srv_fail ''open''
        else (case se_ioctl e of None \<Rightarrow> srv_fail ''ioctl''
          | Some addr \<Rightarrow> if \<not> se_cfg_map e \<or> \<not> se_sts_map e then stop_c OutOfBounds
            else then_c (mod_c (\<lambda>s. s\<lparr>rx_addr := addr\<rparr>))
              (if se_sock e < 0 then srv_fail ''socket''
               else if se_bind e < 0 then srv_fail ''bind''
               else enter_reset))))"

section \<open>Events\<close>

text \<open>
  A client (the result of \<open>accept\<close>), a look at the counter with the result \<open>send\<close> would give, or the signal.
  Outside a connection the signal has its default action and kills the program.
\<close>

datatype srv_ev = Conn int | Poll u32 int | Sig

definition srv_accept :: "int \<Rightarrow> ('a server_scheme, unit) cm" where
  "srv_accept fd = (if fd < 0 then srv_fail ''accept''
     else mod_c (\<lambda>s. s\<lparr>client := fd, rx_rst := rx_rst s OR 3, srv_limit := 32 * 1024, srv_mode := Serving,
       sent := sent s @ [[]]\<rparr>))"

definition srv_finish :: "senv \<Rightarrow> ('a server_scheme, unit) cm" where
  "srv_finish e = seq_c [rst_and (NOT 1), nap 100, rst_and (NOT 2), close_fd (se_sock e), mod_c (\<lambda>s. s\<lparr>srv_mode := Done 0\<rparr>)]"

definition end_client :: "senv \<Rightarrow> ('a server_scheme, unit) cm" where
  "end_client e = bind_c (get_c client) (\<lambda>fd. then_c (close_fd fd)
     (bind_c (get_c srv_interrupted) (\<lambda>i. if i then srv_finish e else enter_reset)))"

definition half_ready :: "int \<Rightarrow> int \<Rightarrow> bool" where
  "half_ready lm position \<longleftrightarrow> lm > 0 \<and> position > lm \<or> lm = 0 \<and> position < 32 * 1024"

definition srv_poll :: "senv \<Rightarrow> u32 \<Rightarrow> int \<Rightarrow> ('a server_scheme, unit) cm" where
  "srv_poll e cntr sr = bind_c (get_c srv_limit) (\<lambda>lm. let position = of_u32 cntr in
     if half_ready lm position
     then (let offset = (if lm > 0 then 0 else 256 * 1024) in
       then_c (mod_c (\<lambda>s. s\<lparr>srv_limit := (if lm > 0 then 0 else 32 * 1024)\<rparr>))
         (if sr < 0 then end_client e else mod_c (\<lambda>s. s\<lparr>sent := butlast (sent s) @ [last (sent s) @ [(offset, position)]]\<rparr>)))
     else nap 100)"

text \<open>One event in the place where the program waits.\<close>

fun srv_step :: "senv \<Rightarrow> srv_ev \<Rightarrow> ('a server_scheme, unit) cm" where
  "srv_step e ev = bind_c (get_c (\<lambda>s. (srv_mode s, srv_interrupted s))) (\<lambda>(md, i). case md of
       Done _ \<Rightarrow> ret_c ()
     | Accepting \<Rightarrow> (case ev of Conn fd \<Rightarrow> srv_accept fd | Sig \<Rightarrow> stop_c (ExitWith 130) | Poll _ _ \<Rightarrow> ret_c ())
     | Serving \<Rightarrow> (case ev of Sig \<Rightarrow> mod_c (\<lambda>s. s\<lparr>srv_interrupted := True\<rparr>)
         | Poll cntr sr \<Rightarrow> if i then end_client e else srv_poll e cntr sr
         | Conn _ \<Rightarrow> ret_c ()))"

definition srv_main :: "senv \<Rightarrow> srv_ev list \<Rightarrow> ('a server_scheme, unit) cm" where
  "srv_main e evs = then_c (server_setup e) (for_c evs (srv_step e))"

section \<open>Halves\<close>

text \<open>
  During a connection the halves go out in turn, starting with the first, and each one while the writer is in the other.
\<close>

definition halves_ok :: "(nat \<times> int) list \<Rightarrow> bool" where
  "halves_ok xs \<longleftrightarrow> (\<forall>k < length xs. if even k then fst (xs ! k) = 0 \<and> snd (xs ! k) > 32768
     else fst (xs ! k) = 262144 \<and> snd (xs ! k) < 32768)"

definition srv_inv :: "'a server_scheme \<Rightarrow> bool" where
  "srv_inv s \<longleftrightarrow> (\<forall>xs \<in> set (sent s). halves_ok xs)
     \<and> (srv_mode s = Serving \<longrightarrow> sent s \<noteq> [] \<and> srv_limit s = (if even (length (last (sent s))) then 32768 else 0))"

lemma halves_snoc: "halves_ok (xs @ [x]) \<longleftrightarrow> halves_ok xs \<and>
    (if even (length xs) then fst x = 0 \<and> snd x > 32768 else fst x = 262144 \<and> snd x < 32768)"
proof -
  have "(xs @ [x]) ! k = xs ! k" if "k < length xs" for k using that by (simp add: nth_append)
  then show ?thesis unfolding halves_ok_def length_append_singleton All_less_Suc by (simp cong: conj_cong) blast
qed

lemma srv_inv_poll:
  assumes "srv_inv s" "srv_mode s = Serving" "half_ready (srv_limit s) p"
  shows "srv_inv (s\<lparr>srv_limit := (if srv_limit s > 0 then 0 else 32768),
    sent := butlast (sent s) @ [last (sent s) @ [(if srv_limit s > 0 then 0 else 262144, p)]]\<rparr>)"
proof -
  have o: "sent s \<noteq> []" "srv_limit s = (if even (length (last (sent s))) then 32768 else 0)" "halves_ok (last (sent s))"
    using assms(1,2) by (auto simp: srv_inv_def)
  have "halves_ok (last (sent s) @ [(if srv_limit s > 0 then 0 else 262144, p)])"
    using o assms(3) by (auto simp: halves_snoc half_ready_def)
  then show ?thesis using assms(1) o by (auto simp: srv_inv_def dest: in_set_butlastD)
qed

lemma srv_inv_idle: "srv_inv s \<Longrightarrow> srv_mode s' \<noteq> Serving \<Longrightarrow> sent s' = sent s \<Longrightarrow> srv_inv s'"
  by (simp add: srv_inv_def)

lemma end_client_view: "end_client e s = Inr (u, s') \<Longrightarrow> sent s' = sent s \<and> srv_mode s' \<noteq> Serving"
  by (auto simp: end_client_def srv_finish_def enter_reset_def cm_defs split: if_splits)

lemma srv_poll_inv:
  assumes "srv_poll e c sr s = Inr (u, s')" "srv_inv s" "srv_mode s = Serving"
  shows "srv_inv s'"
proof (cases "half_ready (srv_limit s) (of_u32 c)")
  case False
  then show ?thesis using assms by (auto simp: cm_defs srv_poll_def srv_inv_def Let_def)
next
  case ready: True
  show ?thesis
  proof (cases "sr < 0")
    case True
    then have "end_client e (s\<lparr>srv_limit := (if srv_limit s > 0 then 0 else 32 * 1024)\<rparr>) = Inr (u, s')"
      using assms(1) ready by (simp add: bind_c_def get_c_def then_c_def mod_c_def srv_poll_def Let_def)
    then show ?thesis using srv_inv_idle [OF assms(2)] end_client_view by fastforce
  next
    case False
    then show ?thesis using assms(1) ready srv_inv_poll [OF assms(2,3) ready] by (auto simp: cm_defs srv_poll_def Let_def)
  qed
qed

lemma srv_inv_step: "pres srv_inv (srv_step e ev)"
proof -
  have "srv_inv s'" if st: "srv_step e ev s = Inr (u, s')" and inv: "srv_inv s" for u and s s' :: "'a server_scheme"
  proof (cases "srv_mode s")
    case Accepting
    then show ?thesis using that
      by (cases ev) (auto simp: cm_defs srv_accept_def srv_fail_def srv_inv_def halves_ok_def split: if_splits)
  next
    case Serving
    show ?thesis
    proof (cases ev)
      case (Poll c sr)
      have "srv_interrupted s \<Longrightarrow> end_client e s = Inr (u, s')" "\<not> srv_interrupted s \<Longrightarrow> srv_poll e c sr s = Inr (u, s')"
        using st Serving Poll by (simp_all add: bind_c_def get_c_def)
      then show ?thesis using srv_inv_idle [OF inv] end_client_view srv_poll_inv [OF _ inv Serving] by (cases "srv_interrupted s") fastforce+
    qed (use that Serving in \<open>auto simp: cm_defs srv_inv_def\<close>)
  next
    case (Done r)
    then show ?thesis using that by (auto simp: cm_defs)
  qed
  then show ?thesis by (auto simp: pres_def)
qed

text \<open>
  C25. For every sequence of clients, counter values, results of \<open>send\<close> and signals: in every connection the halves of the
  buffer are sent strictly in turn, the first one first, and each only when the counter was just
  seen in the other half.
\<close>

theorem halves_in_turn:
  assumes "srv_main e evs s = Inr (u, s')" "sent s = []"
  shows "\<forall>xs \<in> set (sent s'). \<forall>k < length xs. if even k then fst (xs ! k) = 0 \<and> snd (xs ! k) > 32768
     else fst (xs ! k) = 262144 \<and> snd (xs ! k) < 32768"
proof -
  obtain v t where t: "server_setup e s = Inr (v, t)" "for_c evs (srv_step e) t = Inr (u, s')"
    using assms(1) by (auto simp: srv_main_def cm_inv)
  have "srv_inv t" using t(1) assms(2)
    by (auto simp: server_setup_def srv_fail_def enter_reset_def cm_defs srv_inv_def split: if_splits option.splits)
  then have "srv_inv s'" using presD [OF pres_for [OF srv_inv_step] t(2)] by blast
  then show ?thesis by (auto simp: srv_inv_def halves_ok_def)
qed

definition server0 :: server where
  "server0 = \<lparr>c_out = [], c_err = [], srv_interrupted = False, srv_mode = Done 1, rx_rst = 0xFF, rx_rate = 0, rx_addr = 0,
     srv_limit = 0, sent = [], naps = [], closed_fds = [], client = 0\<rparr>"

definition senv0 :: senv where
  "senv0 = \<lparr>se_mem = 3, se_cma = 4, se_ioctl = Some 0x1E000000, se_cfg_map = True, se_sts_map = True, se_sock = 5, se_bind = 0\<rparr>"

theorem halves_in_turn_witness:
  "\<exists>s'. srv_main senv0 [Conn 6, Poll 100 0, Poll 40000 0, Poll 50000 0, Poll 10 0, Sig, Poll 0 0] server0 = Inr ((), s')
     \<and> sent s' = [[(0, 40000), (262144, 10)]] \<and> (\<forall>xs \<in> set (sent s'). \<forall>k < length xs. if even k then fst (xs ! k) = 0 \<and> snd (xs ! k) > 32768
     else fst (xs ! k) = 262144 \<and> snd (xs ! k) < 32768)"
proof -
  let ?evs = "[Conn 6, Poll 100 0, Poll 40000 0, Poll 50000 0, Poll 10 0, Sig, Poll 0 0]"
  have "\<exists>s'. srv_main senv0 ?evs server0 = Inr ((), s') \<and> sent s' = [[(0, 40000), (262144, 10)]]"
    by (simp add: srv_main_def server_setup_def senv0_def server0_def enter_reset_def srv_accept_def srv_poll_def half_ready_def
        end_client_def srv_finish_def of_u32_def cm_defs Let_def)
  then obtain s' where r: "srv_main senv0 ?evs server0 = Inr ((), s')" "sent s' = [[(0, 40000), (262144, 10)]]" by blast
  have "sent server0 = []" by (simp add: server0_def)
  from halves_in_turn [OF r(1) this] r show ?thesis by blast
qed

text \<open>When the program ends by the signal, the FPGA modules are in reset.\<close>

lemma server_ends_in_reset: "srv_finish e s = Inr (u, s') \<Longrightarrow> rx_rst s' AND 3 = 0 \<and> srv_mode s' = Done 0"
  by (auto simp: srv_finish_def cm_defs and.assoc)

section \<open>What the client receives\<close>

interpretation srv: half_reader 32768 "\<lambda>f p. half_ready (if f then 32768 else 0) (int p)"
  by unfold_locales (auto simp: half_ready_def)

text \<open>
  A server whose \<open>send\<close> is done in time sends the stream: the half it sends is complete at the look and not overwritten before
  \<open>send\<close> has read it.
\<close>

lemma server_sends_stream:
  assumes "caught_up 32768 n L" "L \<le> T" "T \<le> E" "E < L + 32768" "read_during 32768 b T E ram"
    and "half_ready (if even n then 32768 else 0) (int (T mod 65536))"
  shows "map (\<lambda>i. ram i (half_off 32768 n + i)) [0..<262144] = map b [262144 * n..<262144 * n + 262144]"
proof -
  have "32768 * (n + 1) \<le> T" "E < 32768 * (n + 2)"
    using srv.poll(1) [unfolded words_32k, OF assms(1,2)] caught_up_next(2) [OF assms(1)] assms(2-4,6) by auto
  then show ?thesis by (intro half_bytes_32k [OF assms(5)]) simp_all
qed

end
