(* ===== verification/Rpn_Server.thy ===== *)
theory Rpn_Server
  imports Adc_Server
begin

text \<open>
  The second streaming server, \<^verbatim>\<open>projects/adc_test/rpn_server/adc-test-server.c\<close>: it copies the half to send into a buffer of its own with
  a loop of 64-byte blocks, and sends that.  The parts whose text is the same as in the first server (accepting a client, the reset sequences,
  the test for a complete half, the end of a connection) share its definitions.
\<close>

section \<open>State\<close>

text \<open>The bus registers it sets, the copy buffer, and the bytes each connection was sent.\<close>

record rpn_server = server +
  slcr_2 :: u32
  slcr_144 :: u32
  hp0_0 :: u32
  hp0_5 :: u32
  rpn_buf :: "nat \<Rightarrow> u8"
  rpn_sent :: "u8 list list"

record rpenv =
  rp_se :: senv
  rp_maps :: bool

section \<open>Copying\<close>

text \<open>
  The assembly loop: copy 64 bytes, count down by 64, and go on while the count is positive.  The FPGA goes on writing while it runs:
  \<open>src i\<close> is the memory at the moment at which the byte stored at \<open>i\<close> is read.
\<close>

definition block :: "(nat \<Rightarrow> nat \<Rightarrow> u8) \<Rightarrow> nat \<Rightarrow> nat \<Rightarrow> (nat \<Rightarrow> u8) \<Rightarrow> nat \<Rightarrow> u8" where
  "block src so d dst = (\<lambda>i. if d \<le> i \<and> i < d + 64 then src i (so + (i - d)) else dst i)"

function neoncopy :: "(nat \<Rightarrow> nat \<Rightarrow> u8) \<Rightarrow> nat \<Rightarrow> nat \<Rightarrow> int \<Rightarrow> (nat \<Rightarrow> u8) \<Rightarrow> nat \<Rightarrow> u8" where
  "neoncopy src so d cnt dst = (let dst = block src so d dst in
     if 0 < cnt - 64 then neoncopy src (so + 64) (d + 64) (cnt - 64) dst else dst)"
  by pat_completeness auto
termination
  by (relation "measure (\<lambda>(src, so, d, cnt, dst). nat cnt)") auto

declare neoncopy.simps [simp del]

section \<open>The server\<close>

definition rpn_setup :: "rpenv \<Rightarrow> ('a rpn_server_scheme, unit) cm" where
  "rpn_setup e =
     (if se_mem (rp_se e) < 0 then srv_fail ''open''
      else if \<not> rp_maps e then stop_c OutOfBounds
      else then_c (mod_c (\<lambda>s. s\<lparr>slcr_2 := 0xDF0D, slcr_144 := 0, hp0_0 := hp0_0 s AND NOT 1, hp0_5 := hp0_5 s AND NOT 1\<rparr>))
        (if se_sock (rp_se e) < 0 then srv_fail ''socket''
         else if se_bind (rp_se e) < 0 then srv_fail ''bind''
         else enter_reset))"

definition rpn_accept :: "int \<Rightarrow> ('a rpn_server_scheme, unit) cm" where
  "rpn_accept fd = then_c (srv_accept fd) (if_c (0 \<le> fd) (mod_c (\<lambda>s. s\<lparr>rpn_sent := rpn_sent s @ [[]]\<rparr>)))"

text \<open>
  One pass: the position at its look, the memory of the FPGA during the copy after it, and the result of \<open>send\<close>, which is the number of
  bytes that went out.
\<close>

datatype rpn_ev = RConn int | RLook u32 "nat \<Rightarrow> nat \<Rightarrow> u8" int | RInt

definition rpn_poll :: "rpenv \<Rightarrow> u32 \<Rightarrow> (nat \<Rightarrow> nat \<Rightarrow> u8) \<Rightarrow> int \<Rightarrow> ('a rpn_server_scheme, unit) cm" where
  "rpn_poll e w ram sr = bind_c (get_c srv_limit) (\<lambda>lm. let position = of_u32 w in
     if half_ready lm position
     then (let offset = (if lm > 0 then 0 else 256 * 1024) in
       then_c (mod_c (\<lambda>s. s\<lparr>srv_limit := (if lm > 0 then 0 else 32 * 1024)\<rparr>))
       (then_c (mod_c (\<lambda>s. s\<lparr>rpn_buf := neoncopy ram offset 0 (256 * 1024) (rpn_buf s)\<rparr>))
         (if sr < 0 then end_client (rp_se e)
          else mod_c (\<lambda>s. s\<lparr>rpn_sent := butlast (rpn_sent s) @ [last (rpn_sent s) @ map (rpn_buf s) [0..<nat sr]]\<rparr>))))
     else nap 100)"

fun rpn_step :: "rpenv \<Rightarrow> rpn_ev \<Rightarrow> ('a rpn_server_scheme, unit) cm" where
  "rpn_step e ev = bind_c (get_c (\<lambda>s. (srv_mode s, srv_interrupted s))) (\<lambda>(md, i). case md of
       Done _ \<Rightarrow> ret_c ()
     | Accepting \<Rightarrow> (case ev of RConn fd \<Rightarrow> rpn_accept fd | RInt \<Rightarrow> stop_c (ExitWith 130) | RLook _ _ _ \<Rightarrow> ret_c ())
     | Serving \<Rightarrow> (case ev of RInt \<Rightarrow> mod_c (\<lambda>s. s\<lparr>srv_interrupted := True\<rparr>)
         | RLook w ram sr \<Rightarrow> if i then end_client (rp_se e) else rpn_poll e w ram sr
         | RConn _ \<Rightarrow> ret_c ()))"

definition rpn_main :: "rpenv \<Rightarrow> rpn_ev list \<Rightarrow> ('a rpn_server_scheme, unit) cm" where
  "rpn_main e evs = then_c (rpn_setup e) (for_c evs (rpn_step e))"

section \<open>The copy\<close>

text \<open>For a positive multiple of 64 the loop copies that many bytes and nothing else.\<close>

lemma neoncopy_blocks:
  "neoncopy src so d (64 * int (Suc n)) dst = (\<lambda>i. if d \<le> i \<and> i < d + 64 * Suc n then src i (so + (i - d)) else dst i)"
proof (induction n arbitrary: so d dst)
  case 0
  show ?case by (subst neoncopy.simps) (simp add: block_def)
next
  case (Suc n)
  have "neoncopy src so d (64 * int (Suc (Suc n))) dst = neoncopy src (so + 64) (d + 64) (64 * int (Suc n)) (block src so d dst)"
    by (subst neoncopy.simps) (simp add: Let_def algebra_simps)
  then show ?case unfolding Suc.IH by (auto simp: block_def fun_eq_iff)
qed

lemma neoncopy_half: "map (neoncopy ram off 0 262144 dst) [0..<262144] = map (\<lambda>i. ram i (off + i)) [0..<262144]"
proof -
  have "neoncopy ram off 0 262144 dst = (\<lambda>i. if i < 262144 then ram i (off + i) else dst i)"
    using neoncopy_blocks [of ram off 0 4095 dst] by (simp only: Nat.diff_0) simp
  then show ?thesis by (intro nth_equalityI) simp_all
qed

text \<open>Any other count is rounded up to whole blocks, and to one block when it is not positive.\<close>

lemma neoncopy_at_least_one: "cnt \<le> 64 \<Longrightarrow> neoncopy src so d cnt dst = block src so d dst"
  by (subst neoncopy.simps) (simp add: Let_def)

section \<open>What the client receives\<close>

definition rpn_at :: "(nat \<Rightarrow> u8) \<Rightarrow> nat \<Rightarrow> u8 list list \<Rightarrow> 'a rpn_server_scheme \<Rightarrow> bool" where
  "rpn_at b n before s \<longleftrightarrow> srv_mode s = Serving \<and> \<not> srv_interrupted s \<and> srv_limit s = (if even n then 32768 else 0)
     \<and> rpn_sent s = before @ [map b [0..<262144 * n]]"

lemma rpn_look_run:
  assumes "rpn_at b n before s" "caught_up 32768 n L" "L \<le> T" "T \<le> E" "E < L + 32768" "read_during 32768 b T E ram" "sr = 262144"
  shows "\<exists>s'. rpn_step e (RLook (word_of_nat (T mod 65536)) ram sr) s = Inr ((), s')
    \<and> rpn_at b (if half_ready (if even n then 32768 else 0) (int (T mod 65536)) then Suc n else n) before s'"
proof -
  have w: "of_u32 (word_of_nat (T mod 65536)) = int (T mod 65536)"
    using of_u32_to_u32 [of "int (T mod 65536)"] by (simp add: to_u32_def in_s32_def)
  show ?thesis
  proof (cases "half_ready (if even n then 32768 else 0) (int (T mod 65536))")
    case True
    note h = server_sends_stream [OF assms(2-6) True]
    have app: "map b [0..<262144 * n] @ map b [262144 * n..<262144 * n + 262144] = map b [0..<262144 * Suc n]"
      using upt_add_eq_append [of 0 "262144 * n" 262144] by (simp add: add.commute)
    show ?thesis using True assms(1,7) w h app
      by (cases "even n") (auto simp: rpn_at_def rpn_poll_def cm_defs Let_def neoncopy_half simp del: upt_rec_numeral)
  next
    case False
    then show ?thesis using assms(1) w by (simp add: rpn_at_def rpn_poll_def cm_defs Let_def)
  qed
qed

text \<open>A run over passes, each with the words written at its look and at the end of its copy.\<close>

fun looks_ok :: "(nat \<Rightarrow> u8) \<Rightarrow> (nat \<times> nat) list \<Rightarrow> rpn_ev list \<Rightarrow> bool" where
  "looks_ok b [] [] = True"
| "looks_ok b ((T, E) # ps) (RLook w ram sr # evs) = (w = word_of_nat (T mod 65536) \<and> read_during 32768 b T E ram \<and> sr = 262144 \<and> looks_ok b ps evs)"
| "looks_ok b _ _ = False"

abbreviation rpn_halves :: "nat \<Rightarrow> nat list \<Rightarrow> nat" where
  "rpn_halves \<equiv> halves_read 32768 (\<lambda>f p. half_ready (if f then 32768 else 0) (int p))"

lemma rpn_looks_run:
  assumes "looks_ok b ps evs" "passes_ok 32768 L M ps" "L \<le> M" "caught_up 32768 n L" "rpn_at b n before s"
  shows "\<exists>s'. for_c evs (rpn_step e) s = Inr ((), s') \<and> rpn_at b (rpn_halves n (map fst ps)) before s'"
  using assms
proof (induction b ps evs arbitrary: s n L M rule: looks_ok.induct)
  case (1 b)
  then show ?case by (simp add: cm_defs)
next
  case (2 b T E ps w ram sr evs)
  let ?n' = "if half_ready (if even n then 32768 else 0) (int (T mod 65536)) then Suc n else n"
  have h: "w = word_of_nat (T mod 65536)" "read_during 32768 b T E ram" "sr = 262144" "looks_ok b ps evs" "L \<le> T" "T \<le> E" "E < L + 32768"
    "passes_ok 32768 T E ps" using "2.prems" by simp_all
  obtain s1 where s1: "rpn_step e (RLook w ram sr) s = Inr ((), s1)" "rpn_at b ?n' before s1"
    using rpn_look_run [OF "2.prems"(5,4) h(5-7,2,3), of e] h(1) by auto
  have "caught_up 32768 ?n' T" using srv.poll(3) [OF "2.prems"(4) h(5)] h(6,7) by simp
  from "2.IH" [OF h(4,8,6) this s1(2)] show ?case using s1(1) by (simp add: then_c_def bind_c_def)
qed simp_all

text \<open>
  C14. A client that connects to the server on the second board receives exactly the
  stream of the converters, from its first byte, without a gap and without a repetition, although the FPGA goes on writing while the program copies:
  as many halves of 256 kB as the looks found complete.  The condition is that from each look at the position to the end of
  the next pass's copy fewer than 32768 words are written, and that \<open>send\<close> takes each half whole.
\<close>

theorem rpn_sends_stream:
  assumes "passes_ok 32768 0 0 ps" "looks_ok b ps evs" "0 \<le> fd" "srv_mode s = Accepting" "\<not> srv_interrupted s"
  shows "\<exists>s'. for_c (RConn fd # evs) (rpn_step e) s = Inr ((), s')
    \<and> rpn_sent s' = rpn_sent s @ [map b [0..<262144 * rpn_halves 0 (map fst ps)]]"
proof -
  obtain s1 where s1: "rpn_step e (RConn fd) s = Inr ((), s1)" "rpn_at b 0 (rpn_sent s) s1"
    using assms(3-5) by (simp add: rpn_accept_def srv_accept_def rpn_at_def cm_defs)
  have "caught_up 32768 0 0" by (simp add: caught_up_def)
  from rpn_looks_run [OF assms(2,1) order_refl this s1(2)] s1(1) show ?thesis
    by (auto simp: then_c_def bind_c_def rpn_at_def)
qed

definition rpenv0 :: rpenv where
  "rpenv0 = \<lparr>rp_se = senv0, rp_maps = True\<rparr>"

definition rpn_server0 :: rpn_server where
  "rpn_server0 = \<lparr>c_out = [], c_err = [], srv_interrupted = False, srv_mode = Accepting, rx_rst = 0xFC, rx_rate = 4, rx_addr = 0,
     srv_limit = 0, sent = [], naps = [], closed_fds = [], client = 0, slcr_2 = 0xDF0D, slcr_144 = 0, hp0_0 = 0, hp0_5 = 0, rpn_buf = (\<lambda>_. 0), rpn_sent = []\<rparr>"

text \<open>Three passes: the second copies the first half while the FPGA writes on from word 40000 to word 50000, the third the second half.\<close>

theorem rpn_sends_stream_witness:
  "\<exists>s'. for_c (RConn 6 # map (\<lambda>w. RLook w (\<lambda>_. word_of_nat) 262144) [30000, 40000, 4464]) (rpn_step rpenv0) rpn_server0 = Inr ((), s')
     \<and> rpn_sent s' = [map word_of_nat [0..<524288]]"
proof -
  let ?ps = "[(30000, 30000), (40000, 50000), (70000, 71000)]" and ?evs = "map (\<lambda>w. RLook w (\<lambda>_. word_of_nat) 262144) [30000, 40000, 4464]"
  have "passes_ok 32768 0 0 ?ps" by simp
  moreover have "looks_ok word_of_nat ?ps ?evs" by (simp add: counting_during)
  moreover have "srv_mode rpn_server0 = Accepting" "\<not> srv_interrupted rpn_server0" "rpn_sent rpn_server0 = []" by (simp_all add: rpn_server0_def)
  moreover have "rpn_halves 0 (map fst ?ps) = 2" by (simp add: half_ready_def)
  ultimately show ?thesis using rpn_sends_stream [of ?ps word_of_nat ?evs 6 rpn_server0 rpenv0] by (simp del: upt_rec_numeral)
qed

end
