(* ===== verification/Adc_Clients.thy ===== *)
theory Adc_Clients
  imports C_String
begin

text \<open>
  Programs on the other side of the streaming servers: \<^verbatim>\<open>projects/adc_test/client/adc-test-client_lnx.c\<close>, which prints what it
  receives as fractions of the full scale, and \<^verbatim>\<open>projects/adc_test/rpn_client/test-signal-continuity.c\<close>, which looks for jumps in the
  signal.
\<close>

section \<open>State\<close>

text \<open>The receive buffer; a byte nothing was stored in yet has no value.\<close>

record client_st = cio +
  cl_buf :: "nat \<Rightarrow> u8 option"

record clenv =
  cl_sock :: int
  cl_host :: bool
  cl_conn :: int

text \<open>An answer of \<open>recv\<close>: its result and the bytes it stored.\<close>

type_synonym answer = "int \<times> (nat \<Rightarrow> u8)"

definition recv_c :: "answer \<Rightarrow> ('a client_st_scheme, unit) cm" where
  "recv_c r = mod_c (\<lambda>s. s\<lparr>cl_buf := (\<lambda>i. if int i < fst r then Some (snd r i) else cl_buf s i)\<rparr>)"

definition byte_c :: "nat \<Rightarrow> ('a client_st_scheme, u8) cm" where
  "byte_c i = (\<lambda>s. case cl_buf s i of None \<Rightarrow> Inl Uninit | Some b \<Rightarrow> Inr (b, s))"

section \<open>The printing client\<close>

definition client_error :: "string \<Rightarrow> ('a client_st_scheme, 'b) cm" where
  "client_error msg = then_c (eprintf msg) (stop_c (ExitWith 0))"

definition buf_int :: "nat \<Rightarrow> ('a client_st_scheme, int) cm" where
  "buf_int i = bind_c (byte_c (4 * i)) (\<lambda>a. bind_c (byte_c (4 * i + 1)) (\<lambda>b. bind_c (byte_c (4 * i + 2)) (\<lambda>c. bind_c (byte_c (4 * i + 3)) (\<lambda>d.
     ret_c (wrap32 (uint a + 256 * uint b + 65536 * uint c + 16777216 * uint d))))))"

text \<open>\<open>printf("%f\n", (float)buffer[i]/2147483647.0)\<close>.\<close>

definition print_value :: "nat \<Rightarrow> ('a client_st_scheme, unit) cm" where
  "print_value i = bind_c (buf_int i) (\<lambda>v. printf (fmt_f 6 (f64 (f32 (of_int v) / 2147483647)) @ [CHR 0x0A]))"

fun client_loop :: "answer list \<Rightarrow> ('a client_st_scheme, unit) cm" where
  "client_loop [] = stop_c Blocked"
| "client_loop (r # rs) = then_c (recv_c r) (then_c (for_c [0..<nat (fst r)] print_value)
     (if fst r = 0 then ret_c () else client_loop rs))"

definition client_main :: "clenv \<Rightarrow> string list \<Rightarrow> answer list \<Rightarrow> ('a client_st_scheme, int) cm" where
  "client_main e argv rs =
     (if length argv < 3 then (if argv = [] then stop_c NullDeref else client_error (''usage '' @ argv ! 0 @ '' hostname port'' @ [CHR 0x0A]))
      else if cl_sock e < 0 then client_error ''ERROR opening socket''
      else if \<not> cl_host e then client_error (''ERROR, no such host'' @ [CHR 0x0A])
      else if cl_conn e < 0 then then_c (eprintf ''connect'') (ret_c 1)
      else then_c (client_loop rs) (ret_c 0))"

text \<open>
  The printing client takes the number of bytes for the number of values: on the first answer that brings
  any data it prints four times as many values as it received, and reads the part of its buffer
  nothing was stored in.  This holds for every answer up to the size it asks for and after any number of failed calls.
\<close>

lemma client_reads_past_received:
  assumes "3 \<le> length argv" "0 \<le> cl_sock e" "cl_host e" "0 \<le> cl_conn e" "\<forall>i. cl_buf s i = None"
    and "\<forall>r \<in> set fails. fst r < 0" "0 < n"
  shows "client_main e argv (fails @ (n, b) # rs) s = Inl Uninit"
proof -
  have past: "for_c [k..<m] print_value t = Inl Uninit" if "k < m" "\<forall>i \<ge> m. cl_buf t i = None" for k m and t :: "'a client_st_scheme"
    using that
  proof (induction "m - k" arbitrary: k t)
    case (Suc j)
    have up: "[k..<m] = k # [Suc k..<m]" using Suc.prems(1) by (simp add: upt_rec)
    show ?case
    proof (cases "print_value k t")
      case (Inl x)
      then have "x = Uninit" by (auto simp: print_value_def buf_int_def byte_c_def cm_defs split: option.splits)
      then show ?thesis using Inl by (simp add: up)
    next
      case (Inr r)
      have "4 * k + 3 < m"
      proof (rule ccontr)
        assume "\<not> 4 * k + 3 < m"
        then have "cl_buf t (4 * k + 3) = None" using Suc.prems(2) by simp
        then show False using Inr by (auto simp: print_value_def buf_int_def byte_c_def cm_defs split: option.splits)
      qed
      moreover have "cl_buf (snd r) = cl_buf t"
        using Inr by (auto simp: print_value_def buf_int_def byte_c_def cm_defs split: option.splits)
      moreover have "fst r = ()" by simp
      ultimately show ?thesis using Inr Suc.hyps(1) [of "Suc k" "snd r"] Suc.hyps(2) Suc.prems by (cases r) (simp add: up)
    qed
  qed simp
  have "client_loop (fails @ (n, b) # rs) s = Inl Uninit" using assms(5,6)
  proof (induction fails arbitrary: s)
    case Nil
    let ?t = "s\<lparr>cl_buf := (\<lambda>i. if int i < n then Some (b i) else cl_buf s i)\<rparr>"
    have "for_c [0..<nat n] print_value ?t = Inl Uninit" using assms(7) Nil.prems by (intro past) auto
    then show ?case using assms(7) by (simp add: recv_c_def then_c_def mod_c_def cong: if_cong)
  next
    case (Cons r fails)
    then show ?case by (simp add: recv_c_def then_c_def mod_c_def)
  qed
  then show ?thesis using assms(1-4) by (simp add: client_main_def then_c_def)
qed

section \<open>The continuity test\<close>

text \<open>The number of samples of a block.\<close>

definition CONT_N :: nat where "CONT_N = 4194304"

definition sample_c :: "nat \<Rightarrow> ('a client_st_scheme, int) cm" where
  "sample_c i = bind_c (byte_c (2 * i)) (\<lambda>a. bind_c (byte_c (2 * i + 1)) (\<lambda>b. ret_c (wrap16 (uint a + 256 * uint b))))"

text \<open>\<open>abs\<close> gives an \<open>int\<close>, which is stored in the 16-bit \<open>d\<close>.\<close>

definition cont_diff :: "int \<Rightarrow> int \<Rightarrow> int" where
  "cont_diff x y = wrap16 \<bar>x - y\<bar>"

fun cont_scan :: "nat list \<Rightarrow> int \<Rightarrow> ('a client_st_scheme, int) cm" where
  "cont_scan [] dmax = ret_c dmax"
| "cont_scan (i # is) dmax = bind_c (sample_c i) (\<lambda>x. bind_c (sample_c (i - 1)) (\<lambda>y.
     let d = cont_diff x y in cont_scan is (if dmax < d then d else dmax)))"

text \<open>One pass of the endless loop; the result of \<open>recv\<close> is not looked at.\<close>

definition cont_pass :: "answer \<Rightarrow> ('a client_st_scheme, unit) cm" where
  "cont_pass r = then_c (recv_c r) (bind_c (cont_scan [1..<CONT_N] 0) (\<lambda>dmax.
     if_c (dmax > 10) (printf (fmt_d dmax @ [CHR 0x0A]))))"

definition cont_main :: "clenv \<Rightarrow> answer list \<Rightarrow> ('a client_st_scheme, int) cm" where
  "cont_main e rs =
     (if cl_sock e < 0 then then_c (eprintf ''socket'') (ret_c 1)
      else if cl_conn e < 0 then then_c (eprintf ''connect'') (ret_c 1)
      else then_c (for_c rs cont_pass) (stop_c Blocked))"

text \<open>The samples in a block of bytes, and the jumps between neighbours.\<close>

definition sample_of :: "(nat \<Rightarrow> u8) \<Rightarrow> nat \<Rightarrow> int" where
  "sample_of b i = wrap16 (uint (b (2 * i)) + 256 * uint (b (2 * i + 1)))"

definition jumps :: "(nat \<Rightarrow> u8) \<Rightarrow> int set" where
  "jumps b = (\<lambda>i. \<bar>sample_of b i - sample_of b (i - 1)\<bar>) ` {1..<CONT_N}"

text \<open>What a pass over a full block prints.\<close>

definition cont_line :: "(nat \<Rightarrow> u8) \<Rightarrow> string" where
  "cont_line b = (let m = Max (insert 0 {j \<in> jumps b. j < 32768}) in if m > 10 then fmt_d m @ [CHR 0x0A] else [])"

lemma wrap16_bounds: "- 32768 \<le> wrap16 x" "wrap16 x < 32768"
  using signed_take_bit_int_greater_eq_minus_exp [of 15 x] signed_take_bit_int_less_exp [of 15 x] by (simp_all add: wrap16_def)

text \<open>A jump that does not fit wraps to a negative number.\<close>

lemma cont_diff_max: "0 \<le> m \<Longrightarrow> (if m < cont_diff (sample_of b i) (sample_of b k) then cont_diff (sample_of b i) (sample_of b k) else m)
    = (let j = \<bar>sample_of b i - sample_of b k\<bar> in if j < 32768 then max m j else m)"
proof -
  let ?j = "\<bar>sample_of b i - sample_of b k\<bar>"
  have j: "0 \<le> ?j" "?j < 65536" using wrap16_bounds by (simp_all add: sample_of_def abs_less_iff) (smt (verit) wrap16_bounds)+
  show "0 \<le> m \<Longrightarrow> ?thesis"
  proof (cases "?j < 32768")
    case True
    then have "wrap16 ?j = ?j" by (simp add: wrap16_def signed_take_bit_int_eq_self)
    then show ?thesis using True by (simp add: cont_diff_def Let_def max_def)
  next
    case False
    have "wrap16 ?j = wrap16 (?j - 65536)" using signed_take_bit_add [of 15 "?j - 65536" 65536]
      by (simp add: wrap16_def signed_take_bit_eq_iff_take_bit_eq take_bit_eq_mod)
    also have "\<dots> = ?j - 65536" using False j by (simp add: wrap16_def signed_take_bit_int_eq_self)
    finally show "0 \<le> m \<Longrightarrow> ?thesis" using False j by (simp add: cont_diff_def Let_def)
  qed
qed

lemma sample_run: "\<forall>k < 2 * CONT_N. cl_buf s k = Some (b k) \<Longrightarrow> i < CONT_N \<Longrightarrow> sample_c i s = Inr (sample_of b i, s)"
  by (simp add: sample_c_def byte_c_def sample_of_def bind_c_def ret_c_def)

lemma cont_scan_run:
  assumes "\<forall>i \<in> set is. 1 \<le> i \<and> i < CONT_N" "\<forall>k < 2 * CONT_N. cl_buf s k = Some (b k)" "finite A" "A \<noteq> {}" "0 \<le> Max A"
  shows "cont_scan is (Max A) s = Inr (Max (A \<union> {j \<in> (\<lambda>i. \<bar>sample_of b i - sample_of b (i - 1)\<bar>) ` set is. j < 32768}), s)"
  using assms
proof (induction "is" arbitrary: A)
  case (Cons i "is")
  let ?j = "\<bar>sample_of b i - sample_of b (i - 1)\<bar>"
  let ?A = "if ?j < 32768 then insert ?j A else A"
  have s: "sample_c i s = Inr (sample_of b i, s)" "sample_c (i - 1) s = Inr (sample_of b (i - 1), s)"
    using Cons.prems(1) by (auto intro!: sample_run Cons.prems(2))
  have m: "(if Max A < cont_diff (sample_of b i) (sample_of b (i - 1)) then cont_diff (sample_of b i) (sample_of b (i - 1)) else Max A) = Max ?A"
    unfolding cont_diff_max [OF Cons.prems(5)] using Cons.prems(3,4) by (simp add: Let_def max.commute)
  have A: "finite ?A" "?A \<noteq> {}" "0 \<le> Max ?A" using Cons.prems(3-5) by (auto simp: max_def)
  have "?A \<union> {j \<in> (\<lambda>i. \<bar>sample_of b i - sample_of b (i - 1)\<bar>) ` set is. j < 32768}
      = A \<union> {j \<in> (\<lambda>i. \<bar>sample_of b i - sample_of b (i - 1)\<bar>) ` set (i # is). j < 32768}" by auto
  moreover have "cont_scan (i # is) (Max A) s = cont_scan is (Max ?A) s" by (simp only: cont_scan.simps bind_c_def s prod.case sum.case Let_def m)
  ultimately show ?case using Cons.IH [OF _ Cons.prems(2) A] Cons.prems(1) by simp
qed (simp add: ret_c_def)

text \<open>
  For every sequence of full blocks the continuity test prints, for each block, the largest of the jumps
  between neighbouring samples of the block that are below 32768, if that is above 10, and nothing otherwise:
  a jump of half the range or more, the very fault the test looks for, is not seen.
\<close>

lemma continuity_misses_jumps:
  "\<exists>s'. for_c (map (\<lambda>b. (2 * int CONT_N, b)) bs) cont_pass s = Inr ((), s') \<and> c_out s' = c_out s @ concat (map cont_line bs)"
proof (induction bs arbitrary: s)
  case (Cons b bs)
  let ?t = "s\<lparr>cl_buf := (\<lambda>i. if int i < 2 * int CONT_N then Some (b i) else cl_buf s i)\<rparr>"
  have one: "Max {0 :: int} = 0" by simp
  have "cont_scan [1..<CONT_N] (Max {0}) ?t = Inr (Max ({0} \<union> {j \<in> (\<lambda>i. \<bar>sample_of b i - sample_of b (i - 1)\<bar>) ` set [1..<CONT_N]. j < 32768}), ?t)"
    by (rule cont_scan_run) auto
  then have scan: "cont_scan [1..<CONT_N] 0 ?t = Inr (Max (insert 0 {j \<in> jumps b. j < 32768}), ?t)"
    unfolding one by (simp add: jumps_def)
  have "\<exists>t'. cont_pass (2 * int CONT_N, b) s = Inr ((), t') \<and> c_out t' = c_out s @ cont_line b"
    using scan by (simp add: cont_pass_def recv_c_def then_c_def mod_c_def bind_c_def cont_line_def Let_def if_c_def printf_def ret_c_def cong: if_cong)
  then show ?case using Cons.IH by fastforce
qed simp

section \<open>The third client\<close>

text \<open>
  \<^verbatim>\<open>projects/adc_test/rpn_client/adc-test-client_lnx.c\<close> prints its buffer as one string after every \<open>read\<close>: the bytes up to the first
  that is zero, at most the 256 kB there are.
\<close>

definition STR_BUF :: nat where "STR_BUF = 256 * 1024"

fun buf_string :: "nat \<Rightarrow> nat \<Rightarrow> ('a client_st_scheme, string) cm" where
  "buf_string 0 i = stop_c OutOfBounds"
| "buf_string (Suc n) i = bind_c (byte_c i) (\<lambda>b. if b = 0 then ret_c []
     else bind_c (buf_string n (Suc i)) (\<lambda>t. ret_c (char_of (unat b) # t)))"

definition str_pass :: "answer \<Rightarrow> ('a client_st_scheme, unit) cm" where
  "str_pass r = then_c (recv_c r) (bind_c (buf_string STR_BUF 0) (\<lambda>t. printf (t @ [CHR 0x0A])))"

definition str_client_main :: "clenv \<Rightarrow> string list \<Rightarrow> answer list \<Rightarrow> ('a client_st_scheme, int) cm" where
  "str_client_main e argv rs =
     (if length argv < 3 then (if argv = [] then stop_c NullDeref else client_error (''usage '' @ argv ! 0 @ '' hostname port'' @ [CHR 0x0A]))
      else if cl_sock e < 0 then client_error ''ERROR opening socket''
      else if \<not> cl_host e then client_error (''ERROR, no such host'' @ [CHR 0x0A])
      else if cl_conn e < 0 then then_c (eprintf ''connect'') (ret_c 1)
      else then_c (for_c rs str_pass) (stop_c Blocked))"

lemma buf_string_run:
  "\<forall>j < k. cl_buf s (i + j) = Some (b (i + j)) \<and> b (i + j) \<noteq> 0 \<Longrightarrow> cl_buf s (i + k) = Some 0 \<Longrightarrow> k < n \<Longrightarrow>
   buf_string n i s = Inr (map (\<lambda>j. char_of (unat (b j))) [i..<i + k], s)"
proof (induction k arbitrary: n i)
  case 0
  then show ?case by (cases n) (simp_all add: byte_c_def bind_c_def ret_c_def)
next
  case (Suc k)
  then obtain m where n: "n = Suc m" by (cases n) auto
  have "buf_string m (Suc i) s = Inr (map (\<lambda>j. char_of (unat (b j))) [Suc i..<Suc i + k], s)"
    using Suc.prems n by (intro Suc.IH) (auto dest: spec [of _ "Suc _"])
  moreover have "cl_buf s i = Some (b i)" "b i \<noteq> 0" using Suc.prems(1) by (auto dest: spec [of _ 0])
  ultimately show ?case by (simp add: n byte_c_def bind_c_def ret_c_def upt_rec [of i])
qed

text \<open>A whole block of samples whose first zero byte is at \<open>k\<close>: the client prints the bytes before it and nothing of the rest.\<close>

lemma str_pass_stops_at_zero:
  assumes "k < STR_BUF" "\<forall>j < k. b j \<noteq> 0" "b k = 0"
  shows "\<exists>s'. str_pass (int STR_BUF, b) s = Inr ((), s') \<and> c_out s' = c_out s @ map (\<lambda>j. char_of (unat (b j))) [0..<k] @ [CHR 0x0A]"
proof -
  let ?t = "s\<lparr>cl_buf := (\<lambda>i. if i < STR_BUF then Some (b i) else cl_buf s i)\<rparr>"
  have "buf_string STR_BUF 0 ?t = Inr (map (\<lambda>j. char_of (unat (b j))) [0..<0 + k], ?t)"
    using assms by (intro buf_string_run) simp_all
  then show ?thesis by (simp add: str_pass_def recv_c_def then_c_def mod_c_def bind_c_def printf_def cong: if_cong)
qed

text \<open>Without a zero byte in the block it reads past its buffer.\<close>

lemma buf_string_past: "\<forall>j < n. cl_buf s (i + j) = Some (b (i + j)) \<and> b (i + j) \<noteq> 0 \<Longrightarrow> buf_string n i s = Inl OutOfBounds"
proof (induction n arbitrary: i)
  case (Suc n)
  have "buf_string n (Suc i) s = Inl OutOfBounds" using Suc.prems by (intro Suc.IH) (auto dest: spec [of _ "Suc _"])
  moreover have "cl_buf s i = Some (b i)" "b i \<noteq> 0" using Suc.prems by (auto dest: spec [of _ 0])
  ultimately show ?case by (simp add: byte_c_def bind_c_def)
qed (simp add: stop_c_def)

section \<open>The Windows clients\<close>

text \<open>
  \<^verbatim>\<open>adc-test-client_win.c\<close>, in two copies that differ in the address: they receive for ever and do nothing with the data.  A \<open>SOCKET\<close> is
  unsigned, so the test of \<open>socket\<close> never holds.
\<close>

definition win_main :: "clenv \<Rightarrow> answer list \<Rightarrow> ('a client_st_scheme, int) cm" where
  "win_main e rs = (if cl_conn e < 0 then then_c (eprintf ''connect'') (ret_c 1) else then_c (for_c rs recv_c) (stop_c Blocked))"

lemma win_silent: "\<exists>s'. for_c rs recv_c s = Inr ((), s') \<and> c_out s' = c_out s"
proof (induction rs arbitrary: s)
  case (Cons r rs)
  let ?t = "s\<lparr>cl_buf := (\<lambda>i. if int i < fst r then Some (snd r i) else cl_buf s i)\<rparr>"
  from Cons.IH [of ?t] show ?case by (simp add: recv_c_def mod_c_def)
qed simp

lemma win_never_returns: "0 \<le> cl_conn e \<Longrightarrow> win_main e rs s = Inl Blocked"
  using win_silent [of rs s] by (auto simp: win_main_def then_c_def stop_c_def)

end
