(* ===== verification/Byte_Mem.thy ===== *)
theory Byte_Mem
  imports Lago_Prelude
begin

text \<open>
  Registers and buffers as bytes, for the programs that access one area at several widths: a store
  of 1, 2 or 4 bytes, least significant first, and the value the same bytes hold.
\<close>

definition byte_of :: "nat \<Rightarrow> nat \<Rightarrow> u8" where
  "byte_of k v = word_of_nat (v div 256 ^ k)"

definition store16 :: "nat \<Rightarrow> u16 \<Rightarrow> (nat \<Rightarrow> u8) \<Rightarrow> nat \<Rightarrow> u8" where
  "store16 off v m = m(off := byte_of 0 (unat v), off + 1 := byte_of 1 (unat v))"

definition store32 :: "nat \<Rightarrow> u32 \<Rightarrow> (nat \<Rightarrow> u8) \<Rightarrow> nat \<Rightarrow> u8" where
  "store32 off v m = m(off := byte_of 0 (unat v), off + 1 := byte_of 1 (unat v),
     off + 2 := byte_of 2 (unat v), off + 3 := byte_of 3 (unat v))"

definition get16 :: "(nat \<Rightarrow> u8) \<Rightarrow> nat \<Rightarrow> nat" where
  "get16 m off = unat (m off) + 256 * unat (m (off + 1))"

definition get32 :: "(nat \<Rightarrow> u8) \<Rightarrow> nat \<Rightarrow> nat" where
  "get32 m off = unat (m off) + 256 * unat (m (off + 1)) + 65536 * unat (m (off + 2)) + 16777216 * unat (m (off + 3))"

lemma unat_byte_of: "unat (byte_of k v) = v div 256 ^ k mod 256"
  by (simp add: byte_of_def unat_of_nat)

lemma u32_lt: "unat (w :: u32) < 4294967296"
proof -
  have "unat w < 2 ^ LENGTH(32)" by (rule unsigned_less)
  then show ?thesis by simp
qed

lemma bytes_join: "v mod 256 + 256 * (v div 256 mod 256) + 65536 * (v div 65536 mod 256) + 16777216 * (v div 16777216 mod 256) = v mod 4294967296"
  for v :: nat
proof -
  have d: "v div 65536 = v div 256 div 256" "v div 16777216 = v div 256 div 256 div 256" by (simp_all add: div_mult2_eq [symmetric])
  have e: "256 * 16777216 = (4294967296 :: nat)" "256 * 65536 = (16777216 :: nat)" "256 * 256 = (65536 :: nat)" by simp_all
  have m: "v mod 4294967296 = 256 * (v div 256 mod 16777216) + v mod 256"
    "v div 256 mod 16777216 = 256 * (v div 256 div 256 mod 65536) + v div 256 mod 256"
    "v div 256 div 256 mod 65536 = 256 * (v div 256 div 256 div 256 mod 256) + v div 256 div 256 mod 256"
    by (rule mod_mult2_eq [of v 256 16777216, unfolded e(1)] mod_mult2_eq [of "v div 256" 256 65536, unfolded e(2)]
        mod_mult2_eq [of "v div 256 div 256" 256 256, unfolded e(3)])+
  have "a + 256 * b + 65536 * c + 16777216 * e = 256 * (256 * (256 * e + c) + b) + a" for a b c e :: nat by simp
  then show ?thesis unfolding d m by this
qed

lemma get32_byte_of [simp]:
  "unat w mod 256 + 256 * (unat w div 256 mod 256) + 65536 * (unat w div 65536 mod 256) + 16777216 * (unat w div 16777216 mod 256) = unat (w :: u32)"
  unfolding bytes_join using u32_lt [of w] by (rule mod_less)

lemma get16_byte_of [simp]: "unat w mod 256 + 256 * (unat w div 256 mod 256) = unat (w :: u16)"
proof -
  have "unat w < 2 ^ LENGTH(16)" by (rule unsigned_less)
  then have "unat w div 256 < 256" by simp
  then show ?thesis by simp
qed

lemma get_store [simp]:
  "get32 (store32 off w m) off = unat w"
  "get16 (store16 off h m) off = unat h"
  "q + 4 \<le> off \<or> off + 4 \<le> q \<Longrightarrow> get32 (store32 off w m) q = get32 m q"
  "q + 4 \<le> off \<or> off + 2 \<le> q \<Longrightarrow> get32 (store16 off h m) q = get32 m q"
  "q + 2 \<le> off \<or> off + 4 \<le> q \<Longrightarrow> get16 (store32 off w m) q = get16 m q"
  "q + 2 \<le> off \<or> off + 2 \<le> q \<Longrightarrow> get16 (store16 off h m) q = get16 m q"
  "q < off \<or> off + 4 \<le> q \<Longrightarrow> store32 off w m q = m q"
  "q < off \<or> off + 2 \<le> q \<Longrightarrow> store16 off h m q = m q"
  by (auto simp: get32_def get16_def store32_def store16_def unat_byte_of)

lemmas reg_bytes = get16_def get32_def store16_def store32_def unat_byte_of

end
