(* ===== verification/Sig_Gen.thy ===== *)
theory Sig_Gen
  imports C_String Byte_Mem
begin

text \<open>
  The signal generator tools \<^verbatim>\<open>projects/adc_test/server/gen.c\<close> and \<^verbatim>\<open>projects/adc_test/rpn_server/gen.c\<close>: they set the level and the frequency of
  one of two test signals.  The two differ only in the places of the registers.
\<close>

section \<open>State\<close>

record gen_st = cio +
  gen_cfg :: "nat \<Rightarrow> u8"

record genenv =
  ge_mem :: int
  ge_map :: bool

text \<open>Where a board has the phase increment and the level of a channel.\<close>

record gen_lay =
  phase_off :: "bool \<Rightarrow> nat"
  level_off :: "bool \<Rightarrow> nat"

definition gen_regs :: gen_lay where
  "gen_regs = \<lparr>phase_off = (\<lambda>second. if second then 12 else 8), level_off = (\<lambda>second. if second then 18 else 16)\<rparr>"

definition gen_regs_rpn :: gen_lay where
  "gen_regs_rpn = \<lparr>phase_off = (\<lambda>second. if second then 8 else 4), level_off = (\<lambda>second. if second then 14 else 12)\<rparr>"

section \<open>The program\<close>

definition gen_usage :: "('a gen_st_scheme, int) cm" where
  "gen_usage = then_c (printf (''Usage: gen [1-2] [0-32766] [0-61440000]'' @ [CHR 0x0A])) (ret_c 1)"

text \<open>\<open>(uint32_t)floor(f / 125.0e6 * (1<<30) + 0.5)\<close>, in double precision.\<close>

definition gen_increment :: "int \<Rightarrow> u32 res" where
  "gen_increment f = float_to_u32 (of_int \<lfloor>f64 (f64 (f64 (of_int f / 125000000) * 1073741824) + 1 / 2)\<rfloor>)"

text \<open>
  \<open>strtol\<close> with the tests after it: no digits leave \<open>end\<close> at the start of the argument; a value too large
  for \<open>long\<close> sets \<open>errno\<close>.
\<close>

definition gen_number :: "string \<Rightarrow> int option" where
  "gen_number s = (let (neg, t) = sign_of (skip_space s); v = fst (digit_run 10 0 t); x = (if neg then - v else v) in
     if t = [] \<or> \<not> digit_val (hd t) < 10 \<or> \<not> in_s32 x then None else Some x)"

text \<open>With a number of arguments other than three \<open>strtol\<close> is never called, and \<open>end\<close> is compared without a value.\<close>

definition gen_main :: "gen_lay \<Rightarrow> genenv \<Rightarrow> string list \<Rightarrow> ('a gen_st_scheme, int) cm" where
  "gen_main lay e argv =
     (if length argv \<noteq> 4 then stop_c Uninit
      else case (gen_number (argv ! 1), gen_number (argv ! 2), gen_number (argv ! 3)) of
        (Some ch, Some lvl, Some f) \<Rightarrow>
          if ch < 1 \<or> ch > 2 \<or> lvl < 0 \<or> lvl > 32766 \<or> f < 0 \<or> f > 61440000 then gen_usage
          else if ge_mem e < 0 then then_c (eprintf (''Cannot open /dev/mem.'' @ [CHR 0x0A])) (ret_c 1)
          else if \<not> ge_map e then stop_c OutOfBounds
          else bind_c (lift_c (gen_increment f)) (\<lambda>w.
            then_c (mod_c (\<lambda>s. s\<lparr>gen_cfg := store32 (phase_off lay (ch = 2)) w (gen_cfg s)\<rparr>))
            (then_c (mod_c (\<lambda>s. s\<lparr>gen_cfg := store16 (level_off lay (ch = 2)) (word_of_int lvl) (gen_cfg s)\<rparr>)) (ret_c 0)))
      | _ \<Rightarrow> gen_usage)"

section \<open>The frequency\<close>

text \<open>
  The exact phase increment is \<open>f * 2^24 / 5^9\<close>.  Its denominator is odd, so it is never closer than
  \<open>1 / (2 * 5^9)\<close> to the middle between two integers; the three roundings together stay below that.
\<close>

lemma exact_increment_gap:
  fixes f k :: int
  assumes "d = of_int f * 16777216 / 1953125 + 1 / 2 - (of_int k :: rat)" "0 \<le> d" "d < 1"
  shows "1 / 3906250 \<le> d \<and> d \<le> 1 - 1 / 3906250"
proof -
  define m where "m = f * 33554432 + 1953125 - k * 3906250"
  have m: "d = of_int m / 3906250" using assms(1) by (simp add: m_def field_simps)
  have "0 \<le> m" "m < 3906250" using assms(2,3) unfolding m by (simp_all add: field_simps)
  moreover have "odd m" by (simp add: m_def)
  ultimately have "1 \<le> m" "m \<le> 3906249" by (auto intro: ccontr elim!: oddE)
  then have "(of_int 1 :: rat) \<le> of_int m" "(of_int m :: rat) \<le> of_int 3906249" by (simp_all only: of_int_le_iff)
  then show ?thesis unfolding m by simp
qed

lemma gen_increment_exact:
  assumes "0 \<le> f" "f \<le> 61440000"
  shows "gen_increment f = Inr (word_of_int ((f * 33554432 + 1953125) div 3906250))"
proof -
  let ?u = "1 / 9007199254740992 :: rat"
  define x where "x = (of_int f * 16777216 / 1953125 :: rat)"
  have f: "(of_int 0 :: rat) \<le> of_int f" "(of_int f :: rat) \<le> of_int 61440000" using assms by (simp_all only: of_int_le_iff)
  have x: "0 \<le> x" "x \<le> 528000000" using f by (simp_all add: x_def)
  have a: "\<bar>f64 (of_int f / 125000000) - of_int f / 125000000\<bar> \<le> of_int f / 125000000 * ?u"
    using fp64.rnd_err [of "of_int f / 125000000"] f by simp
  define y where "y = f64 (of_int f / 125000000) * 1073741824"
  have "y - x = (f64 (of_int f / 125000000) - of_int f / 125000000) * 1073741824" by (simp add: y_def x_def)
  then have "\<bar>y - x\<bar> \<le> of_int f / 125000000 * ?u * 1073741824"
    using mult_right_mono [OF a, of 1073741824] by (simp only: abs_mult) simp
  then have y: "\<bar>y - x\<bar> \<le> x * ?u" "\<bar>x\<bar> \<le> 528000000" using x by (simp_all add: x_def)
  then have y': "\<bar>y - x\<bar> \<le> 528000000 * ?u" using x by simp
  have z: "\<bar>f64 y - x\<bar> \<le> 528000000 * ?u + (528000000 + 528000000 * ?u) * ?u" by (rule fp64.rnd_near_trans [OF y' y(2)])
  then have "\<bar>(f64 y + 1/2) - (x + 1/2)\<bar> \<le> 528000000 * ?u + (528000000 + 528000000 * ?u) * ?u" "\<bar>x + 1/2\<bar> \<le> 528000001"
    using x by simp_all
  from fp64.rnd_near_trans [OF this] have e: "\<bar>f64 (f64 y + 1/2) - (x + 1/2)\<bar> < 1 / 3906250" by simp
  define k where "k = \<lfloor>x + 1/2\<rfloor>"
  have k: "0 \<le> x + 1/2 - of_int k" "x + 1/2 - of_int k < 1" unfolding k_def by linarith+
  have g: "1 / 3906250 \<le> x + 1/2 - of_int k \<and> x + 1/2 - of_int k \<le> 1 - 1 / 3906250"
    by (rule exact_increment_gap [of _ f k]) (use k in \<open>simp_all add: x_def\<close>)
  have "\<lfloor>f64 (f64 y + 1/2)\<rfloor> = k" by (rule floor_unique) (use g e in linarith)+
  moreover have "k = (f * 33554432 + 1953125) div 3906250"
  proof -
    have "x + 1/2 = of_int (f * 33554432 + 1953125) / of_int 3906250" by (simp add: x_def field_simps)
    then show ?thesis unfolding k_def by (simp only: floor_divide_of_int_eq)
  qed
  moreover have "0 \<le> k" "k < 4294967296" using x unfolding k_def by (simp_all add: floor_less_iff)
  then have "float_to_u32 (of_int k) = Inr (word_of_int k)" by (simp add: float_to_u32_def trunc_rat_def to_u32_def)
  ultimately show ?thesis by (simp add: gen_increment_def y_def)
qed

text \<open>
  C28. On both boards, for every channel, level and frequency in the ranges of the usage text, the program
  leaves in the channel's own registers the level and the phase increment that is exactly the nearest
  integer to \<open>f * 2^30 / 125000000\<close>: the double-precision arithmetic loses nothing.  No other register changes.
\<close>

theorem gen_sets_signal:
  assumes "gen_number (argv ! 1) = Some ch" "gen_number (argv ! 2) = Some lvl" "gen_number (argv ! 3) = Some f" "length argv = 4"
    and "1 \<le> ch" "ch \<le> 2" "0 \<le> lvl" "lvl \<le> 32766" "0 \<le> f" "f \<le> 61440000" "0 \<le> ge_mem e" "ge_map e" "lay = gen_regs \<or> lay = gen_regs_rpn"
  shows "\<exists>s'. gen_main lay e argv s = Inr (0, s')
    \<and> int (get32 (gen_cfg s') (phase_off lay (ch = 2))) = (2 * f * 2 ^ 30 + 125000000) div (2 * 125000000)
    \<and> int (get16 (gen_cfg s') (level_off lay (ch = 2))) = lvl
    \<and> (\<forall>q. \<not> (phase_off lay (ch = 2) \<le> q \<and> q < phase_off lay (ch = 2) + 4) \<and> \<not> (level_off lay (ch = 2) \<le> q \<and> q < level_off lay (ch = 2) + 2)
        \<longrightarrow> gen_cfg s' q = gen_cfg s q)"
proof -
  let ?k = "(f * 33554432 + 1953125) div 3906250" and ?p = "phase_off lay (ch = 2)" and ?l = "level_off lay (ch = 2)"
  let ?s = "s\<lparr>gen_cfg := store16 ?l (word_of_int lvl) (store32 ?p (word_of_int ?k) (gen_cfg s))\<rparr>"
  have run: "gen_main lay e argv s = Inr (0, ?s)"
    using assms by (simp add: gen_main_def gen_increment_exact cm_defs)
  have apart: "?p + 4 \<le> ?l" using assms(13) by (auto simp: gen_regs_def gen_regs_rpn_def)
  have k: "?k = (2 * f * 2 ^ 30 + 125000000) div (2 * 125000000)"
    using div_mult_mult1 [of 64 "f * 33554432 + 1953125" 3906250] by (simp add: algebra_simps)
  have r: "0 \<le> ?k" "?k < 4294967296" using assms(9,10) by simp_all
  then have "int (unat (word_of_int ?k :: u32)) = ?k" by (simp add: uint_word_of_int flip: uint_nat)
  moreover have "int (unat (word_of_int lvl :: u16)) = lvl" using assms(7,8) by (simp add: uint_word_of_int flip: uint_nat)
  ultimately show ?thesis using apart by (intro exI [of _ ?s] conjI run) (auto simp: k)
qed

definition gen0 :: gen_st where
  "gen0 = \<lparr>c_out = [], c_err = [], gen_cfg = (\<lambda>_. 0)\<rparr>"

definition genenv0 :: genenv where
  "genenv0 = \<lparr>ge_mem = 3, ge_map = True\<rparr>"

theorem gen_sets_signal_witness:
  "\<exists>s'. gen_main gen_regs genenv0 [''gen'', ''2'', ''32766'', ''1000000''] gen0 = Inr (0, s')
    \<and> get32 (gen_cfg s') 12 = 8589935 \<and> get16 (gen_cfg s') 18 = 32766"
proof -
  let ?argv = "[''gen'', ''2'', ''32766'', ''1000000'']"
  have "gen_number (?argv ! 1) = Some 2" "gen_number (?argv ! 2) = Some 32766" "gen_number (?argv ! 3) = Some 1000000"
    by code_simp+
  from gen_sets_signal [OF this, where e = genenv0 and s = gen0 and lay = gen_regs] show ?thesis
    by (auto simp: genenv0_def gen_regs_def)
qed

text \<open>Called without arguments, as one does to see the usage text, the program compares a pointer that has no value.\<close>

lemma gen_usage_undefined: "length argv \<noteq> 4 \<Longrightarrow> gen_main lay e argv s = Inl Uninit"
  by (simp add: gen_main_def cm_defs)

end
