(* ===== verification/Adc_Recorder.thy ===== *)
theory Adc_Recorder
  imports Half_Buffer C_String
begin

text \<open>
  The recorder \<^verbatim>\<open>projects/dac_player/app/adc-recorder.c\<close>: it stores the samples of the two converters in a file for a
  given time, half a buffer at a time, and at the end the part of the last half that has been written.
\<close>

section \<open>State\<close>

record recorder = cio +
  rec_interrupted :: bool
  rec_rst :: u8
  rec_addr :: u32
  rec_rate :: u16
  rec_limit :: u32
  rec_file :: "u8 list"
  rec_naps :: "nat list"

text \<open>
  The system: whether the file opens and how many bytes fit in it, the results of opening the devices and of
  \<open>ioctl\<close> (\<open>None\<close> when it fails), whether the mappings succeed, and the size of a page.
\<close>

record renv =
  re_fopen :: bool
  re_room :: nat
  re_mem :: int
  re_cma :: int
  re_ioctl :: "u32 option"
  re_cfg_map :: bool
  re_sts_map :: bool
  re_adc_map :: bool
  re_page :: nat

definition rec_nap :: "nat \<Rightarrow> ('a recorder_scheme, unit) cm" where
  [cm_defs]: "rec_nap n = mod_c (\<lambda>s. s\<lparr>rec_naps := rec_naps s @ [n]\<rparr>)"

definition rec_rst_and :: "u8 \<Rightarrow> ('a recorder_scheme, unit) cm" where
  [cm_defs]: "rec_rst_and m = mod_c (\<lambda>s. s\<lparr>rec_rst := rec_rst s AND m\<rparr>)"

section \<open>Arguments\<close>

definition rec_usage :: "('a recorder_scheme, unit) cm" where
  "rec_usage = (let nl = [CHR 0x0A] in seq_c [
     eprintf (''Usage: adc-recorder rate time file'' @ nl),
     eprintf ('' rate - decimation rate (16 - 16384),'' @ nl),
     eprintf ('' time - duration of the acquisition in seconds (from 1 to 99999999),'' @ nl),
     eprintf ('' file - output file.'' @ nl)])"

text \<open>
  \<open>strtol(s, &end, 10)\<close> with the tests after it: no digits leave \<open>end\<close> at the start, and a value for which
  \<open>errno\<close> is set is outside the bounds as well.
\<close>

definition rec_number :: "int \<Rightarrow> int \<Rightarrow> string \<Rightarrow> int option" where
  "rec_number lo hi s = (let (neg, t) = sign_of (skip_space s); v = fst (digit_run 10 0 t); x = (if neg then - v else v) in
     if t = [] \<or> \<not> digit_val (hd t) < 10 \<or> x < lo \<or> x > hi then None else Some x)"

section \<open>Writing the file\<close>

text \<open>
  \<open>fwrite\<close> stores as many bytes as fit; its result, an unsigned number, is compared with \<open>< 0\<close> and never stops
  the loop.  The FPGA goes on writing while it runs: \<open>ram i\<close> is the memory at the moment at which byte \<open>i\<close> of the block is read.
\<close>

definition rec_fwrite :: "renv \<Rightarrow> (nat \<Rightarrow> nat \<Rightarrow> u8) \<Rightarrow> nat \<Rightarrow> nat \<Rightarrow> ('a recorder_scheme, unit) cm" where
  "rec_fwrite e ram off len =
     (if \<not> re_fopen e then stop_c NullDeref
      else if \<not> re_adc_map e \<or> 128 * re_page e < off + len then stop_c OutOfBounds
      else mod_c (\<lambda>s. s\<lparr>rec_file := rec_file s @ take (re_room e - length (rec_file s)) (map (\<lambda>i. ram i (off + i)) [0..<len])\<rparr>))"

definition rec_ready :: "u32 \<Rightarrow> u32 \<Rightarrow> bool" where
  "rec_ready lm position \<longleftrightarrow> lm > 0 \<and> position > lm \<or> lm = 0 \<and> position < 32 * 1024"

definition rec_offset :: "u32 \<Rightarrow> u32" where
  "rec_offset lm = (if lm > 0 then 0 else 256 * 1024)"

definition rec_position :: "renv \<Rightarrow> u32 \<Rightarrow> ('a recorder_scheme, u32) cm" where
  "rec_position e w = (if re_sts_map e then ret_c w else stop_c OutOfBounds)"

text \<open>One pass of the loop, with the position register at its look and the memory during the \<open>fwrite\<close> after it.\<close>

definition rec_poll :: "renv \<Rightarrow> u32 \<Rightarrow> (nat \<Rightarrow> nat \<Rightarrow> u8) \<Rightarrow> ('a recorder_scheme, unit) cm" where
  "rec_poll e w ram = bind_c (rec_position e w) (\<lambda>position.
     bind_c (get_c rec_limit) (\<lambda>lm.
     if rec_ready lm position
     then then_c (mod_c (\<lambda>s. s\<lparr>rec_limit := (if lm > 0 then 0 else 32 * 1024)\<rparr>))
       (rec_fwrite e ram (unat (rec_offset lm)) (256 * 1024))
     else rec_nap 100))"

text \<open>
  The loop runs until the signal or the end of the time; an event is the signal, or the condition of the loop with
  the time it sees and what the pass after it would see.
\<close>

datatype rec_ev = RSig | RPoll int u32 "nat \<Rightarrow> nat \<Rightarrow> u8"

fun rec_loop :: "renv \<Rightarrow> int \<Rightarrow> int \<Rightarrow> rec_ev list \<Rightarrow> ('a recorder_scheme, unit) cm" where
  "rec_loop e start stp [] = (\<lambda>s. if rec_interrupted s then Inr ((), s) else Inl Blocked)"
| "rec_loop e start stp (RSig # es) = then_c (mod_c (\<lambda>s. s\<lparr>rec_interrupted := True\<rparr>)) (rec_loop e start stp es)"
| "rec_loop e start stp (RPoll t w ram # es) = bind_c (get_c rec_interrupted) (\<lambda>i.
     if \<not> i \<and> t - start < stp then then_c (rec_poll e w ram) (rec_loop e start stp es) else ret_c ())"

definition rec_finish :: "renv \<Rightarrow> u32 \<Rightarrow> (nat \<Rightarrow> nat \<Rightarrow> u8) \<Rightarrow> ('a recorder_scheme, unit) cm" where
  "rec_finish e w ram =
     then_c (rec_rst_and (NOT 1))
     (then_c (rec_nap 100)
     (bind_c (rec_position e w) (\<lambda>position.
      bind_c (get_c rec_limit) (\<lambda>lm.
      then_c (if_c (lm > 0 \<and> position < lm \<or> lm = 0 \<and> position > 32 * 1024)
        (rec_fwrite e ram (unat (rec_offset lm)) (unat (position * 8 - rec_offset lm))))
     (then_c (rec_rst_and (NOT 2))
     (if re_fopen e then ret_c () else stop_c NullDeref))))))"

section \<open>main\<close>

definition rec_fail :: "string \<Rightarrow> ('a recorder_scheme, int) cm" where
  "rec_fail t = then_c (eprintf t) (ret_c 1)"

definition rec_acquire :: "renv \<Rightarrow> u32 \<Rightarrow> int \<Rightarrow> int \<Rightarrow> int \<Rightarrow> rec_ev list \<Rightarrow> u32 \<Rightarrow> (nat \<Rightarrow> nat \<Rightarrow> u8) \<Rightarrow> ('a recorder_scheme, int) cm" where
  "rec_acquire e addr rate stp now es w ram =
     (if \<not> re_cfg_map e then stop_c OutOfBounds
      else then_c (seq_c [mod_c (\<lambda>s. s\<lparr>rec_addr := addr\<rparr>), rec_rst_and (NOT 1), rec_nap 100, rec_rst_and (NOT 2),
          mod_c (\<lambda>s. s\<lparr>rec_rate := word_of_int (rate div 2)\<rparr>), mod_c (\<lambda>s. s\<lparr>rec_rst := rec_rst s OR 3, rec_limit := 32 * 1024\<rparr>),
          rec_loop e (now + 1) stp es, rec_finish e w ram])
        (ret_c 0))"

definition rec_main :: "renv \<Rightarrow> string list \<Rightarrow> int \<Rightarrow> rec_ev list \<Rightarrow> u32 \<Rightarrow> (nat \<Rightarrow> nat \<Rightarrow> u8) \<Rightarrow> ('a recorder_scheme, int) cm" where
  "rec_main e argv now es w ram =
     (if length argv \<noteq> 4 then then_c rec_usage (ret_c 1)
      else case rec_number 16 16384 (argv ! 1) of None \<Rightarrow> then_c rec_usage (ret_c 1)
      | Some rate \<Rightarrow> (case rec_number 1 99999999 (argv ! 2) of None \<Rightarrow> then_c rec_usage (ret_c 1)
      | Some stp \<Rightarrow>
         if re_mem e < 0 then rec_fail ''open''
         else if re_cma e < 0 then rec_fail ''open''
         else (case re_ioctl e of None \<Rightarrow> rec_fail ''ioctl''
           | Some addr \<Rightarrow> rec_acquire e addr rate stp now es w ram)))"

section \<open>The recorded file is the stream\<close>

definition rec_flag :: "bool \<Rightarrow> u32" where
  "rec_flag f = (if f then 32768 else 0)"

interpretation rec: half_reader 32768 "\<lambda>f p. rec_ready (rec_flag f) (word_of_nat p)"
proof
  fix p :: nat
  assume "p < 2 * 32768"
  then have u: "unat (word_of_nat p :: u32) = p" by (simp add: unat_of_nat)
  show "rec_ready (rec_flag True) (word_of_nat p) \<longleftrightarrow> 32768 < p" "rec_ready (rec_flag False) (word_of_nat p) \<longleftrightarrow> p < 32768"
    by (simp_all add: rec_ready_def rec_flag_def word_less_nat_alt u)
qed

lemmas rec_look = rec.poll [unfolded words_32k]

definition rec_can :: "renv \<Rightarrow> bool" where
  "rec_can e \<longleftrightarrow> re_fopen e \<and> re_adc_map e \<and> re_sts_map e \<and> re_page e = 4096"

text \<open>With \<open>n\<close> halves stored: which half is next, and what the file holds.\<close>

definition rec_at :: "renv \<Rightarrow> (nat \<Rightarrow> u8) \<Rightarrow> nat \<Rightarrow> 'a recorder_scheme \<Rightarrow> bool" where
  "rec_at e b n s \<longleftrightarrow> rec_limit s = rec_flag (even n) \<and> rec_file s = take (re_room e) (map b [0..<262144 * n])"

lemma rec_offset_half: "unat (rec_offset (rec_flag (even n))) = half_off 32768 n"
  by (simp add: rec_offset_def rec_flag_def half_off_def word_less_nat_alt)

lemma take_more: "take r xs @ take (r - length (take r xs)) ys = take r (xs @ ys)"
  by (simp add: min_def)

lemma stream_more: "map b [0..<262144 * n] @ map b [262144 * n..<262144 * n + len] = map b [0..<262144 * n + len]"
  using upt_add_eq_append [of 0 "262144 * n" len] by simp

lemma rec_store:
  assumes "rec_can e" "rec_file s = take (re_room e) (map b [0..<262144 * n])"
    "read_during 32768 b T E ram" "E \<le> 32768 * (n + 2)" "262144 * n + len \<le> 8 * T" "len \<le> 262144"
  shows "rec_fwrite e ram (half_off 32768 n) len s = Inr ((), s\<lparr>rec_file := take (re_room e) (map b [0..<262144 * n + len])\<rparr>)"
proof -
  have "half_off 32768 n + len \<le> 128 * re_page e" using assms(1,6) by (simp add: half_off_def rec_can_def)
  then show ?thesis using assms(1) unfolding rec_fwrite_def half_bytes_32k [OF assms(3-6)]
    by (simp add: rec_can_def cm_defs assms(2) take_more stream_more del: length_take)
qed

lemma rec_poll_run:
  assumes "rec_can e" "rec_at e b n s" "caught_up 32768 n T" "T \<le> T'" "T' \<le> E" "E < T + 32768" "read_during 32768 b T' E ram"
  shows "\<exists>s'. rec_poll e (word_of_nat (T' mod 65536)) ram s = Inr ((), s')
    \<and> rec_at e b (if rec_ready (rec_flag (even n)) (word_of_nat (T' mod 65536)) then Suc n else n) s'
    \<and> rec_interrupted s' = rec_interrupted s \<and> rec_rst s' = rec_rst s"
proof (cases "rec_ready (rec_flag (even n)) (word_of_nat (T' mod 65536))")
  case True
  let ?s = "s\<lparr>rec_limit := (if rec_flag (even n) > 0 then 0 else 32 * 1024)\<rparr>"
  have t: "T' < T + 32768" using assms(5,6) by simp
  have e: "E < 32768 * (n + 2)" using caught_up_next(2) [OF assms(3) _ assms(6)] assms(4,5) by simp
  have "262144 * n + 262144 \<le> 8 * T'" using rec_look(1) [OF assms(3,4) t True] by simp
  then have "rec_fwrite e ram (half_off 32768 n) 262144 ?s
      = Inr ((), ?s\<lparr>rec_file := take (re_room e) (map b [0..<262144 * n + 262144])\<rparr>)"
    using rec_store [OF assms(1) _ assms(7), of ?s n 262144] assms(2) e by (simp add: rec_at_def)
  then show ?thesis using True assms(1,2)
    by (simp add: rec_poll_def rec_position_def cm_defs rec_can_def rec_at_def rec_offset_half)
      (auto simp: rec_flag_def algebra_simps)
next
  case False
  then show ?thesis using assms(1,2) by (simp add: rec_poll_def rec_position_def cm_defs rec_can_def rec_at_def)
qed

text \<open>
  The passes before the loop ends: the time, the words written at the look and at the end of the pass, and the memory during the pass.
\<close>

definition poll_ev :: "int \<times> nat \<times> nat \<times> (nat \<Rightarrow> nat \<Rightarrow> u8) \<Rightarrow> rec_ev" where
  "poll_ev q = (case q of (t, T, E, ram) \<Rightarrow> RPoll t (word_of_nat (T mod 65536)) ram)"

definition poll_ok :: "int \<Rightarrow> (nat \<Rightarrow> u8) \<Rightarrow> int \<times> nat \<times> nat \<times> (nat \<Rightarrow> nat \<Rightarrow> u8) \<Rightarrow> bool" where
  "poll_ok tend b q = (case q of (t, T, E, ram) \<Rightarrow> t < tend \<and> read_during 32768 b T E ram)"

definition poll_times :: "(int \<times> nat \<times> nat \<times> (nat \<Rightarrow> nat \<Rightarrow> u8)) list \<Rightarrow> (nat \<times> nat) list" where
  "poll_times ps = map (\<lambda>(t, T, E, ram). (T, E)) ps"

abbreviation poll_words :: "(int \<times> nat \<times> nat \<times> (nat \<Rightarrow> nat \<Rightarrow> u8)) list \<Rightarrow> nat list" where
  "poll_words ps \<equiv> map fst (poll_times ps)"

abbreviation rec_halves :: "nat \<Rightarrow> nat list \<Rightarrow> nat" where
  "rec_halves \<equiv> halves_read 32768 (\<lambda>f p. rec_ready (rec_flag f) (word_of_nat p))"

lemma rec_loop_polls:
  assumes "rec_can e"
  shows "rec_at e b n s \<Longrightarrow> caught_up 32768 n L \<Longrightarrow> L \<le> M \<Longrightarrow> passes_ok 32768 L M (poll_times ps) \<Longrightarrow> \<forall>q \<in> set ps. poll_ok (start + stp) b q \<Longrightarrow>
    \<not> rec_interrupted s \<Longrightarrow> \<exists>s'. rec_loop e start stp (map poll_ev ps @ es) s = rec_loop e start stp es s'
      \<and> rec_at e b (rec_halves n (poll_words ps)) s' \<and> caught_up 32768 (rec_halves n (poll_words ps)) (last (L # poll_words ps))
      \<and> rec_rst s' = rec_rst s"
proof (induction ps arbitrary: s n L M)
  case Nil
  then show ?case by (auto simp: poll_times_def)
next
  case (Cons q ps)
  obtain t T E ram where q: "q = (t, T, E, ram)" by (cases q)
  let ?m = "if rec_ready (rec_flag (even n)) (word_of_nat (T mod 65536)) then Suc n else n"
  have g: "L \<le> T" "T \<le> E" "E < L + 32768" "passes_ok 32768 T E (poll_times ps)" and t: "t - start < stp" "read_during 32768 b T E ram"
    using Cons.prems(3-5) by (auto simp: q poll_times_def poll_ok_def)
  obtain s' where s': "rec_poll e (word_of_nat (T mod 65536)) ram s = Inr ((), s')" "rec_at e b ?m s'"
      "rec_interrupted s' = rec_interrupted s" "rec_rst s' = rec_rst s"
    using rec_poll_run [OF assms Cons.prems(1,2) g(1-3) t(2)] by blast
  have "rec_loop e start stp (map poll_ev (q # ps) @ es) s = rec_loop e start stp (map poll_ev ps @ es) s'"
    using Cons.prems(6) s'(1) t(1) by (simp add: q poll_ev_def bind_c_def get_c_def then_c_def)
  moreover have "caught_up 32768 ?m T" using g(2,3) by (intro rec_look(3) [OF Cons.prems(2) g(1)]) simp
  then have "\<exists>s''. rec_loop e start stp (map poll_ev ps @ es) s' = rec_loop e start stp es s''
      \<and> rec_at e b (rec_halves ?m (poll_words ps)) s'' \<and> caught_up 32768 (rec_halves ?m (poll_words ps)) (last (T # poll_words ps))
      \<and> rec_rst s'' = rec_rst s'"
    using Cons.IH [OF s'(2) _ g(2,4)] Cons.prems(5,6) s'(3) by simp
  ultimately show ?case using s'(4) by (simp add: q poll_times_def)
qed

text \<open>The end of the loop: the signal, or a look at the clock after the time.\<close>

fun ends_loop :: "int \<Rightarrow> rec_ev list \<Rightarrow> bool" where
  "ends_loop tend (RSig # es) = True"
| "ends_loop tend (RPoll t w ram # es) = (tend \<le> t)"
| "ends_loop tend [] = False"

lemma rec_loop_interrupted: "rec_interrupted s \<Longrightarrow> rec_loop e start stp es s = Inr ((), s)"
proof (induction es)
  case (Cons ev es)
  have e: "s\<lparr>rec_interrupted := True\<rparr> = s" using Cons.prems by (cases s) simp
  have "rec_loop e start stp (RSig # es) s = rec_loop e start stp es (s\<lparr>rec_interrupted := True\<rparr>)" by (simp add: cm_defs)
  then have "rec_loop e start stp (RSig # es) s = Inr ((), s)" unfolding e using Cons by simp
  then show ?case using Cons.prems by (cases ev) (simp_all add: cm_defs)
qed simp

lemma rec_loop_end: "ends_loop (start + stp) es \<Longrightarrow> \<exists>i. rec_loop e start stp es s = Inr ((), s\<lparr>rec_interrupted := i\<rparr>)"
proof (cases es)
  case (Cons ev es')
  assume a: "ends_loop (start + stp) es"
  show ?thesis
  proof (cases ev)
    case RSig
    then show ?thesis using Cons rec_loop_interrupted [of "s\<lparr>rec_interrupted := True\<rparr>"] by (auto simp: cm_defs)
  next
    case (RPoll t w ram)
    have "s\<lparr>rec_interrupted := rec_interrupted s\<rparr> = s" by simp
    then show ?thesis using a Cons RPoll by (auto simp: cm_defs intro!: exI [of _ "rec_interrupted s"])
  qed
qed simp

lemma rec_finish_run:
  assumes "rec_can e" "rec_at e b n s" "32768 * n \<le> T" "T < 32768 * (n + 2)" "read_during 32768 b T T ram"
  shows "\<exists>s'. rec_finish e (word_of_nat (T mod 65536)) ram s = Inr ((), s') \<and> rec_rst s' = rec_rst s AND NOT 3
    \<and> rec_file s' = take (re_room e) (map b [0..<8 * (if T < 32768 * (n + 1) then T else 32768 * n)])"
proof -
  let ?p = "T mod 65536" and ?t = "s\<lparr>rec_rst := rec_rst s AND NOT 1, rec_naps := rec_naps s @ [100]\<rparr>"
  have u: "unat (word_of_nat ?p :: u32) = ?p" "unat (word_of_nat ?p * 8 :: u32) = 8 * ?p"
    by (simp_all add: unat_of_nat unat_word_ariths)
  show ?thesis
  proof (cases "T < 32768 * (n + 1) \<and> (even n \<or> 32768 * n < T)")
    case True
    have p: "8 * ?p = half_off 32768 n + (8 * T - 262144 * n)" using True assms(3) by (intro pos_in_half_32k) simp_all
    then have c: "rec_flag (even n) > 0 \<and> word_of_nat ?p < rec_flag (even n) \<or> rec_flag (even n) = 0 \<and> word_of_nat ?p > (32 * 1024 :: u32)"
      using True by (auto simp: rec_flag_def half_off_def word_less_nat_alt u)
    have len: "unat (word_of_nat ?p * 8 - rec_offset (rec_flag (even n))) = 8 * T - 262144 * n"
      using p rec_offset_half [of n] by (simp add: unat_sub_if_size u)
    have "rec_fwrite e ram (half_off 32768 n) (8 * T - 262144 * n) ?t
        = Inr ((), ?t\<lparr>rec_file := take (re_room e) (map b [0..<262144 * n + (8 * T - 262144 * n)])\<rparr>)"
      using True assms(2,3) by (intro rec_store [OF assms(1) _ assms(5)]) (auto simp: rec_at_def)
    then show ?thesis using True assms(1-3) c
      by (simp add: rec_finish_def rec_position_def cm_defs rec_can_def rec_at_def rec_offset_half len and.assoc)
  next
    case False
    have c: "\<not> (rec_flag (even n) > 0 \<and> word_of_nat ?p < rec_flag (even n) \<or> rec_flag (even n) = 0 \<and> word_of_nat ?p > (32 * 1024 :: u32))"
    proof (cases "T = 32768 * n")
      case True
      then have "8 * ?p = half_off 32768 n" using pos_in_half_32k [of n T] by simp
      then show ?thesis using False True by (auto simp: rec_flag_def half_off_def word_less_nat_alt u split: if_splits)
    next
      case ge: False
      then have ge: "32768 * Suc n \<le> T" using False assms(3) by auto
      then have "8 * ?p = half_off 32768 (Suc n) + (8 * T - 262144 * Suc n)" using assms(4) by (intro pos_in_half_32k) simp_all
      moreover have "8 * T - 262144 * Suc n < 262144" using ge assms(4) by simp
      ultimately have "8 * ?p < half_off 32768 (Suc n) + 262144" "half_off 32768 (Suc n) \<le> 8 * ?p" by simp_all
      then show ?thesis by (auto simp: rec_flag_def half_off_def word_less_nat_alt u split: if_splits)
    qed
    show ?thesis using False assms(1-3) c
      by (auto simp: rec_finish_def rec_position_def cm_defs rec_can_def rec_at_def and.assoc)
  qed
qed

text \<open>
  C11. The recorder stores the stream although the FPGA goes on writing while \<open>fwrite\<close> reads the buffer: when the system calls succeed and from each look
  at the position to the end of the next pass, its \<open>fwrite\<close> included, fewer words are written than a half holds (after the loop the converter is in reset and the
  writer rests at \<open>T\<close> words), it returns 0 with the converter in reset, and the file is the stream of
  bytes from the start, cut at the room there is, without a gap or a repetition: up to the last word written
  when no complete half is waiting at the end, and otherwise up to the start of that half, whose data and
  the words after it are lost.
\<close>

theorem recorded_file_is_stream:
  assumes "length argv = 4" "rec_number 16 16384 (argv ! 1) = Some rate" "rec_number 1 99999999 (argv ! 2) = Some stp"
    and "0 \<le> re_mem e" "0 \<le> re_cma e" "re_ioctl e = Some addr" "re_cfg_map e" "rec_can e" "rec_file s = []" "\<not> rec_interrupted s"
    and "passes_ok 32768 0 0 (poll_times ps @ [(T, T)])" "\<forall>q \<in> set ps. poll_ok (now + 1 + stp) b q" "ends_loop (now + 1 + stp) es"
    and "read_during 32768 b T T ram" "n = rec_halves 0 (poll_words ps)"
  shows "\<exists>s'. rec_main e argv now (map poll_ev ps @ es) (word_of_nat (T mod 65536)) ram s = Inr (0, s') \<and> rec_rst s' AND 3 = 0
    \<and> 32768 * n \<le> T \<and> T < 32768 * (n + 2)
    \<and> rec_file s' = take (re_room e) (map b [0..<8 * (if T < 32768 * (n + 1) then T else 32768 * n)])"
proof -
  let ?s = "s\<lparr>rec_addr := addr, rec_naps := rec_naps s @ [100], rec_rate := word_of_int (rate div 2),
    rec_rst := ((rec_rst s AND NOT 1) AND NOT 2) OR 3, rec_limit := 32768\<rparr>"
  let ?L = "last (0 # poll_words ps)"
  have at: "rec_at e b 0 ?s" "caught_up 32768 0 0" using assms(9) by (simp_all add: rec_at_def rec_flag_def caught_up_def)
  have g: "passes_ok 32768 0 0 (poll_times ps)" "T < ?L + 32768" "last (0 # map snd (poll_times ps)) \<le> T"
    using assms(11) by (simp_all add: passes_ok_snoc)
  then have l: "?L \<le> T" using passes_ok_last [of 32768 0 0 "poll_times ps"] by simp
  obtain t where t: "rec_loop e (now + 1) stp (map poll_ev ps @ es) ?s = rec_loop e (now + 1) stp es t"
      "rec_at e b n t" "caught_up 32768 n ?L"
    using rec_loop_polls [OF assms(8) at order_refl g(1) assms(12)] assms(10,15) by auto
  obtain i where i: "rec_loop e (now + 1) stp es t = Inr ((), t\<lparr>rec_interrupted := i\<rparr>)"
    using rec_loop_end [OF assms(13)] by blast
  have T: "32768 * n \<le> T" "T < 32768 * (n + 2)" using caught_up_next [OF t(3) l g(2)] by blast+
  have "rec_at e b n (t\<lparr>rec_interrupted := i\<rparr>)" using t(2) by (simp add: rec_at_def)
  then obtain u where u: "rec_finish e (word_of_nat (T mod 65536)) ram (t\<lparr>rec_interrupted := i\<rparr>) = Inr ((), u)"
      "rec_rst u = rec_rst t AND NOT 3" "rec_file u = take (re_room e) (map b [0..<8 * (if T < 32768 * (n + 1) then T else 32768 * n)])"
    using rec_finish_run [OF assms(8) _ T assms(14)] by fastforce
  have "rec_main e argv now (map poll_ev ps @ es) (word_of_nat (T mod 65536)) ram s = Inr (0, u)"
    using assms(1-7) t(1) i u(1) by (simp add: rec_main_def rec_acquire_def cm_defs)
  moreover have "rec_rst u AND 3 = 0" unfolding u(2) by (simp add: and.assoc)
  ultimately show ?thesis using u(3) T by blast
qed

definition rec_env0 :: renv where
  "rec_env0 = \<lparr>re_fopen = True, re_room = 1000000, re_mem = 3, re_cma = 3, re_ioctl = Some 0x1E000000,
     re_cfg_map = True, re_sts_map = True, re_adc_map = True, re_page = 4096\<rparr>"

definition rec0 :: recorder where
  "rec0 = \<lparr>c_out = [], c_err = [], rec_interrupted = False, rec_rst = 0, rec_addr = 0, rec_rate = 0, rec_limit = 0, rec_file = [], rec_naps = []\<rparr>"

text \<open>
  Three passes: the first finds nothing, the second copies the first half, while the FPGA goes on from word 40000 to word 50000, and the signal comes
  before the third.
\<close>

theorem recorded_file_is_stream_witness:
  "\<exists>s'. rec_main rec_env0 [''adc-recorder'', ''64'', ''10'', ''data''] 0 [RPoll 0 30000 (\<lambda>_. word_of_nat), RPoll 0 40000 (\<lambda>_. word_of_nat), RSig]
       60000 (\<lambda>_. word_of_nat) rec0 = Inr (0, s')
     \<and> rec_file s' = map word_of_nat [0..<480000]"
proof -
  let ?argv = "[''adc-recorder'', ''64'', ''10'', ''data'']"
  let ?ps = "[(0 :: int, 30000 :: nat, 30000 :: nat, \<lambda>_ i :: nat. word_of_nat i :: u8), (0, 40000, 50000, \<lambda>_. word_of_nat)]"
  have "length ?argv = 4" by simp
  moreover have "rec_number 16 16384 (?argv ! 1) = Some 64" "rec_number 1 99999999 (?argv ! 2) = Some 10" by code_simp+
  moreover have "rec_can rec_env0" "re_ioctl rec_env0 = Some 0x1E000000" "re_cfg_map rec_env0" "0 \<le> re_mem rec_env0" "0 \<le> re_cma rec_env0"
    "rec_file rec0 = []" "\<not> rec_interrupted rec0" by (simp_all add: rec_can_def rec_env0_def rec0_def)
  moreover have "passes_ok 32768 0 0 (poll_times ?ps @ [(60000, 60000)])" "\<forall>q \<in> set ?ps. poll_ok (0 + 1 + 10) word_of_nat q"
    "ends_loop (0 + 1 + 10) [RSig]" "read_during 32768 word_of_nat 60000 60000 (\<lambda>_. word_of_nat)" "1 = rec_halves 0 (poll_words ?ps)"
    by (simp_all add: poll_times_def poll_ok_def rec_ready_def rec_flag_def counting_during)
  ultimately have "\<exists>s'. rec_main rec_env0 ?argv 0 (map poll_ev ?ps @ [RSig]) (word_of_nat (60000 mod 65536)) (\<lambda>_. word_of_nat) rec0 = Inr (0, s')
      \<and> rec_file s' = take (re_room rec_env0) (map word_of_nat [0..<8 * (if 60000 < 32768 * (1 + 1 :: nat) then 60000 else 32768 * 1)])"
    using recorded_file_is_stream [where argv = ?argv and rate = 64 and stp = 10 and e = rec_env0 and s = rec0 and ps = ?ps and T = 60000
        and now = 0 and b = word_of_nat and es = "[RSig]" and ram = "\<lambda>_. word_of_nat" and n = 1]
    by blast
  moreover have "8 * (if 60000 < 32768 * (1 + 1 :: nat) then 60000 else 32768 * 1) = (480000 :: nat)" by simp
  moreover have "take (re_room rec_env0) (map word_of_nat [0..<480000]) = (map word_of_nat [0..<480000] :: u8 list)"
    by (simp add: rec_env0_def del: upt_rec_numeral)
  ultimately show ?thesis by (simp only: poll_ev_def list.map append.simps prod.case) simp
qed

end
