(* ===== verification/Pipe_Recorder.thy ===== *)
theory Pipe_Recorder
  imports Adc_Recorder
begin

text \<open>
  The first recorder of the converters, \<^verbatim>\<open>projects/dac_player/adc-recorder.c\<close>: two processes after \<open>fork\<close>.  The child
  watches the position of the FPGA and copies each completed half of its buffer (4 MB) into a buffer
  both processes share, then writes a token into a pipe; the parent waits for the token and writes that half of the shared buffer
  to the file.  A run is given by the sequence of the steps of the two processes, of which a copy takes as many as it
  likes, and of the signals.
\<close>

section \<open>State\<close>

text \<open>The bytes of a half, and its words.\<close>

definition HALF :: nat where "HALF = 4096 * 1024"

definition HALF_W :: nat where "HALF_W = 512 * 1024"

lemma HALF_words: "HALF = 8 * HALF_W" "0 < HALF_W" "0 < HALF"
  by (simp_all add: HALF_def HALF_W_def)

text \<open>
  Where the processes are: before the test of the position, in \<open>memcpy\<close> at an offset with so many bytes copied, before the
  write to the pipe, or gone; and before the setup, at the loop condition, in \<open>read\<close> for the half at an offset, in \<open>fwrite\<close>
  with so many bytes written, or returned.
\<close>

datatype child_pc = CPoll | CCopy nat nat | CSend | CDead

datatype parent_pc = PSetup | PCheck | PRead nat | PWrite nat nat | PDone int

text \<open>
  The last three fields are not in the program: how many halves the child has copied, how many of them the parent has
  stored, and whether \<open>read\<close> has found the pipe closed.
\<close>

record pipe_rec = cio +
  pr_interrupted :: bool
  pr_rst :: u32
  pr_factor :: u16
  pr_limit :: int
  pr_buf :: "nat \<Rightarrow> u8"
  pr_pipe :: nat
  pr_file :: "u8 list"
  child_at :: child_pc
  parent_at :: parent_pc
  pr_taken :: nat
  pr_stored :: nat
  pr_eof :: bool

record penv =
  pe_mem :: int
  pe_maps :: bool
  pe_pipe :: bool
  pe_fork :: bool
  pe_fopen :: bool
  pe_room :: nat

text \<open>The ints that fit in the pipe of 64 kB.\<close>

definition PIPE_MAX :: nat where "PIPE_MAX = 16384"

section \<open>The child\<close>

text \<open>
  One step, with the position register and the memory of the FPGA as they are then, and the number of bytes the
  copy makes.
\<close>

definition chunk :: "nat \<Rightarrow> nat \<Rightarrow> nat" where
  "chunk k d = min (max 1 k) (HALF - d)"

definition half_done :: "int \<Rightarrow> int \<Rightarrow> bool" where
  "half_done lm position \<longleftrightarrow> lm > 0 \<and> position > lm \<or> lm = 0 \<and> position < 512 * 1024"

definition child_poll :: "int \<Rightarrow> ('a pipe_rec_scheme, unit) cm" where
  "child_poll position = bind_c (get_c pr_limit) (\<lambda>lm.
     if half_done lm position
     then mod_c (\<lambda>s. s\<lparr>pr_limit := (if lm > 0 then 0 else 512 * 1024), child_at := CCopy (if lm > 0 then 0 else HALF) 0\<rparr>)
     else ret_c ())"

definition child_copy :: "(nat \<Rightarrow> u8) \<Rightarrow> nat \<Rightarrow> nat \<Rightarrow> nat \<Rightarrow> ('a pipe_rec_scheme, unit) cm" where
  "child_copy ram k off d = (let m = chunk k d in
     then_c (mod_c (\<lambda>s. s\<lparr>pr_buf := (\<lambda>i. if off + d \<le> i \<and> i < off + d + m then ram i else pr_buf s i)\<rparr>))
       (if d + m = HALF then mod_c (\<lambda>s. s\<lparr>child_at := CSend, pr_taken := Suc (pr_taken s)\<rparr>)
        else mod_c (\<lambda>s. s\<lparr>child_at := CCopy off (d + m)\<rparr>)))"

definition child_send :: "('a pipe_rec_scheme, unit) cm" where
  "child_send = bind_c (get_c pr_pipe) (\<lambda>n.
     if n < PIPE_MAX then mod_c (\<lambda>s. s\<lparr>pr_pipe := Suc n, child_at := CPoll\<rparr>) else ret_c ())"

definition child_step :: "penv \<Rightarrow> u32 \<Rightarrow> (nat \<Rightarrow> u8) \<Rightarrow> nat \<Rightarrow> ('a pipe_rec_scheme, unit) cm" where
  "child_step e w ram k = bind_c (get_c child_at) (\<lambda>c. case c of
       CPoll \<Rightarrow> if pe_maps e then child_poll (of_u32 w) else stop_c OutOfBounds
     | CCopy off d \<Rightarrow> child_copy ram k off d
     | CSend \<Rightarrow> child_send
     | CDead \<Rightarrow> ret_c ())"

section \<open>The parent\<close>

text \<open>
  \<open>fopen\<close> gives \<open>NULL\<close> on failure, which the test \<open>< 0\<close> does not see; the result of \<open>fwrite\<close> is unsigned and the test never holds.
\<close>

definition parent_setup :: "penv \<Rightarrow> int \<Rightarrow> ('a pipe_rec_scheme, unit) cm" where
  "parent_setup e number = (if \<not> pe_maps e then stop_c OutOfBounds
     else seq_c [mod_c (\<lambda>s. s\<lparr>pr_rst := pr_rst s AND NOT 3\<rparr>), mod_c (\<lambda>s. s\<lparr>pr_factor := word_of_int number - 1\<rparr>),
       mod_c (\<lambda>s. s\<lparr>pr_rst := pr_rst s OR 3, parent_at := PCheck\<rparr>)])"

definition parent_finish :: "penv \<Rightarrow> ('a pipe_rec_scheme, unit) cm" where
  "parent_finish e = then_c (mod_c (\<lambda>s. s\<lparr>child_at := CDead, pr_rst := pr_rst s AND NOT 3\<rparr>))
     (if pe_fopen e then mod_c (\<lambda>s. s\<lparr>parent_at := PDone 0\<rparr>) else stop_c NullDeref)"

definition parent_read :: "nat \<Rightarrow> ('a pipe_rec_scheme, unit) cm" where
  "parent_read off = bind_c (get_c (\<lambda>s. (pr_pipe s, child_at s))) (\<lambda>(n, c).
     if 0 < n then mod_c (\<lambda>s. s\<lparr>pr_pipe := n - 1, parent_at := PWrite off 0\<rparr>)
     else if c = CDead then mod_c (\<lambda>s. s\<lparr>pr_eof := True, parent_at := PWrite off 0\<rparr>)
     else ret_c ())"

definition parent_write :: "penv \<Rightarrow> nat \<Rightarrow> nat \<Rightarrow> nat \<Rightarrow> ('a pipe_rec_scheme, unit) cm" where
  "parent_write e k off d = (if \<not> pe_fopen e then stop_c NullDeref else let m = chunk k d in
     then_c (mod_c (\<lambda>s. s\<lparr>pr_file := pr_file s @ take (pe_room e - length (pr_file s)) (map (pr_buf s) [off + d..<off + d + m])\<rparr>))
       (if d + m = HALF
        then mod_c (\<lambda>s. s\<lparr>parent_at := (if off = 0 then PRead HALF else PCheck), pr_stored := (if pr_eof s then pr_stored s else Suc (pr_stored s))\<rparr>)
        else mod_c (\<lambda>s. s\<lparr>parent_at := PWrite off (d + m)\<rparr>)))"

definition parent_step :: "penv \<Rightarrow> int \<Rightarrow> nat \<Rightarrow> ('a pipe_rec_scheme, unit) cm" where
  "parent_step e number k = bind_c (get_c (\<lambda>s. (parent_at s, pr_interrupted s))) (\<lambda>(p, i). case p of
       PSetup \<Rightarrow> parent_setup e number
     | PCheck \<Rightarrow> if i then parent_finish e else mod_c (\<lambda>s. s\<lparr>parent_at := PRead 0\<rparr>)
     | PRead off \<Rightarrow> parent_read off
     | PWrite off d \<Rightarrow> parent_write e k off d
     | PDone r \<Rightarrow> ret_c ())"

section \<open>Runs\<close>

text \<open>
  A signal reaches the parent, the child (which has no handler), or both, as from the keyboard.  Before the parent has set
  its handler it dies.
\<close>

datatype pr_ev = Child u32 "nat \<Rightarrow> u8" nat | Parent nat | Signal bool bool

definition pr_signal :: "bool \<Rightarrow> bool \<Rightarrow> ('a pipe_rec_scheme, unit) cm" where
  "pr_signal to_parent to_child = then_c (if_c to_child (mod_c (\<lambda>s. s\<lparr>child_at := CDead\<rparr>)))
     (bind_c (get_c parent_at) (\<lambda>p. if_c to_parent (if p = PSetup then stop_c (ExitWith 130) else mod_c (\<lambda>s. s\<lparr>pr_interrupted := True\<rparr>))))"

fun pr_step :: "penv \<Rightarrow> int \<Rightarrow> pr_ev \<Rightarrow> ('a pipe_rec_scheme, unit) cm" where
  "pr_step e number (Child w ram k) = child_step e w ram k"
| "pr_step e number (Parent k) = parent_step e number k"
| "pr_step e number (Signal p c) = pr_signal p c"

definition pr_usage :: "('a pipe_rec_scheme, unit) cm" where
  "pr_usage = (let nl = [CHR 0x0A] in seq_c [
     printf (''Usage: adc-recorder factor file'' @ nl),
     printf (''factor - ADC decimation factor (10 - 65535),'' @ nl),
     printf (''file - output file.'' @ nl)])"

text \<open>
  When \<open>fork\<close> fails, neither branch is taken and \<open>main\<close> ends; a failed \<open>pipe\<close> leaves the descriptors unset.
  With another number of arguments \<open>end\<close> is compared without a value.
\<close>

definition pr_main :: "penv \<Rightarrow> string list \<Rightarrow> pr_ev list \<Rightarrow> ('a pipe_rec_scheme, int) cm" where
  "pr_main e argv evs =
     (if pe_mem e < 0 then then_c (eprintf ''open'') (ret_c 1)
      else if length argv \<noteq> 3 then stop_c Uninit
      else case rec_number 10 65535 (argv ! 1) of None \<Rightarrow> then_c pr_usage (ret_c 1)
      | Some number \<Rightarrow>
         if \<not> pe_fork e then ret_c 0
         else if \<not> pe_pipe e then stop_c Uninit
         else then_c (mod_c (\<lambda>s. s\<lparr>pr_limit := 512 * 1024, child_at := CPoll, parent_at := PSetup\<rparr>))
           (then_c (for_c evs (pr_step e number))
           (bind_c (get_c parent_at) (\<lambda>p. case p of PDone r \<Rightarrow> ret_c r | _ \<Rightarrow> stop_c Blocked))))"

section \<open>The file is the stream\<close>

text \<open>
  What a run must respect: the converters start with the parent's setup; at every step of the child the buffer of the FPGA holds the
  last words of the stream, and the child is never so late that the half it waits for or copies is being overwritten; and it
  does not start on a half of the shared buffer that the parent has not stored yet.  Nothing in the program enforces the last:
  the pipe holds 16384 tokens.
\<close>

definition on_time :: "(nat \<Rightarrow> u8) \<Rightarrow> nat \<Rightarrow> pr_ev \<Rightarrow> 'a pipe_rec_scheme \<Rightarrow> bool" where
  "on_time b T ev s = (case ev of
       Child w ram k \<Rightarrow> w = word_of_nat (T mod (2 * HALF_W)) \<and> ring_holds HALF_W b T ram \<and> T < HALF_W * (pr_taken s + 2)
         \<and> (case child_at s of CCopy _ _ \<Rightarrow> pr_taken s \<le> Suc (pr_stored s) | _ \<Rightarrow> True)
     | _ \<Rightarrow> True)"

fun keeps_up :: "penv \<Rightarrow> int \<Rightarrow> (nat \<Rightarrow> u8) \<Rightarrow> nat \<Rightarrow> (nat \<times> pr_ev) list \<Rightarrow> 'a pipe_rec_scheme \<Rightarrow> bool" where
  "keeps_up e number b T [] s = True"
| "keeps_up e number b T ((T', ev) # evs) s = (T \<le> T' \<and> (parent_at s = PSetup \<longrightarrow> T' = 0) \<and> on_time b T' ev s
     \<and> (case pr_step e number ev s of Inl _ \<Rightarrow> True | Inr (_, s') \<Rightarrow> keeps_up e number b T' evs s'))"

definition pr_flag :: "bool \<Rightarrow> int" where
  "pr_flag f = (if f then 512 * 1024 else 0)"

interpretation pr: half_reader HALF_W "\<lambda>f p. half_done (pr_flag f) (of_u32 (word_of_nat p))"
proof
  fix p :: nat
  assume p: "p < 2 * HALF_W"
  have "of_u32 (word_of_nat p) = of_u32 (to_u32 (int p))" by (simp add: to_u32_def)
  then have u: "of_u32 (word_of_nat p) = int p" using p by (simp add: in_s32_def HALF_W_def)
  show "half_done (pr_flag True) (of_u32 (word_of_nat p)) \<longleftrightarrow> HALF_W < p"
    "half_done (pr_flag False) (of_u32 (word_of_nat p)) \<longleftrightarrow> p < HALF_W"
    unfolding u by (auto simp: half_done_def pr_flag_def HALF_W_def)
qed

text \<open>The child: which half it is in, and that what it has copied is that half of the stream.\<close>

fun child_ok :: "(nat \<Rightarrow> u8) \<Rightarrow> nat \<Rightarrow> nat \<Rightarrow> int \<Rightarrow> (nat \<Rightarrow> u8) \<Rightarrow> child_pc \<Rightarrow> bool" where
  "child_ok b T n lm buf CPoll = (lm = pr_flag (even n) \<and> HALF_W * n \<le> T)"
| "child_ok b T n lm buf (CCopy off d) = (lm = pr_flag (odd n) \<and> HALF_W * (n + 1) \<le> T \<and> off = half_off HALF_W n \<and> d < HALF
     \<and> (\<forall>i < d. buf (off + i) = b (HALF * n + i)))"
| "child_ok b T n lm buf CSend = (lm = pr_flag (even n) \<and> HALF_W * n \<le> T)"
| "child_ok b T n lm buf CDead = True"

text \<open>The shared buffer holds the halves that wait for the parent.\<close>

definition buf_ok :: "(nat \<Rightarrow> u8) \<Rightarrow> nat \<Rightarrow> nat \<Rightarrow> (nat \<Rightarrow> u8) \<Rightarrow> bool" where
  "buf_ok b f n buf \<longleftrightarrow> (\<forall>q i. f \<le> q \<and> q < n \<and> i < HALF \<longrightarrow> buf (half_off HALF_W q + i) = b (HALF * q + i))"

text \<open>The tokens: a half that has been copied has its token read, in the pipe, or still to be sent.\<close>

fun token_held :: "bool \<Rightarrow> parent_pc \<Rightarrow> nat" where
  "token_held eof (PWrite off d) = (if eof then 0 else 1)"
| "token_held eof p = 0"

fun tokens_ok :: "nat \<Rightarrow> nat \<Rightarrow> child_pc \<Rightarrow> bool" where
  "tokens_ok n k CSend = (Suc k = n)"
| "tokens_ok n k CDead = (k \<le> n \<and> n \<le> Suc k)"
| "tokens_ok n k c = (k = n)"

text \<open>The parent: which half it waits for or writes, and how much of that half is in the file.\<close>

fun parent_ok :: "nat \<Rightarrow> parent_pc \<Rightarrow> bool" where
  "parent_ok f (PRead off) = (off = half_off HALF_W f)"
| "parent_ok f (PWrite off d) = (off = half_off HALF_W f \<and> d < HALF)"
| "parent_ok f p = even f"

fun in_progress :: "bool \<Rightarrow> parent_pc \<Rightarrow> nat" where
  "in_progress eof (PWrite off d) = (if eof then 0 else d)"
| "in_progress eof p = 0"

definition file_ok :: "nat \<Rightarrow> (nat \<Rightarrow> u8) \<Rightarrow> nat \<Rightarrow> bool \<Rightarrow> u8 list \<Rightarrow> bool" where
  "file_ok r b len eof xs \<longleftrightarrow> (\<exists>rest. xs = take r (map b [0..<len] @ rest) \<and> (\<not> eof \<longrightarrow> rest = []))"

definition pr_inv :: "penv \<Rightarrow> (nat \<Rightarrow> u8) \<Rightarrow> nat \<Rightarrow> 'a pipe_rec_scheme \<Rightarrow> bool" where
  "pr_inv e b T s \<longleftrightarrow> child_ok b T (pr_taken s) (pr_limit s) (pr_buf s) (child_at s)
     \<and> buf_ok b (pr_stored s) (pr_taken s) (pr_buf s)
     \<and> tokens_ok (pr_taken s) (pr_pipe s + (pr_stored s + token_held (pr_eof s) (parent_at s))) (child_at s)
     \<and> (\<not> pr_eof s \<longrightarrow> parent_ok (pr_stored s) (parent_at s))
     \<and> (pr_eof s \<longrightarrow> child_at s = CDead \<and> pr_pipe s = 0)
     \<and> file_ok (pe_room e) b (HALF * pr_stored s + in_progress (pr_eof s) (parent_at s)) (pr_eof s) (pr_file s)"

lemma child_ok_later: "child_ok b T n lm buf c \<Longrightarrow> T \<le> T' \<Longrightarrow> child_ok b T' n lm buf c"
  by (cases c) simp_all

lemma pr_inv_later: "pr_inv e b T s \<Longrightarrow> T \<le> T' \<Longrightarrow> pr_inv e b T' s"
  by (auto simp: pr_inv_def intro: child_ok_later)

lemma chunk_bounds: "d < HALF \<Longrightarrow> 0 < chunk k d \<and> d + chunk k d \<le> HALF"
  by (auto simp: chunk_def)

lemma pr_inv_alive: "pr_inv e b T s \<Longrightarrow> child_at s \<noteq> CDead \<Longrightarrow> \<not> pr_eof s"
  by (auto simp: pr_inv_def)

section \<open>The steps of the child\<close>

lemma child_poll_inv:
  assumes "child_poll (of_u32 (word_of_nat (T mod (2 * HALF_W)))) s = Inr (u, s')" "pr_inv e b T s" "child_at s = CPoll" "T < HALF_W * (pr_taken s + 2)"
  shows "pr_inv e b T s'"
proof -
  let ?n = "pr_taken s" and ?w = "of_u32 (word_of_nat (T mod (2 * HALF_W)))"
  have c: "pr_limit s = pr_flag (even ?n)" "HALF_W * ?n \<le> T" using assms(2,3) by (simp_all add: pr_inv_def)
  note r = pr.ready_iff [OF c(2) assms(4)]
  show ?thesis
  proof (cases "half_done (pr_flag (even ?n)) ?w")
    case True
    then have T: "HALF_W * (?n + 1) \<le> T" using r by (simp split: if_splits)
    have s': "s' = s\<lparr>pr_limit := pr_flag (odd ?n), child_at := CCopy (half_off HALF_W ?n) 0\<rparr>"
      using assms(1) True c(1) by (cases "even ?n") (simp_all add: child_poll_def cm_defs pr_flag_def HALF_words)
    show ?thesis using assms(2,3) T HALF_words(3) pr_inv_alive [OF assms(2)] unfolding s' by (simp add: pr_inv_def)
  next
    case False
    then have "s' = s" using assms(1) c(1) by (simp add: child_poll_def cm_defs)
    then show ?thesis using assms(2) by simp
  qed
qed

lemma buf_ok_Suc:
  "buf_ok b f n buf \<Longrightarrow> (\<And>i. i < HALF \<Longrightarrow> buf (half_off HALF_W n + i) = b (HALF * n + i)) \<Longrightarrow> buf_ok b f (Suc n) buf"
  by (auto simp: buf_ok_def less_Suc_eq)

text \<open>A copy: the bytes come from the right half of the FPGA's buffer, and do not touch the half the parent may still be reading.\<close>

lemma child_copy_inv:
  assumes "child_copy ram k off d s = Inr (u, s')" "pr_inv e b T s" "child_at s = CCopy off d"
    and "ring_holds HALF_W b T ram" "T < HALF_W * (pr_taken s + 2)" "pr_taken s \<le> Suc (pr_stored s)"
  shows "pr_inv e b T s'"
proof -
  let ?n = "pr_taken s" and ?m = "chunk k d"
  let ?buf = "\<lambda>i. if off + d \<le> i \<and> i < off + d + ?m then ram i else pr_buf s i"
  have c: "HALF_W * (?n + 1) \<le> T" "off = half_off HALF_W ?n" "d < HALF" "\<forall>i < d. pr_buf s (off + i) = b (HALF * ?n + i)"
      "pr_limit s = pr_flag (odd ?n)"
    using assms(2,3) by (auto simp: pr_inv_def)
  note m = chunk_bounds [OF c(3), of k]
  have new: "?buf (off + i) = b (HALF * ?n + i)" if i: "i < d + ?m" for i
  proof (cases "i < d")
    case False
    have "8 * HALF_W * ?n + i < 8 * T" using c(1) i m by (simp add: HALF_words(1) algebra_simps)
    then have "ram (half_off HALF_W ?n + i) = b (8 * HALF_W * ?n + i)"
      using half_byte [OF assms(4), of ?n i] assms(5) i m by (simp add: HALF_words(1))
    then show ?thesis using False i by (simp add: c(2) HALF_words(1))
  qed (use c(4) in simp)
  have old: "buf_ok b (pr_stored s) ?n ?buf"
    unfolding buf_ok_def
  proof clarify
    fix q i assume q: "pr_stored s \<le> q" "q < ?n" "i < HALF"
    then have "?n = Suc q" using assms(6) by simp
    then have o: "half_off HALF_W q + i < off + d \<or> off + d + ?m \<le> half_off HALF_W q + i"
      using m q(3) c(2) by (cases "even q") (auto simp: HALF_words(1))
    have "pr_buf s (half_off HALF_W q + i) = b (HALF * q + i)" using assms(2) q by (simp add: pr_inv_def buf_ok_def)
    then show "?buf (half_off HALF_W q + i) = b (HALF * q + i)" using o by auto
  qed
  note eof = pr_inv_alive [OF assms(2)]
  show ?thesis
  proof (cases "d + ?m = HALF")
    case True
    then have s': "s' = s\<lparr>pr_buf := ?buf, child_at := CSend, pr_taken := Suc ?n\<rparr>"
      using assms(1) by (simp add: child_copy_def cm_defs Let_def)
    have "buf_ok b (pr_stored s) (Suc ?n) ?buf"
    proof (rule buf_ok_Suc [OF old])
      fix i assume "i < HALF"
      then show "?buf (half_off HALF_W ?n + i) = b (HALF * ?n + i)" using new [of i] True unfolding c(2) by simp
    qed
    then show ?thesis using assms(2,3) c(1,5) eof unfolding s' by (simp add: pr_inv_def)
  next
    case False
    then have s': "s' = s\<lparr>pr_buf := ?buf, child_at := CCopy off (d + ?m)\<rparr>"
      using assms(1) by (simp add: child_copy_def cm_defs Let_def)
    have "child_ok b T ?n (pr_limit s) ?buf (CCopy off (d + ?m))" using c(1,3,5) new m False by (simp add: c(2) [symmetric])
    then show ?thesis using assms(2,3) eof old unfolding s' by (simp add: pr_inv_def del: child_ok.simps)
  qed
qed

lemma child_send_inv:
  assumes "child_send s = Inr (u, s')" "pr_inv e b T s" "child_at s = CSend"
  shows "pr_inv e b T s'"
  using assms pr_inv_alive [OF assms(2)] by (auto simp: child_send_def cm_defs pr_inv_def split: if_splits)

lemma child_inv:
  assumes "child_step e w ram k s = Inr (u, s')" "pr_inv e b T s" "on_time b T (Child w ram k) s"
  shows "pr_inv e b T s'"
proof (cases "child_at s")
  case CPoll
  then show ?thesis using assms child_poll_inv [OF _ assms(2) CPoll]
    by (auto simp: child_step_def bind_c_def get_c_def on_time_def stop_c_def split: if_splits)
next
  case (CCopy off d)
  then show ?thesis using assms child_copy_inv [OF _ assms(2) CCopy]
    by (auto simp: child_step_def bind_c_def get_c_def on_time_def)
next
  case CSend
  then show ?thesis using assms child_send_inv [OF _ assms(2) CSend] by (simp add: child_step_def bind_c_def get_c_def)
next
  case CDead
  then show ?thesis using assms by (simp add: child_step_def cm_defs)
qed

section \<open>The steps of the parent\<close>

lemma stored_more:
  "map b [0..<HALF * n + d] @ map b [HALF * n + d..<HALF * n + d + m] = map b [0..<HALF * n + (d + m)]"
  using upt_add_eq_append [of 0 "HALF * n + d" m] by (simp add: add.assoc)

lemma parent_read_inv:
  assumes "parent_read off s = Inr (u, s')" "pr_inv e b T s" "parent_at s = PRead off"
  shows "pr_inv e b T s'"
proof (cases "0 < pr_pipe s")
  case True
  then have "\<not> pr_eof s" using assms(2) by (auto simp: pr_inv_def)
  then show ?thesis using True assms by (auto simp: parent_read_def cm_defs pr_inv_def HALF_words)
next
  case False
  then show ?thesis using assms by (auto simp: parent_read_def cm_defs pr_inv_def file_ok_def split: if_splits)
qed

lemma token_waiting: "tokens_ok n (k + (f + token_held False (PWrite off d))) c \<Longrightarrow> f < n"
  by (cases c) auto

lemma file_more:
  assumes "file_ok r b len False xs" "ys = map b [len..<len + m]"
  shows "file_ok r b (len + m) False (xs @ take (r - length xs) ys)"
  using assms take_more [of r "map b [0..<len]" ys] upt_add_eq_append [of 0 len m] by (simp add: file_ok_def)

lemma file_rest: "file_ok r b len True xs \<Longrightarrow> file_ok r b len True (xs @ take (r - length xs) ys)"
  unfolding file_ok_def by (elim exE conjE) (simp only: take_more append_assoc, blast)

lemma parent_write_inv:
  assumes "parent_write e k off d s = Inr (u, s')" "pr_inv e b T s" "parent_at s = PWrite off d"
  shows "pr_inv e b T s'"
proof -
  let ?n = "pr_stored s" and ?m = "chunk k d"
  let ?new = "map (pr_buf s) [off + d..<off + d + ?m]"
  define F where "F = pr_file s @ take (pe_room e - length (pr_file s)) ?new"
  have s': "s' = (if d + ?m = HALF then s\<lparr>pr_file := F, parent_at := (if off = 0 then PRead HALF else PCheck),
        pr_stored := (if pr_eof s then ?n else Suc ?n)\<rparr> else s\<lparr>pr_file := F, parent_at := PWrite off (d + ?m)\<rparr>)"
    using assms(1) by (auto simp: parent_write_def cm_defs Let_def F_def split: if_splits)
  have f: "file_ok (pe_room e) b (HALF * ?n + in_progress (pr_eof s) (PWrite off d)) (pr_eof s) (pr_file s)"
    using assms(2,3) by (simp add: pr_inv_def)
  show ?thesis
  proof (cases "pr_eof s")
    case True
    then have "file_ok (pe_room e) b (HALF * ?n) True F" using f unfolding F_def by (simp add: file_rest)
    then show ?thesis using True assms(2,3) unfolding s' by (auto simp: pr_inv_def)
  next
    case False
    have p: "off = half_off HALF_W ?n" "d < HALF" using assms(2,3) False by (simp_all add: pr_inv_def)
    note m = chunk_bounds [OF p(2), of k]
    have q: "?n < pr_taken s" using assms(2,3) False by (intro token_waiting [of _ "pr_pipe s" _ off d "child_at s"]) (simp add: pr_inv_def)
    have "?new = map b [HALF * ?n + d..<HALF * ?n + d + ?m]"
    proof (rule nth_equalityI)
      fix i
      assume "i < length ?new"
      then have i: "d + i < HALF" "i < ?m" using m by simp_all
      then have "pr_buf s (half_off HALF_W ?n + (d + i)) = b (HALF * ?n + (d + i))" using assms(2) q by (simp add: pr_inv_def buf_ok_def)
      then show "?new ! i = map b [HALF * ?n + d..<HALF * ?n + d + ?m] ! i" using i p(1) by (simp add: add.assoc)
    qed simp
    then have new: "file_ok (pe_room e) b (HALF * ?n + (d + ?m)) False F"
      using file_more [of "pe_room e" b "HALF * ?n + d" "pr_file s" ?new ?m] f False unfolding F_def by (simp add: add.assoc)
    then have full: "file_ok (pe_room e) b (HALF + HALF * ?n) False F" if "d + ?m = HALF" using that by (simp add: add.commute)
    have later: "buf_ok b (Suc ?n) (pr_taken s) (pr_buf s)" using assms(2) by (auto simp: pr_inv_def buf_ok_def)
    have "off = 0 \<longleftrightarrow> even ?n" using p(1) HALF_words by (cases "even ?n") simp_all
    then have side: "parent_ok (Suc ?n) (if off = 0 then PRead HALF else PCheck)" "token_held False (if off = 0 then PRead HALF else PCheck) = 0"
        "in_progress False (if off = 0 then PRead HALF else PCheck) = 0"
      by (auto simp: HALF_words(1))
    show ?thesis using assms(2,3) False p m new full later side unfolding s' by (simp add: pr_inv_def)
  qed
qed

lemma tokens_dead: "pr_inv e b T s \<Longrightarrow> tokens_ok (pr_taken s) (pr_pipe s + (pr_stored s + token_held (pr_eof s) (parent_at s))) CDead"
  by (cases "child_at s") (auto simp: pr_inv_def)

lemma parent_other_inv:
  assumes "parent_step e number k s = Inr (u, s')" "pr_inv e b T s" "parent_at s \<in> {PSetup, PCheck} \<or> parent_at s = PDone r"
  shows "pr_inv e b T s'"
  using assms tokens_dead [OF assms(2)]
  by (auto simp: parent_step_def parent_setup_def parent_finish_def cm_defs pr_inv_def split: if_splits)

lemma parent_inv:
  assumes "parent_step e number k s = Inr (u, s')" "pr_inv e b T s"
  shows "pr_inv e b T s'"
  using assms parent_read_inv [OF _ assms(2)] parent_write_inv [OF _ assms(2)] parent_other_inv [OF assms]
  by (cases "parent_at s") (auto simp: parent_step_def bind_c_def get_c_def)

lemma signal_inv:
  assumes "pr_signal p c s = Inr (u, s')" "pr_inv e b T s"
  shows "pr_inv e b T s'"
  using assms tokens_dead [OF assms(2)] by (auto simp: pr_signal_def cm_defs pr_inv_def split: if_splits)

lemma pr_step_inv:
  assumes "pr_step e number ev s = Inr (u, s')" "pr_inv e b T s" "on_time b T ev s"
  shows "pr_inv e b T s'"
  using assms by (cases ev) (auto intro: child_inv parent_inv signal_inv)

lemma pr_run_inv:
  "keeps_up e number b T evs s \<Longrightarrow> pr_inv e b T s \<Longrightarrow> for_c (map snd evs) (pr_step e number) s = Inr (u, s') \<Longrightarrow> \<exists>T'. pr_inv e b T' s'"
proof (induction evs arbitrary: s T)
  case (Cons ev evs)
  obtain T1 ev1 where ev: "ev = (T1, ev1)" by (cases ev)
  with Cons.prems(3) obtain v t where t: "pr_step e number ev1 s = Inr (v, t)" "for_c (map snd evs) (pr_step e number) t = Inr (u, s')"
    by (auto split: sum.splits)
  have k: "T \<le> T1" "on_time b T1 ev1 s" "keeps_up e number b T1 evs t" using Cons.prems(1) t(1) by (simp_all add: ev)
  show ?case using Cons.IH [OF k(3) _ t(2)] pr_step_inv [OF t(1) pr_inv_later [OF Cons.prems(2) k(1)] k(2)] .
qed auto

lemma pr_reset:
  "pres (\<lambda>s. \<forall>r. parent_at s = PDone r \<longrightarrow> r = 0 \<and> pr_rst s AND 3 = 0) (pr_step e number ev)"
  by (cases ev)
    (auto simp: pres_def child_step_def child_poll_def child_copy_def child_send_def parent_step_def parent_setup_def parent_finish_def
      parent_read_def parent_write_def pr_signal_def cm_defs Let_def and.assoc split: if_splits child_pc.splits parent_pc.splits)

definition pr_fresh :: "'a pipe_rec_scheme \<Rightarrow> bool" where
  "pr_fresh s \<longleftrightarrow> pr_pipe s = 0 \<and> pr_file s = [] \<and> pr_taken s = 0 \<and> pr_stored s = 0 \<and> \<not> pr_eof s"

definition pr_started :: "'a pipe_rec_scheme \<Rightarrow> 'a pipe_rec_scheme" where
  "pr_started s = s\<lparr>pr_limit := 512 * 1024, child_at := CPoll, parent_at := PSetup\<rparr>"

lemma pr_started_inv: "pr_fresh s \<Longrightarrow> pr_inv e b 0 (pr_started s)"
  by (simp add: pr_fresh_def pr_started_def pr_inv_def pr_flag_def buf_ok_def file_ok_def)

text \<open>
  The end: after a signal from the keyboard the child is gone, and the parent needs at most the rest of a round, here with
  writes that take all that is left.
\<close>

lemma pr_parent_in_range:
  "pres (\<lambda>s. (\<forall>off d. parent_at s = PWrite off d \<longrightarrow> d < HALF) \<and> (\<forall>r. parent_at s = PDone r \<longrightarrow> r = 0)) (pr_step e number ev)"
  by (cases ev)
    (auto simp: pres_def child_step_def child_poll_def child_copy_def child_send_def parent_step_def parent_setup_def parent_read_def
      parent_write_def parent_finish_def pr_signal_def cm_defs Let_def HALF_words chunk_def split: if_splits parent_pc.splits child_pc.splits)

lemma pr_done_stays: "parent_at s = PDone r \<Longrightarrow> for_c (replicate n (Parent k)) (pr_step e number) s = Inr ((), s)"
  by (induction n) (simp_all add: parent_step_def cm_defs)

lemma pr_round_ends:
  assumes "pe_fopen e" "pr_interrupted s" "child_at s = CDead" "parent_at s \<noteq> PSetup"
    and "\<forall>off d. parent_at s = PWrite off d \<longrightarrow> d < HALF" "\<forall>r. parent_at s = PDone r \<longrightarrow> r = 0"
  shows "\<exists>s'. for_c (replicate 5 (Parent HALF)) (pr_step e number) s = Inr ((), s') \<and> parent_at s' = PDone 0"
proof (cases "parent_at s")
  case (PWrite off d)
  have "chunk HALF d = HALF - d" "d + (HALF - d) = HALF" "d < HALF" using assms(5) PWrite by (simp_all add: chunk_def HALF_words)
  then show ?thesis using assms PWrite HALF_words(3)
    by (auto simp: numeral_eq_Suc parent_step_def parent_read_def parent_write_def parent_finish_def chunk_def cm_defs Let_def)
next
  case (PDone r)
  then show ?thesis using pr_done_stays assms(6) by blast
qed (use assms HALF_words(3) in \<open>auto simp: numeral_eq_Suc parent_step_def parent_read_def parent_write_def parent_finish_def chunk_def cm_defs Let_def\<close>)

text \<open>
  C12. The file of the two processes, for every interleaving of their steps and every signal, with copies of any size: when
  the program returns the converters are in reset, and as long as the child was on time and did not run into the half
  the parent was storing, the file (cut at the room there is) holds the stream of bytes from the start, without gap or
  repetition: an even number of halves when the child lived until the parent killed it; otherwise all halves the child
  sent a token for, followed by what the parent wrote after the end of the pipe, which is not new data.  And it does return: after
  any run, a signal that reaches both processes and the rest of a round of the parent end the program.
\<close>

theorem pipe_file_is_stream:
  fixes s :: "'a pipe_rec_scheme"
  assumes "length argv = 3" "rec_number 10 65535 (argv ! 1) = Some number" "0 \<le> pe_mem e" "pe_pipe e" "pe_fork e" "pe_fopen e" "pr_fresh s"
  shows "(pr_main e argv (map snd evs) s = Inr (0, s') \<and> keeps_up e number b 0 evs (pr_started s) \<longrightarrow>
      pr_rst s' AND 3 = 0 \<and> (\<exists>rest. pr_file s' = take (pe_room e) (map b [0..<HALF * pr_stored s'] @ rest)
      \<and> (if pr_eof s' then pr_taken s' \<le> Suc (pr_stored s') else rest = [] \<and> even (pr_stored s'))))
    \<and> (for_c run (pr_step e number) (pr_started s) = Inr ((), t) \<and> parent_at t \<noteq> PSetup \<longrightarrow>
      (\<exists>u. pr_main e argv (run @ Signal True True # replicate 5 (Parent HALF)) s = Inr (0, u)))"
proof (intro conjI impI)
  assume a: "pr_main e argv (map snd evs) s = Inr (0, s') \<and> keeps_up e number b 0 evs (pr_started s)"
  obtain u where r: "for_c (map snd evs) (pr_step e number) (pr_started s) = Inr (u, s')" "parent_at s' = PDone 0"
    using a assms by (auto simp: pr_main_def cm_defs pr_started_def split: sum.splits parent_pc.splits)
  obtain T where T: "pr_inv e b T s'" using pr_run_inv [OF conjunct2 [OF a] pr_started_inv [OF assms(7)] r(1)] by blast
  have "\<forall>r. parent_at (pr_started s) = PDone r \<longrightarrow> r = 0 \<and> pr_rst (pr_started s) AND 3 = 0" by (simp add: pr_started_def)
  then show "pr_rst s' AND 3 = 0" using presD [OF pres_for [OF pr_reset] r(1)] r(2) by blast
  show "\<exists>rest. pr_file s' = take (pe_room e) (map b [0..<HALF * pr_stored s'] @ rest)
      \<and> (if pr_eof s' then pr_taken s' \<le> Suc (pr_stored s') else rest = [] \<and> even (pr_stored s'))"
    using T r(2) by (auto simp: pr_inv_def file_ok_def)
next
  assume r: "for_c run (pr_step e number) (pr_started s) = Inr ((), t) \<and> parent_at t \<noteq> PSetup"
  let ?P = "\<lambda>s :: 'a pipe_rec_scheme. (\<forall>off d. parent_at s = PWrite off d \<longrightarrow> d < HALF) \<and> (\<forall>r. parent_at s = PDone r \<longrightarrow> r = 0)"
  let ?t = "t\<lparr>child_at := CDead, pr_interrupted := True\<rparr>"
  have "?P t" using presD [OF pres_for [OF pr_parent_in_range] conjunct1 [OF r]] by (simp add: pr_started_def)
  then obtain u where u: "for_c (replicate 5 (Parent HALF)) (pr_step e number) ?t = Inr ((), u)" "parent_at u = PDone 0"
    using pr_round_ends [of e ?t number] r assms(6) by auto
  have "pr_step e number (Signal True True) t = Inr ((), ?t)" using r by (simp add: pr_signal_def cm_defs)
  then have "for_c (run @ Signal True True # replicate 5 (Parent HALF)) (pr_step e number) (pr_started s) = Inr ((), u)"
    using r u(1) by (simp add: for_c_append then_c_def del: pr_step.simps)
  then show "\<exists>u. pr_main e argv (run @ Signal True True # replicate 5 (Parent HALF)) s = Inr (0, u)"
    using u(2) assms by (simp add: pr_main_def then_c_def bind_c_def get_c_def mod_c_def ret_c_def pr_started_def)
qed

definition penv0 :: penv where
  "penv0 = \<lparr>pe_mem = 3, pe_maps = True, pe_pipe = True, pe_fork = True, pe_fopen = True, pe_room = 10\<rparr>"

definition pipe_rec0 :: pipe_rec where
  "pipe_rec0 = \<lparr>c_out = [], c_err = [], pr_interrupted = False, pr_rst = 0, pr_factor = 0, pr_limit = 0, pr_buf = (\<lambda>_. 0), pr_pipe = 0,
     pr_file = [], child_at = CPoll, parent_at = PSetup, pr_taken = 0, pr_stored = 0, pr_eof = False\<rparr>"

text \<open>One half is copied and stored; then the signal reaches both processes.\<close>

definition pr_run0 :: "(nat \<times> pr_ev) list" where
  "pr_run0 = (let ram = (\<lambda>_. 7); T = HALF_W + 1; w = word_of_nat (T mod (2 * HALF_W)) in
     [(0, Parent 0), (0, Parent 0), (0, Child 0 ram 0), (T, Child w ram 0), (T, Child w ram HALF), (T, Child w ram 0),
      (T, Parent 0), (T, Parent HALF), (T, Signal True True), (T, Parent 0), (T, Parent HALF), (T, Parent 0)])"

lemma chunk_all: "chunk HALF 0 = HALF"
  by (simp add: chunk_def HALF_def)

theorem pipe_file_is_stream_witness:
  "\<exists>s'. pr_main penv0 [''adc-recorder'', ''64'', ''data''] (map snd pr_run0) pipe_rec0 = Inr (0, s') \<and> pr_stored s' = 1 \<and> pr_eof s'
    \<and> (\<exists>rest. pr_file s' = take 10 (map (\<lambda>_. 7) [0..<HALF] @ rest))
    \<and> (\<exists>u. pr_main penv0 [''adc-recorder'', ''64'', ''data''] ([Parent 0] @ Signal True True # replicate 5 (Parent HALF)) pipe_rec0 = Inr (0, u))"
proof -
  let ?argv = "[''adc-recorder'', ''64'', ''data'']"
  have n: "rec_number 10 65535 (?argv ! 1) = Some 64" by code_simp
  have f: "pr_fresh pipe_rec0" "pe_fork penv0" by (simp_all add: pr_fresh_def pipe_rec0_def penv0_def)
  have u: "of_u32 (word_of_nat ((HALF_W + 1) mod (2 * HALF_W))) = 524289" by (simp add: HALF_W_def of_u32_def)
  have words: "Suc 0 < HALF_W" by (simp add: HALF_W_def)
  have "\<exists>s'. pr_main penv0 ?argv (map snd pr_run0) pipe_rec0 = Inr (0, s') \<and> pr_stored s' = 1 \<and> pr_eof s'"
    using n u HALF_words(3)
    by (simp add: pr_main_def penv0_def pipe_rec0_def pr_run0_def Let_def cm_defs child_step_def child_poll_def half_done_def of_u32_def
        child_copy_def chunk_all child_send_def PIPE_MAX_def parent_step_def parent_setup_def parent_read_def parent_write_def parent_finish_def pr_signal_def)
  then obtain s' where r: "pr_main penv0 ?argv (map snd pr_run0) pipe_rec0 = Inr (0, s')" "pr_stored s' = 1" "pr_eof s'" by blast
  have "keeps_up penv0 64 (\<lambda>_. 7) 0 pr_run0 (pr_started pipe_rec0)"
    using u HALF_words(3) words
    by (simp add: pr_started_def on_time_def ring_holds_def penv0_def pipe_rec0_def pr_run0_def Let_def cm_defs child_step_def child_poll_def half_done_def of_u32_def
        child_copy_def chunk_all child_send_def PIPE_MAX_def parent_step_def parent_setup_def parent_read_def parent_write_def parent_finish_def pr_signal_def)
  then have "\<exists>rest. pr_file s' = take 10 (map (\<lambda>_. 7) [0..<HALF] @ rest)"
    using pipe_file_is_stream [where e = penv0 and evs = pr_run0 and s = pipe_rec0 and argv = ?argv and number = 64 and s' = s' and b = "\<lambda>_. 7"]
      r n f by (auto simp: penv0_def)
  moreover have "\<exists>t. for_c [Parent 0] (pr_step penv0 64) (pr_started pipe_rec0) = Inr ((), t) \<and> parent_at t \<noteq> PSetup"
    by (simp add: pr_started_def penv0_def parent_step_def parent_setup_def cm_defs)
  then have "\<exists>u. pr_main penv0 ?argv ([Parent 0] @ Signal True True # replicate 5 (Parent HALF)) pipe_rec0 = Inr (0, u)"
    using pipe_file_is_stream [where e = penv0 and run = "[Parent 0]" and s = pipe_rec0 and argv = ?argv and number = 64] n f by (auto simp: penv0_def)
  ultimately show ?thesis using r by blast
qed

section \<open>What the program does not handle\<close>

text \<open>
  The result of \<open>read\<close> is not looked at: once the child is gone and the pipe empty, a parent nobody interrupts writes the same two halves
  for ever.
\<close>

lemma dead_child_unnoticed:
  assumes "for_c (map Parent ks) (pr_step e number) s = Inr (u, s')" "child_at s = CDead" "pr_pipe s = 0"
    and "\<not> pr_interrupted s" "\<forall>r. parent_at s \<noteq> PDone r"
  shows "\<forall>r. parent_at s' \<noteq> PDone r"
proof -
  let ?I = "\<lambda>s. child_at s = CDead \<and> pr_pipe s = 0 \<and> \<not> pr_interrupted s \<and> (\<forall>r. parent_at s \<noteq> PDone r)"
  have "pres ?I (pr_step e number (Parent k))" for k
    by (auto simp: pres_def parent_step_def parent_setup_def parent_read_def parent_write_def cm_defs Let_def split: if_splits parent_pc.splits)
  then have "pres ?I (for_c (map Parent ks) (pr_step e number))" by (intro pres_for) auto
  then show ?thesis using presD [of ?I _ s u s'] assms by blast
qed

end
