(* ===== verification/Dac_Player.thy ===== *)
theory Dac_Player
  imports Adc_Recorder
begin

text \<open>
  The player \<^verbatim>\<open>projects/dac_player/app/dac-player.c\<close>: it reads a file in blocks of 64 kB and writes them as 64-bit words to
  the FIFO of the converters, whenever that is at most half full.  Its first version, which copies bytes, is at the end.
\<close>

type_synonym u64 = "64 word"

section \<open>State\<close>

text \<open>Before the loop condition, before a read of the fill level with the bytes of a block, or returned.\<close>

datatype player_pc = PTop | PWait "u8 list" | PEnd int

text \<open>
  The words written to the FIFO are kept in \<open>dp_fifo\<close>, and for each block the level seen before it and the number of its words in \<open>dp_bursts\<close>.
\<close>

record player = cio +
  dp_interrupted :: bool
  dp_rate :: u16
  dp_rest :: "u8 list"
  dp_at :: player_pc
  dp_fifo :: "u64 list"
  dp_bursts :: "(u32 \<times> nat) list"
  dp_naps :: nat

text \<open>The file is \<open>None\<close> when it does not open.\<close>

record dpenv =
  dp_mem :: int
  dp_maps :: bool
  dp_open :: "u8 list option"

section \<open>The loop\<close>

text \<open>\<open>buffer[i]\<close> for \<open>i < size / 8\<close>; the bytes of a last incomplete word are not used.\<close>

definition le64 :: "u8 list \<Rightarrow> u64" where
  "le64 xs = word_of_nat (sum_list (map (\<lambda>i. unat (xs ! i) * 256 ^ i) [0..<8]))"

function words64 :: "u8 list \<Rightarrow> u64 list" where
  "words64 xs = (if length xs < 8 then [] else le64 (take 8 xs) # words64 (drop 8 xs))"
  by pat_completeness auto
termination
  by (relation "measure length") auto

declare words64.simps [simp del]

definition player_top :: "dpenv \<Rightarrow> ('a player_scheme, unit) cm" where
  "player_top e = bind_c (get_c (\<lambda>s. (dp_interrupted s, dp_rest s))) (\<lambda>(i, rest).
     if i then mod_c (\<lambda>s. s\<lparr>dp_at := PEnd 0\<rparr>)
     else if dp_open e = None then stop_c NullDeref
     else if rest = [] then mod_c (\<lambda>s. s\<lparr>dp_at := PEnd 0\<rparr>)
     else mod_c (\<lambda>s. s\<lparr>dp_rest := drop 65536 rest, dp_at := PWait (take 65536 rest)\<rparr>))"

definition player_wait :: "dpenv \<Rightarrow> u32 \<Rightarrow> u8 list \<Rightarrow> ('a player_scheme, unit) cm" where
  "player_wait e level buf = (if \<not> dp_maps e then stop_c OutOfBounds
     else if level > 16384 then mod_c (\<lambda>s. s\<lparr>dp_naps := Suc (dp_naps s)\<rparr>)
     else mod_c (\<lambda>s. s\<lparr>dp_fifo := dp_fifo s @ words64 buf, dp_bursts := dp_bursts s @ [(level, length (words64 buf))], dp_at := PTop\<rparr>))"

text \<open>A step of the program, with the fill level it would read, or the signal.\<close>

datatype player_ev = PStep u32 | PSig

fun player_step :: "dpenv \<Rightarrow> player_ev \<Rightarrow> ('a player_scheme, unit) cm" where
  "player_step e PSig = mod_c (\<lambda>s. s\<lparr>dp_interrupted := True\<rparr>)"
| "player_step e (PStep level) = bind_c (get_c dp_at) (\<lambda>p. case p of
       PTop \<Rightarrow> player_top e | PWait buf \<Rightarrow> player_wait e level buf | PEnd r \<Rightarrow> ret_c ())"

section \<open>main\<close>

definition player_usage :: "('a player_scheme, unit) cm" where
  "player_usage = (let nl = [CHR 0x0A] in seq_c [
     eprintf (''Usage: dac-player rate file'' @ nl),
     eprintf ('' rate - interpolation rate (16 - 16384),'' @ nl),
     eprintf ('' file - input file.'' @ nl)])"

text \<open>With a number of arguments other than two \<open>strtol\<close> is not called, and \<open>end\<close> is compared without a value.\<close>

definition player_main :: "dpenv \<Rightarrow> string list \<Rightarrow> player_ev list \<Rightarrow> ('a player_scheme, int) cm" where
  "player_main e argv evs =
     (if dp_mem e < 0 then then_c (eprintf ''open'') (ret_c 1)
      else if length argv \<noteq> 3 then stop_c Uninit
      else case rec_number 16 16384 (argv ! 1) of None \<Rightarrow> then_c player_usage (ret_c 1)
      | Some number \<Rightarrow>
         if \<not> dp_maps e then stop_c OutOfBounds
         else then_c (mod_c (\<lambda>s. s\<lparr>dp_rate := word_of_int (number div 2), dp_rest := (case dp_open e of None \<Rightarrow> [] | Some f \<Rightarrow> f), dp_at := PTop\<rparr>))
           (then_c (for_c evs (player_step e))
           (bind_c (get_c dp_at) (\<lambda>p. case p of PEnd r \<Rightarrow> ret_c r | _ \<Rightarrow> stop_c Blocked))))"

section \<open>The words of a file\<close>

lemma words64_short: "length xs < 8 \<Longrightarrow> words64 xs = []"
  by (simp add: words64.simps [of xs])

lemma length_words64: "length (words64 xs) = length xs div 8"
proof (induction xs rule: words64.induct)
  case (1 xs)
  then show ?case by (simp add: words64.simps [of xs] le_div_geq)
qed

text \<open>Blocks of whole words can be taken apart.\<close>

lemma words64_append: "8 dvd length xs \<Longrightarrow> words64 (xs @ ys) = words64 xs @ words64 ys"
proof (induction xs rule: words64.induct)
  case (1 xs)
  show ?case
  proof (cases "xs = []")
    case False
    then have l: "\<not> length xs < 8" using 1(2) by (auto dest: dvd_imp_le)
    then have "8 dvd length (drop 8 xs)" using 1(2) by (simp add: dvd_diff_nat)
    from 1(1) [OF l this] show ?thesis using l by (simp add: words64.simps [of "xs @ ys"] words64.simps [of xs])
  qed (simp add: words64_short)
qed

section \<open>The file is played\<close>

definition player_inv :: "u8 list \<Rightarrow> 'a player_scheme \<Rightarrow> bool" where
  "player_inv data s \<longleftrightarrow> (\<exists>k. dp_rest s = drop (65536 * k) data
       \<and> dp_fifo s @ (case dp_at s of PWait buf \<Rightarrow> words64 buf | _ \<Rightarrow> []) = words64 (take (65536 * k) data))
     \<and> (case dp_at s of PWait buf \<Rightarrow> length buf \<le> 65536 | PEnd r \<Rightarrow> r = 0 \<and> (dp_interrupted s \<or> dp_rest s = []) | PTop \<Rightarrow> True)
     \<and> (\<forall>(level, n) \<in> set (dp_bursts s). level \<le> 16384 \<and> n \<le> 8192)"

lemma block_step:
  assumes "drop (65536 * k) data \<noteq> []"
  shows "words64 (take (65536 * k) data) @ words64 (take 65536 (drop (65536 * k) data)) = words64 (take (65536 * Suc k) data)"
proof -
  have l: "length (take (65536 * k) data) = 65536 * k" using assms by simp
  have "(8 :: nat) dvd 65536 * k" by (rule dvd_mult2) simp
  then have "words64 (take (65536 * k) data @ take 65536 (drop (65536 * k) data)) =
      words64 (take (65536 * k) data) @ words64 (take 65536 (drop (65536 * k) data))"
    using l by (intro words64_append) simp
  then show ?thesis by (simp add: take_add [symmetric] add.commute)
qed

lemma player_step_inv: "pres (player_inv data) (player_step e ev)"
proof (cases ev)
  case PSig
  then show ?thesis by (auto simp: pres_def cm_defs player_inv_def split: player_pc.splits)
next
  case (PStep level)
  have "player_inv data s'" if st: "player_step e ev s = Inr (u, s')" and inv: "player_inv data s" for u and s s' :: "'a player_scheme"
  proof (cases "dp_at s")
    case PTop
    obtain k where k: "dp_rest s = drop (65536 * k) data" "dp_fifo s = words64 (take (65536 * k) data)"
      using inv PTop by (auto simp: player_inv_def)
    show ?thesis
    proof (cases "dp_interrupted s \<or> dp_rest s = []")
      case True
      then have "s' = s\<lparr>dp_at := PEnd 0\<rparr>" using st PStep PTop by (auto simp: player_top_def cm_defs split: if_splits)
      then show ?thesis using True inv PTop by (simp add: player_inv_def)
    next
      case False
      then have s': "s' = s\<lparr>dp_rest := drop 65536 (dp_rest s), dp_at := PWait (take 65536 (dp_rest s))\<rparr>"
        using st PStep PTop by (auto simp: player_top_def cm_defs split: if_splits)
      have "dp_rest s' = drop (65536 * Suc k) data" "dp_fifo s' @ words64 (take 65536 (dp_rest s)) = words64 (take (65536 * Suc k) data)"
        using block_step [of k data] False k by (simp_all add: s' add.commute)
      then have "\<exists>k. dp_rest s' = drop (65536 * k) data \<and> dp_fifo s' @ words64 (take 65536 (dp_rest s)) = words64 (take (65536 * k) data)" by blast
      then show ?thesis using inv by (simp add: player_inv_def s')
    qed
  next
    case (PWait buf)
    then have s': "s' = s\<lparr>dp_naps := Suc (dp_naps s)\<rparr> \<or> level \<le> 16384 \<and>
        s' = s\<lparr>dp_fifo := dp_fifo s @ words64 buf, dp_bursts := dp_bursts s @ [(level, length (words64 buf))], dp_at := PTop\<rparr>"
      using st PStep by (auto simp: player_wait_def cm_defs split: if_splits)
    have "length (words64 buf) \<le> 8192" using inv PWait div_le_mono [of "length buf" 65536 8] by (simp add: player_inv_def length_words64)
    then show ?thesis using s' inv PWait by (auto simp: player_inv_def)
  next
    case (PEnd r)
    then show ?thesis using st PStep inv by (auto simp: cm_defs)
  qed
  then show ?thesis by (auto simp: pres_def)
qed

text \<open>With no signal and a FIFO that is never more than half full it returns: two steps for a block, and one for the end.\<close>

lemma player_ended: "dp_at s = PEnd 0 \<Longrightarrow> for_c (map PStep ls) (player_step e) s = Inr ((), s)"
  by (induction ls) (simp_all add: cm_defs)

lemma player_returns:
  assumes "dp_maps e" "dp_open e \<noteq> None"
  shows "dp_at s = PTop \<Longrightarrow> \<not> dp_interrupted s \<Longrightarrow> length (dp_rest s) \<le> 65536 * n \<Longrightarrow> \<forall>l \<in> set ls. l \<le> 16384 \<Longrightarrow> 2 * n + 1 \<le> length ls \<Longrightarrow>
    \<exists>s'. for_c (map PStep ls) (player_step e) s = Inr ((), s') \<and> dp_at s' = PEnd 0 \<and> \<not> dp_interrupted s'"
proof (induction n arbitrary: s ls)
  case 0
  then obtain l ls' where ls: "ls = l # ls'" by (cases ls) auto
  have "player_step e (PStep l) s = Inr ((), s\<lparr>dp_at := PEnd 0\<rparr>)" using 0 assms by (auto simp: player_top_def cm_defs)
  then show ?case using player_ended [of "s\<lparr>dp_at := PEnd 0\<rparr>" ls' e] 0(2) by (simp add: ls del: player_step.simps)
next
  case (Suc n)
  obtain l l' ls' where ls: "ls = l # l' # ls'" using Suc.prems(5) by (cases ls; cases "tl ls") auto
  show ?case
  proof (cases "dp_rest s = []")
    case True
    have "player_step e (PStep l) s = Inr ((), s\<lparr>dp_at := PEnd 0\<rparr>)" using True Suc.prems assms by (auto simp: player_top_def cm_defs)
    then show ?thesis using player_ended [of "s\<lparr>dp_at := PEnd 0\<rparr>" "l' # ls'" e] Suc.prems(2) by (simp add: ls del: player_step.simps)
  next
    case False
    let ?buf = "take 65536 (dp_rest s)"
    let ?t = "s\<lparr>dp_rest := drop 65536 (dp_rest s), dp_fifo := dp_fifo s @ words64 ?buf, dp_bursts := dp_bursts s @ [(l', length (words64 ?buf))], dp_at := PTop\<rparr>"
    have "for_c (map PStep ls) (player_step e) s = for_c (map PStep ls') (player_step e) ?t"
      using False Suc.prems assms by (auto simp: ls player_top_def player_wait_def cm_defs)
    moreover have "\<exists>s'. for_c (map PStep ls') (player_step e) ?t = Inr ((), s') \<and> dp_at s' = PEnd 0 \<and> \<not> dp_interrupted s'"
      using Suc.prems ls by (intro Suc.IH) simp_all
    ultimately show ?thesis by simp
  qed
qed

text \<open>
  C27. The player: for every sequence of fill levels and signals, when it returns it has written the 64-bit words of the file in order,
  all of them unless it was interrupted, and then those of a whole number of blocks; up to seven bytes at the end of
  the file, too few for a word, are never played.  Each block has at most 8192 words and starts when the FIFO
  holds at most 16384 entries.  And it returns: without a signal and with a FIFO that is at most half full, after two looks for each block of the file and one more,
  with the whole file played.
\<close>

theorem player_plays_file:
  assumes "length argv = 3" "rec_number 16 16384 (argv ! 1) = Some rate" "0 \<le> dp_mem e" "dp_maps e" "dp_open e = Some data" "dp_fifo s = []" "dp_bursts s = []"
  shows "(player_main e argv evs s = Inr (0, s') \<longrightarrow>
      (\<exists>k. dp_fifo s' = words64 (take (65536 * k) data)) \<and> (\<not> dp_interrupted s' \<longrightarrow> dp_fifo s' = words64 data)
      \<and> (\<forall>(level, n) \<in> set (dp_bursts s'). level \<le> 16384 \<and> n \<le> 8192))
    \<and> (\<not> dp_interrupted s \<and> (\<forall>l \<in> set ls. l \<le> 16384) \<and> length data \<le> 65536 * n \<and> 2 * n + 1 \<le> length ls \<longrightarrow>
      (\<exists>u. player_main e argv (map PStep ls) s = Inr (0, u) \<and> dp_fifo u = words64 data))
    \<and> length (words64 data) = length data div 8"
proof -
  let ?s = "s\<lparr>dp_rate := word_of_int (rate div 2), dp_rest := data, dp_at := PTop\<rparr>"
  have start: "player_inv data ?s" using assms(6,7) by (simp add: player_inv_def words64_short exI [of _ 0])
  have played: "(\<exists>k. dp_fifo t = words64 (take (65536 * k) data)) \<and> (\<not> dp_interrupted t \<longrightarrow> dp_fifo t = words64 data)
      \<and> (\<forall>(level, n) \<in> set (dp_bursts t). level \<le> 16384 \<and> n \<le> 8192)"
    if r: "for_c es (player_step e) ?s = Inr ((), t)" "dp_at t = PEnd 0" for es t
  proof -
    have inv: "player_inv data t" using presD [OF pres_for [OF player_step_inv] r(1) start] .
    then obtain k where k: "dp_rest t = drop (65536 * k) data" "dp_fifo t = words64 (take (65536 * k) data)"
      using r(2) by (auto simp: player_inv_def)
    have "take (65536 * k) data = data" if "dp_rest t = []" using that k(1) by simp
    then show ?thesis using inv r(2) k by (auto simp: player_inv_def)
  qed
  show ?thesis
  proof (intro conjI impI)
    assume "player_main e argv evs s = Inr (0, s')"
    then have r: "for_c evs (player_step e) ?s = Inr ((), s')" "dp_at s' = PEnd 0"
      using assms(1-5) by (auto simp: player_main_def cm_defs split: sum.splits player_pc.splits)
    note p = played [OF r]
    show "\<exists>k. dp_fifo s' = words64 (take (65536 * k) data)" "\<forall>(level, n) \<in> set (dp_bursts s'). level \<le> 16384 \<and> n \<le> 8192"
      using p by blast+
    show "dp_fifo s' = words64 data" if "\<not> dp_interrupted s'" using p that by blast
  next
    assume h: "\<not> dp_interrupted s \<and> (\<forall>l \<in> set ls. l \<le> 16384) \<and> length data \<le> 65536 * n \<and> 2 * n + 1 \<le> length ls"
    obtain u where u: "for_c (map PStep ls) (player_step e) ?s = Inr ((), u)" "dp_at u = PEnd 0" "\<not> dp_interrupted u"
      using player_returns [of e ?s n ls] h assms(4,5) by auto
    then have "player_main e argv (map PStep ls) s = Inr (0, u)"
      using assms(1-5) by (simp add: player_main_def then_c_def bind_c_def mod_c_def get_c_def ret_c_def)
    then show "\<exists>u. player_main e argv (map PStep ls) s = Inr (0, u) \<and> dp_fifo u = words64 data"
      using played [OF u(1,2)] u(3) by blast
  qed (rule length_words64)
qed

definition dpenv0 :: dpenv where
  "dpenv0 = \<lparr>dp_mem = 3, dp_maps = True, dp_open = Some [1, 0, 0, 0, 0, 0, 0, 0, 2, 1, 0, 0, 0, 0, 0, 0, 9]\<rparr>"

definition player0 :: player where
  "player0 = \<lparr>c_out = [], c_err = [], dp_interrupted = False, dp_rate = 0, dp_rest = [], dp_at = PTop, dp_fifo = [], dp_bursts = [], dp_naps = 0\<rparr>"

theorem player_plays_file_witness:
  "(\<exists>s'. player_main dpenv0 [''dac-player'', ''64'', ''f''] [PStep 0, PStep 20000, PStep 5, PStep 0] player0 = Inr (0, s')
     \<and> dp_fifo s' = [1, 258] \<and> dp_naps s' = 1 \<and> (\<forall>(level, n) \<in> set (dp_bursts s'). level \<le> 16384 \<and> n \<le> 8192))
   \<and> (\<exists>u. player_main dpenv0 [''dac-player'', ''64'', ''f''] (map PStep [0, 16384, 5]) player0 = Inr (0, u) \<and> dp_fifo u = [1, 258])"
proof -
  let ?argv = "[''dac-player'', ''64'', ''f'']" and ?evs = "[PStep 0, PStep 20000, PStep 5, PStep 0]"
  let ?data = "[1, 0, 0, 0, 0, 0, 0, 0, 2, 1, 0, 0, 0, 0, 0, 0, 9] :: u8 list"
  have n: "rec_number 16 16384 (?argv ! 1) = Some 64" by code_simp
  have w: "words64 ?data = [1, 258]" by (simp add: words64.simps le64_def upt_rec)
  have s: "dp_open dpenv0 = Some ?data" "dp_fifo player0 = []" "dp_bursts player0 = []" "0 \<le> dp_mem dpenv0" "dp_maps dpenv0" "length ?argv = 3"
    "\<not> dp_interrupted player0" by (simp_all add: dpenv0_def player0_def)
  have "\<exists>s'. player_main dpenv0 ?argv ?evs player0 = Inr (0, s') \<and> dp_naps s' = 1 \<and> \<not> dp_interrupted s'"
    using n by (simp add: player_main_def dpenv0_def player0_def cm_defs player_top_def player_wait_def)
  then obtain s' where r: "player_main dpenv0 ?argv ?evs player0 = Inr (0, s')" "dp_naps s' = 1" "\<not> dp_interrupted s'" by blast
  note t = player_plays_file [OF s(6) n s(4,5,1,2,3), where evs = ?evs and s' = s' and ls = "[0, 16384, 5]" and n = 1]
  have "\<exists>u. player_main dpenv0 ?argv (map PStep [0, 16384, 5]) player0 = Inr (0, u) \<and> dp_fifo u = [1, 258]"
    using conjunct1 [OF conjunct2 [OF t]] s(7) unfolding w by simp
  moreover have "dp_fifo s' = [1, 258] \<and> (\<forall>(level, n) \<in> set (dp_bursts s'). level \<le> 16384 \<and> n \<le> 8192)"
    using conjunct1 [OF t] r unfolding w by blast
  ultimately show ?thesis using r by blast
qed

text \<open>The wait for the FIFO does not look at the flag: as long as the FIFO stays too full, the signal has no effect.\<close>

lemma full_fifo_ignores_signal:
  "\<forall>w \<in> set ws. w > 16384 \<Longrightarrow> dp_maps e \<Longrightarrow> dp_at s = PWait buf \<Longrightarrow> dp_interrupted s \<Longrightarrow>
   \<exists>s'. for_c (map PStep ws) (player_step e) s = Inr ((), s') \<and> dp_at s' = PWait buf"
  by (induction ws arbitrary: s) (simp_all add: player_wait_def cm_defs)

section \<open>The first version\<close>

text \<open>
  \<^verbatim>\<open>projects/dac_player/dac-player.c\<close>: the same loop, but each block goes to the FIFO with \<open>memcpy\<close>, all its bytes; the factor is stored
  less one, and the usage text goes to the standard output.  \<open>op_bytes\<close> holds the bytes in the order of the blocks.
\<close>

record old_player = player +
  op_bytes :: "u8 list"

definition old_wait :: "dpenv \<Rightarrow> u32 \<Rightarrow> u8 list \<Rightarrow> ('a old_player_scheme, unit) cm" where
  "old_wait e level buf = (if \<not> dp_maps e then stop_c OutOfBounds
     else if level > 16384 then mod_c (\<lambda>s. s\<lparr>dp_naps := Suc (dp_naps s)\<rparr>)
     else mod_c (\<lambda>s. s\<lparr>op_bytes := op_bytes s @ buf, dp_bursts := dp_bursts s @ [(level, length buf)], dp_at := PTop\<rparr>))"

fun old_step :: "dpenv \<Rightarrow> player_ev \<Rightarrow> ('a old_player_scheme, unit) cm" where
  "old_step e PSig = mod_c (\<lambda>s. s\<lparr>dp_interrupted := True\<rparr>)"
| "old_step e (PStep level) = bind_c (get_c dp_at) (\<lambda>p. case p of
       PTop \<Rightarrow> player_top e | PWait buf \<Rightarrow> old_wait e level buf | PEnd r \<Rightarrow> ret_c ())"

definition old_usage :: "('a old_player_scheme, unit) cm" where
  "old_usage = (let nl = [CHR 0x0A] in seq_c [
     printf (''Usage: dac-player factor file'' @ nl),
     printf (''factor - DAC interpolation factor (10 - 65535),'' @ nl),
     printf (''file - input file.'' @ nl)])"

definition old_main :: "dpenv \<Rightarrow> string list \<Rightarrow> player_ev list \<Rightarrow> ('a old_player_scheme, int) cm" where
  "old_main e argv evs =
     (if dp_mem e < 0 then then_c (eprintf ''open'') (ret_c 1)
      else if length argv \<noteq> 3 then stop_c Uninit
      else case rec_number 10 65535 (argv ! 1) of None \<Rightarrow> then_c old_usage (ret_c 1)
      | Some number \<Rightarrow>
         if \<not> dp_maps e then stop_c OutOfBounds
         else then_c (mod_c (\<lambda>s. s\<lparr>dp_rate := word_of_int number - 1, dp_rest := (case dp_open e of None \<Rightarrow> [] | Some f \<Rightarrow> f), dp_at := PTop\<rparr>))
           (then_c (for_c evs (old_step e))
           (bind_c (get_c dp_at) (\<lambda>p. case p of PEnd r \<Rightarrow> ret_c r | _ \<Rightarrow> stop_c Blocked))))"

text \<open>Here no byte of the file is lost.\<close>

definition old_inv :: "u8 list \<Rightarrow> 'a old_player_scheme \<Rightarrow> bool" where
  "old_inv data s \<longleftrightarrow> op_bytes s @ (case dp_at s of PWait buf \<Rightarrow> buf | _ \<Rightarrow> []) @ dp_rest s = data
     \<and> (\<forall>r. dp_at s = PEnd r \<longrightarrow> r = 0 \<and> (dp_interrupted s \<or> dp_rest s = []))"

lemma old_step_inv: "pres (old_inv data) (old_step e ev)"
  by (cases ev) (auto simp: pres_def old_inv_def player_top_def old_wait_def cm_defs split: if_splits player_pc.splits)

lemma old_player_plays_file:
  assumes "old_main e argv evs s = Inr (0, s')" "dp_open e = Some data" "op_bytes s = []" "rec_number 10 65535 (argv ! 1) = Some number"
  shows "(\<exists>rest. data = op_bytes s' @ rest) \<and> (\<not> dp_interrupted s' \<longrightarrow> op_bytes s' = data)"
proof -
  let ?s = "s\<lparr>dp_rate := word_of_int number - 1, dp_rest := data, dp_at := PTop\<rparr>"
  obtain u where r: "for_c evs (old_step e) ?s = Inr (u, s')" "dp_at s' = PEnd 0"
    using assms(1,2,4) by (auto simp: old_main_def cm_defs split: if_splits sum.splits player_pc.splits)
  have "old_inv data ?s" using assms(3) by (simp add: old_inv_def)
  then have "old_inv data s'" using presD [OF pres_for [OF old_step_inv] r(1)] by blast
  then show ?thesis using r(2) by (auto simp: old_inv_def)
qed

end
