(* ===== verification/Sample_Lines.thy ===== *)
theory Sample_Lines
  imports C_String
begin

text \<open>What several of the test programs print: the two signed 16-bit samples of a 32-bit word of memory, a line for each word.\<close>

definition ram16 :: "(nat \<Rightarrow> u8) \<Rightarrow> nat \<Rightarrow> int" where
  "ram16 ram a = wrap16 (uint (ram a) + 256 * uint (ram (a + 1)))"

definition pair_line :: "int \<Rightarrow> int \<Rightarrow> string" where
  "pair_line x y = fmt_wd 5 x @ '' '' @ fmt_wd 5 y @ [CHR 0x0A]"

text \<open>The line for a 32-bit word: its two samples.\<close>

definition word_line :: "(nat \<Rightarrow> u8) \<Rightarrow> nat \<Rightarrow> string" where
  "word_line ram n = pair_line (ram16 ram (4 * n)) (ram16 ram (4 * n + 2))"

end
