(* ===== verification/Scope_Dump.thy ===== *)
theory Scope_Dump
  imports Sample_Lines Byte_Mem
begin

text \<open>
  The oscilloscope \<^verbatim>\<open>projects/adc_recorder_trigger/adc-recorder-trigger.c\<close>: it configures the trigger, waits until the FPGA has stopped,
  and prints the samples around the trigger from a ring of 2^23 words.
\<close>

section \<open>State\<close>

text \<open>The bytes of the configuration registers, and the seconds slept.\<close>

record scope = cio +
  sc_cfg :: "nat \<Rightarrow> u8"
  sc_naps :: nat

text \<open>The results of the system calls; \<open>ioctl\<close> gives the address of the buffer or fails.\<close>

record scenv =
  sc_mem :: int
  sc_cma :: int
  sc_ioctl :: "u32 option"
  sc_cfg_map :: bool
  sc_sts_map :: bool
  sc_ram_map :: bool
  sc_page :: nat

section \<open>Registers\<close>

definition put8 :: "nat \<Rightarrow> (u8 \<Rightarrow> u8) \<Rightarrow> ('a scope_scheme, unit) cm" where
  [cm_defs]: "put8 off f = mod_c (\<lambda>s. s\<lparr>sc_cfg := (sc_cfg s)(off := f (sc_cfg s off))\<rparr>)"

definition put16 :: "nat \<Rightarrow> u16 \<Rightarrow> ('a scope_scheme, unit) cm" where
  [cm_defs]: "put16 off v = mod_c (\<lambda>s. s\<lparr>sc_cfg := store16 off v (sc_cfg s)\<rparr>)"

definition put32 :: "nat \<Rightarrow> u32 \<Rightarrow> ('a scope_scheme, unit) cm" where
  [cm_defs]: "put32 off v = mod_c (\<lambda>s. s\<lparr>sc_cfg := store32 off v (sc_cfg s)\<rparr>)"

definition scope_setup :: "u32 \<Rightarrow> ('a scope_scheme, unit) cm" where
  "scope_setup sz = seq_c [put32 4 sz, put8 0 (\<lambda>v. v AND NOT 1), put8 0 (\<lambda>v. v OR 1), put16 2 0, put16 8 1, put16 10 1,
     put32 12 (1024 - 1), put32 16 (1024 * 1024 - 1), put16 20 5, put8 0 (\<lambda>v. v OR 2), put8 0 (\<lambda>v. v AND NOT 2)]"

section \<open>Waiting and printing\<close>

text \<open>The status words the program reads, the first of which with an even value ends the wait; it is read once more for the position.\<close>

fun scope_wait :: "scenv \<Rightarrow> u32 list \<Rightarrow> ('a scope_scheme, u32 list) cm" where
  "scope_wait e [] = stop_c Blocked"
| "scope_wait e (w # ws) = (if \<not> sc_sts_map e then stop_c OutOfBounds
     else if w AND 1 = 1 then then_c (mod_c (\<lambda>s. s\<lparr>sc_naps := Suc (sc_naps s)\<rparr>)) (scope_wait e ws) else ret_c ws)"

definition scope_start :: "u32 \<Rightarrow> u32" where
  "scope_start w = (drop_bit 1 w - 1024) AND 0x007FFFC0"

definition scope_offset :: "u32 \<Rightarrow> nat \<Rightarrow> nat" where
  "scope_offset start i = unat (((start + word_of_nat i) AND 0x007FFFFF) * 4)"

definition print_pair :: "scenv \<Rightarrow> (nat \<Rightarrow> u8) \<Rightarrow> u32 \<Rightarrow> nat \<Rightarrow> ('a scope_scheme, unit) cm" where
  "print_pair e ram start i = (let offset = scope_offset start i in
     if \<not> sc_ram_map e \<or> 8192 * sc_page e < offset + 4 then stop_c OutOfBounds
     else printf (pair_line (ram16 ram offset) (ram16 ram (offset + 2))))"

definition SCOPE_N :: nat where "SCOPE_N = 1024 * 1024"

definition scope_main :: "scenv \<Rightarrow> u32 list \<Rightarrow> (nat \<Rightarrow> u8) \<Rightarrow> ('a scope_scheme, int) cm" where
  "scope_main e ws ram =
     (if sc_mem e < 0 then then_c (eprintf ''open'') (ret_c 1)
      else if sc_cma e < 0 then then_c (eprintf ''open'') (ret_c 1)
      else case sc_ioctl e of None \<Rightarrow> then_c (eprintf ''ioctl'') (ret_c 1)
      | Some sz \<Rightarrow>
         if \<not> sc_cfg_map e then stop_c OutOfBounds
         else then_c (scope_setup sz)
           (bind_c (scope_wait e ws) (\<lambda>rest. case rest of [] \<Rightarrow> stop_c Blocked
            | w # _ \<Rightarrow> then_c (for_c [0..<SCOPE_N] (print_pair e ram (scope_start w))) (ret_c 0))))"

section \<open>The configuration\<close>

text \<open>The registers the FPGA sees: each store lands in its own bytes.\<close>

lemma scope_setup_run:
  "\<exists>s'. scope_setup sz s = Inr ((), s') \<and> c_out s' = c_out s \<and> sc_naps s' = sc_naps s \<and> get32 (sc_cfg s') 4 = unat sz \<and> get16 (sc_cfg s') 2 = 0
    \<and> get16 (sc_cfg s') 8 = 1 \<and> get16 (sc_cfg s') 10 = 1 \<and> get32 (sc_cfg s') 12 = 1023 \<and> get32 (sc_cfg s') 16 = 1048575 \<and> get16 (sc_cfg s') 20 = 5
    \<and> sc_cfg s' 0 AND 3 = 1"
proof -
  have rst: "(((v AND - 2 OR 1) OR 2) AND - 3) AND 3 = (1 :: u8)" for v
    by (simp add: bit.conj_disj_distrib2 and.assoc)
  show ?thesis
    by (simp add: scope_setup_def cm_defs reg_bytes rst)
qed

section \<open>The samples around the trigger\<close>

text \<open>The program waits as long as the status is odd.\<close>

lemma scope_wait_run:
  "sc_sts_map e \<Longrightarrow> \<forall>v \<in> set vs. v AND 1 = 1 \<Longrightarrow> w AND 1 \<noteq> 1 \<Longrightarrow>
   scope_wait e (vs @ w # ws) s = Inr (ws, s\<lparr>sc_naps := sc_naps s + length vs\<rparr>)"
  by (induction vs arbitrary: s) (simp_all add: cm_defs)

text \<open>The masks keep the bits 6 to 22 and 0 to 22.\<close>

lemma and_window: "n AND 0x7FFFC0 = 64 * (n div 64 mod 131072)" for n :: nat
proof -
  have "n AND push_bit 6 (mask 17) = push_bit 6 (take_bit 17 (drop_bit 6 n))" for n :: nat
    by (rule bit_eqI) (auto simp: bit_simps)
  moreover have "push_bit 6 (mask 17) = (0x7FFFC0 :: nat)" by (simp add: push_bit_eq_mult mask_eq_exp_minus_1)
  ultimately show ?thesis by (simp add: push_bit_eq_mult take_bit_eq_mod drop_bit_eq_div mult.commute)
qed

lemma and_ring: "n AND 0x7FFFFF = n mod 8388608" for n :: nat
proof -
  have "mask 23 = (0x7FFFFF :: nat)" by (simp add: mask_eq_exp_minus_1)
  then show ?thesis using take_bit_eq_mask [of 23 n] by (simp add: take_bit_eq_mod)
qed

definition scope_base :: "nat \<Rightarrow> nat" where
  "scope_base p = 64 * ((p div 64 + 131056) mod 131072)"

lemma scope_start_base: "unat (scope_start w) = scope_base (unat w div 2)"
proof -
  let ?p = "unat w div 2"
  have p: "unat (drop_bit 1 w) = ?p" "?p < 2147483648"
    using u32_lt [of w] by (simp_all only: unat_drop_bit_eq) (simp_all add: drop_bit_eq_div)
  have u: "unat (drop_bit 1 w - 1024) = (?p + 4294966272) mod 4294967296"
    unfolding unat_sub_if' p(1) using p(2) by (auto simp: mod_if)
  have "(64 :: nat) dvd 4294966272" by simp
  then have d: "(?p + 4294966272) div 64 = ?p div 64 + 67108848" by (simp add: div_plus_div_distrib_dvd_right)
  have "(?p + 4294966272) mod (64 * 67108864) = 64 * ((?p + 4294966272) div 64 mod 67108864) + (?p + 4294966272) mod 64"
    by (rule mod_mult2_eq)
  then have "(?p + 4294966272) mod 4294967296 div 64 = (?p div 64 + 67108848) mod 67108864" by (simp add: d)
  then have "(?p + 4294966272) mod 4294967296 div 64 mod 131072 = (?p div 64 + 67108848) mod 131072" by (simp add: mod_mod_cancel)
  also have "\<dots> = (?p div 64 + 131056 + 131072 * 511) mod 131072" by (simp add: add.commute)
  also have "\<dots> = (?p div 64 + 131056) mod 131072" by (rule mod_mult_self2)
  finally have m: "(?p + 4294966272) mod 4294967296 div 64 mod 131072 = (?p div 64 + 131056) mod 131072" .
  show ?thesis unfolding scope_start_def unsigned_and_eq u scope_base_def m [symmetric] by (simp add: and_window del: and_numerals)
qed

text \<open>The word at the trigger is among the lines, 1024 to 1087 lines from the start.\<close>

lemma scope_base_trigger: "(scope_base p + (1024 + p mod 64)) mod 8388608 = p mod 8388608"
proof -
  have "64 * ((p div 64 + 131056) mod 131072) = (64 * (p div 64 + 131056)) mod (64 * 131072)" by (simp only: mult_mod_right)
  then have "(scope_base p + (1024 + p mod 64)) mod 8388608 = (64 * (p div 64 + 131056) + (1024 + p mod 64)) mod 8388608"
    by (simp add: scope_base_def mod_add_left_eq)
  also have "64 * (p div 64 + 131056) + (1024 + p mod 64) = (64 * (p div 64) + p mod 64) + 8388608" by simp
  also have "\<dots> = p + 8388608" by (simp only: mult_div_mod_eq)
  finally show ?thesis by simp
qed

lemma scope_offset_ring: "scope_offset w i = 4 * ((unat w + i) mod 8388608)"
proof -
  have "unat ((w + word_of_nat i) AND 0x007FFFFF) = (unat w + i) mod 4294967296 mod 8388608"
    unfolding unsigned_and_eq by (simp add: and_ring unat_word_ariths unat_of_nat mod_simps del: and_numerals)
  also have "\<dots> = (unat w + i) mod 8388608" by (simp add: mod_mod_cancel)
  finally have u: "unat ((w + word_of_nat i) AND 0x007FFFFF) = (unat w + i) mod 8388608" .
  then show ?thesis unfolding scope_offset_def by (simp add: unat_word_ariths u)
qed

lemma print_pair_run:
  assumes "sc_ram_map e" "sc_page e = 4096"
  shows "print_pair e ram w i s = Inr ((), s\<lparr>c_out := c_out s @ word_line ram ((unat w + i) mod 8388608)\<rparr>)"
proof -
  have "scope_offset w i + 4 \<le> 8192 * sc_page e"
    using mod_less_divisor [of 8388608 "unat w + i"] by (simp add: assms(2) scope_offset_ring)
  then show ?thesis using assms(1)
    by (simp add: print_pair_def Let_def scope_offset_ring word_line_def printf_def)
qed

lemma print_pairs_run:
  "sc_ram_map e \<Longrightarrow> sc_page e = 4096 \<Longrightarrow>
   for_c is (print_pair e ram w) s = Inr ((), s\<lparr>c_out := c_out s @ concat (map (\<lambda>i. word_line ram ((unat w + i) mod 8388608)) is)\<rparr>)"
  by (induction "is" arbitrary: s) (simp_all add: print_pair_run)

text \<open>
  C26. The oscilloscope: when the system calls succeed, the program waits exactly until the FPGA has stopped, with the trigger configured
  as the code says, and then prints 2^20 consecutive words of the ring, each once and within the mapping; the word at the
  position the trigger was at is the line with number 1024 to 1087, because the start is rounded down to a multiple of 64.
\<close>

theorem scope_dump_window:
  assumes "0 \<le> sc_mem e" "0 \<le> sc_cma e" "sc_ioctl e = Some sz" "sc_cfg_map e" "sc_sts_map e" "sc_ram_map e" "sc_page e = 4096"
    and "\<forall>v \<in> set busy. v AND 1 = 1" "stopped AND 1 \<noteq> 1" "p = unat w div 2"
  shows "\<exists>s'. scope_main e (busy @ stopped # w # ws) ram s = Inr (0, s')
    \<and> sc_naps s' = sc_naps s + length busy
    \<and> get32 (sc_cfg s') 4 = unat sz \<and> get16 (sc_cfg s') 10 = 1 \<and> get32 (sc_cfg s') 12 = 1023 \<and> get32 (sc_cfg s') 16 = 1048575 \<and> sc_cfg s' 0 AND 3 = 1
    \<and> c_out s' = c_out s @ concat (map (\<lambda>i. word_line ram ((scope_base p + i) mod 8388608)) [0..<SCOPE_N])
    \<and> (scope_base p + (1024 + p mod 64)) mod 8388608 = p mod 8388608"
proof -
  obtain t where t: "scope_setup sz s = Inr ((), t)" "c_out t = c_out s" "sc_naps t = sc_naps s" "get32 (sc_cfg t) 4 = unat sz"
      "get16 (sc_cfg t) 10 = 1" "get32 (sc_cfg t) 12 = 1023" "get32 (sc_cfg t) 16 = 1048575" "sc_cfg t 0 AND 3 = 1"
    using scope_setup_run [of sz s] by blast
  have "scope_wait e (busy @ stopped # w # ws) t = Inr (w # ws, t\<lparr>sc_naps := sc_naps t + length busy\<rparr>)"
    using scope_wait_run [OF assms(5,8,9)] .
  then have "scope_main e (busy @ stopped # w # ws) ram s = Inr (0, t\<lparr>sc_naps := sc_naps t + length busy,
      c_out := c_out t @ concat (map (\<lambda>i. word_line ram ((scope_base p + i) mod 8388608)) [0..<SCOPE_N])\<rparr>)" (is "_ = Inr (0, ?t)")
    using assms(1-4) t(1) print_pairs_run [OF assms(6,7), of "[0..<SCOPE_N]" ram "scope_start w" "t\<lparr>sc_naps := sc_naps t + length busy\<rparr>"]
    by (simp add: scope_main_def then_c_def bind_c_def ret_c_def scope_start_base assms(10))
  then show ?thesis using t(2-8) scope_base_trigger [of p] by (intro exI [of _ ?t]) simp
qed

definition scenv0 :: scenv where
  "scenv0 = \<lparr>sc_mem = 3, sc_cma = 3, sc_ioctl = Some 0x1E000000, sc_cfg_map = True, sc_sts_map = True, sc_ram_map = True, sc_page = 4096\<rparr>"

definition scope0 :: scope where
  "scope0 = \<lparr>c_out = [], c_err = [], sc_cfg = (\<lambda>_. 0), sc_naps = 0\<rparr>"

text \<open>A trigger at word 100: the lines start at word 8387648, before the end of the ring.\<close>

theorem scope_dump_window_witness:
  "\<exists>s'. scope_main scenv0 [1, 3, 2, 200] (\<lambda>_. 7) scope0 = Inr (0, s') \<and> sc_naps s' = 2
    \<and> c_out s' = concat (map (\<lambda>i. word_line (\<lambda>_. 7) ((8387648 + i) mod 8388608)) [0..<SCOPE_N])"
proof -
  have "scope_base 100 = 8387648" by (simp add: scope_base_def)
  then show ?thesis
    using scope_dump_window [where e = scenv0 and sz = "0x1E000000" and busy = "[1, 3]" and stopped = 2 and p = 100 and w = 200 and ws = "[]"
        and ram = "\<lambda>_. 7" and s = scope0] by (auto simp: scenv0_def scope0_def)
qed

text \<open>A FPGA that never stops keeps the program waiting.\<close>

lemma scope_never_stops: "\<forall>v \<in> set ws. v AND 1 = 1 \<Longrightarrow> \<exists>r. scope_wait e ws s = Inl r"
  by (induction ws arbitrary: s) (auto simp: cm_defs)

end
