(* ===== verification/Adc_Dump.thy ===== *)
theory Adc_Dump
  imports Zynq_Io Sample_Lines Byte_Mem
begin

text \<open>
  Two versions of one program: \<^verbatim>\<open>projects/adc_recorder/adc-recorder.c\<close> and \<^verbatim>\<open>projects/adc_recorder/src/adc_recorder.c\<close> record 2^20 words of two
  samples and print them.  The first maps the registers itself, the second uses the register functions.
\<close>

section \<open>The first version\<close>

text \<open>The bytes of the configuration registers, and the seconds slept.\<close>

record dump_st = cio +
  du_cfg :: "nat \<Rightarrow> u8"
  du_naps :: nat

record duenv =
  du_mem :: int
  du_cma :: int
  du_ioctl :: "u32 option"
  du_cfg_map :: bool
  du_ram_map :: bool
  du_page :: nat

definition DUMP_N :: nat where "DUMP_N = 1024 * 1024"

definition rst_op :: "(u8 \<Rightarrow> u8) \<Rightarrow> ('a dump_st_scheme, unit) cm" where
  [cm_defs]: "rst_op f = mod_c (\<lambda>s. s\<lparr>du_cfg := (du_cfg s)(0 := f (du_cfg s 0))\<rparr>)"

definition put_word :: "nat \<Rightarrow> u32 \<Rightarrow> ('a dump_st_scheme, unit) cm" where
  [cm_defs]: "put_word off v = mod_c (\<lambda>s. s\<lparr>du_cfg := store32 off v (du_cfg s)\<rparr>)"

definition one_second :: "('a dump_st_scheme, unit) cm" where
  [cm_defs]: "one_second = mod_c (\<lambda>s. s\<lparr>du_naps := Suc (du_naps s)\<rparr>)"

definition dump_setup :: "u32 \<Rightarrow> ('a dump_st_scheme, unit) cm" where
  "dump_setup addr = seq_c [put_word 4 addr, put_word 8 (1024 * 1024 - 1), rst_op (\<lambda>v. v AND NOT 4), rst_op (\<lambda>v. v OR 4),
     rst_op (\<lambda>v. v AND NOT 1), rst_op (\<lambda>v. v OR 1), one_second, rst_op (\<lambda>v. v AND NOT 2), rst_op (\<lambda>v. v OR 2), one_second]"

text \<open>\<open>ram[2 * i + 0]\<close> and \<open>ram[2 * i + 1]\<close>, in a mapping of 1024 pages.\<close>

definition dump_line :: "duenv \<Rightarrow> (nat \<Rightarrow> u8) \<Rightarrow> nat \<Rightarrow> ('a dump_st_scheme, unit) cm" where
  "dump_line e ram i = (if \<not> du_ram_map e \<or> 1024 * du_page e < 2 * (2 * i + 1) + 2 then stop_c OutOfBounds
     else printf (pair_line (ram16 ram (2 * (2 * i))) (ram16 ram (2 * (2 * i + 1)))))"

definition dump_main :: "duenv \<Rightarrow> (nat \<Rightarrow> u8) \<Rightarrow> ('a dump_st_scheme, int) cm" where
  "dump_main e ram =
     (if du_mem e < 0 then then_c (eprintf ''open'') (ret_c 1)
      else if du_cma e < 0 then then_c (eprintf ''open'') (ret_c 1)
      else case du_ioctl e of None \<Rightarrow> then_c (eprintf ''ioctl'') (ret_c 1)
      | Some addr \<Rightarrow> if \<not> du_cfg_map e then stop_c OutOfBounds
          else then_c (dump_setup addr) (then_c (for_c [0..<DUMP_N] (dump_line e ram)) (ret_c 0)))"

section \<open>The second version\<close>

text \<open>Its register bank is at another address, and two registers have other offsets.\<close>

definition CFG_WR_ADDR_REC :: u32 where "CFG_WR_ADDR_REC = 4"
definition CFG_NSAMPLES_REC :: u32 where "CFG_NSAMPLES_REC = 8"

definition cfg_init_rec :: "zenv \<Rightarrow> ('a zio_scheme, int) cm" where
  "cfg_init_rec env = bind_c (open_dev env Cfg ''/dev/mem'') (\<lambda>fd.
     if fd < 1 then then_c (printf (''cfg_init: Invalid memory device file:/dev/mem.'' @ nl)) (ret_c (- 1))
     else then_c (set_size (of_nat (pagesize env)))
       (bind_c (mmap_dev env Cfg ''/dev/mem'' (pagesize env) 0x40000000) (\<lambda>ok.
          if ok then ret_c 0
          else then_c (printf (''cfg_init: mmap call failure.'' @ nl)) (ret_c (- 1)))))"

text \<open>\<open>val=rd_reg_value(1, reg); wr_reg_value(1, reg, f(val));\<close>\<close>

definition rec_rmw :: "zenv \<Rightarrow> u32 \<Rightarrow> (u32 \<Rightarrow> u32) \<Rightarrow> ('a zio_scheme, unit) cm" where
  "rec_rmw env off f = bind_c (rd_reg_value env 1 off True) (\<lambda>v. bind_c (wr_reg_value 1 off (of_u32 (f (to_u32 v))) True) (\<lambda>_. ret_c ()))"

text \<open>The accesses after the mappings; the two pauses of a second change no state.\<close>

definition rec_script :: "zenv \<Rightarrow> u32 \<Rightarrow> ('a zio_scheme, unit) cm" where
  "rec_script env addr = seq_c [
     printf (''Set writer address...'' @ nl),
     bind_c (rd_reg_value env 1 CFG_WR_ADDR_REC True) (\<lambda>_. ret_c ()),
     printf (''dev_size es: '' @ fmt_d (of_u32 addr) @ '' ...'' @ nl),
     bind_c (wr_reg_value 1 CFG_WR_ADDR_REC (of_u32 addr) True) (\<lambda>_. ret_c ()),
     printf (''Set number of samples...'' @ nl),
     rec_rmw env CFG_NSAMPLES_REC (\<lambda>_. 1024 * 1024 - 1),
     printf (''Reseting writer...'' @ nl),
     rec_rmw env (cfg_off CFG_RESET_GRAL) (\<lambda>v. v AND NOT 4),
     rec_rmw env (cfg_off CFG_RESET_GRAL) (\<lambda>v. v OR 4),
     printf (''Reseting fifo and filters...'' @ nl),
     rec_rmw env (cfg_off CFG_RESET_GRAL) (\<lambda>v. v AND NOT 1),
     rec_rmw env (cfg_off CFG_RESET_GRAL) (\<lambda>v. v OR 1),
     printf (''Reseting packetizer...'' @ nl),
     rec_rmw env (cfg_off CFG_RESET_GRAL) (\<lambda>v. v AND NOT 2),
     rec_rmw env (cfg_off CFG_RESET_GRAL) (\<lambda>v. v OR 2)]"

definition rec_setup :: "zenv \<Rightarrow> ('a zio_scheme, unit) cm" where
  "rec_setup env =
     then_c (printf (''ADC RECORDER test'' @ nl))
     (bind_c (cfg_init_rec env) (\<lambda>_. bind_c (cma_init env) (\<lambda>_. bind_c (get_c dev_size) (rec_script env))))"

text \<open>
  Here \<open>cma_ptr\<close> has no type, so \<open>cma_ptr + 2*i\<close> and \<open>cma_ptr + i\<close> count bytes: the samples are the two at byte \<open>2 * i\<close>, and
  the word the one at byte \<open>i\<close>.
\<close>

definition ram32 :: "(nat \<Rightarrow> u8) \<Rightarrow> nat \<Rightarrow> u32" where
  "ram32 ram a = word_of_nat (get32 ram a)"

definition rec_line :: "(nat \<Rightarrow> u8) \<Rightarrow> nat \<Rightarrow> string" where
  "rec_line ram i = fmt_wd 5 (ram16 ram (2 * i)) @ '' '' @ fmt_wd 5 (ram16 ram (2 * i + 2)) @ '' '' @ fmt_wd 10 (of_u32 (ram32 ram i)) @ nl"

definition rec_print :: "(nat \<Rightarrow> u8) \<Rightarrow> nat \<Rightarrow> ('a zio_scheme, unit) cm" where
  "rec_print ram i = (\<lambda>s. case ptrs s Cma of Null \<Rightarrow> Inl NullDeref | MapFailed \<Rightarrow> Inl OutOfBounds
     | Mapped n \<Rightarrow> if 2 * i + 4 \<le> n \<and> i + 4 \<le> n then printf (rec_line ram i) s else Inl OutOfBounds)"

definition rec2_main :: "zenv \<Rightarrow> (nat \<Rightarrow> u8) \<Rightarrow> ('a zio_scheme, int) cm" where
  "rec2_main env ram = then_c (rec_setup env) (then_c (for_c [0..<DUMP_N] (rec_print ram)) (then_c (printf (''Saliendo ...'' @ nl)) (ret_c 0)))"

section \<open>What they print\<close>

lemma print_lines:
  assumes "\<And>i. i \<in> set is \<Longrightarrow> body i = printf (f i)"
  shows "for_c is body s = Inr ((), s\<lparr>c_out := c_out s @ concat (map f is)\<rparr>)"
  using assms by (induction "is" arbitrary: s) (simp_all add: printf_def)

text \<open>
  The first version leaves the address of the buffer and the number of samples in their registers and all
  three modules out of reset, and prints exactly the words of the recording, each once and in order.
\<close>

lemma dump_prints_recording:
  assumes "0 \<le> du_mem e" "0 \<le> du_cma e" "du_ioctl e = Some addr" "du_cfg_map e" "du_ram_map e" "du_page e = 4096"
  shows "\<exists>s'. dump_main e ram s = Inr (0, s') \<and> c_out s' = c_out s @ concat (map (word_line ram) [0..<1048576])
    \<and> get32 (du_cfg s') 4 = unat addr \<and> get32 (du_cfg s') 8 = 1048575 \<and> du_cfg s' 0 AND 7 = 7"
proof -
  have N: "DUMP_N = 1048576" by (simp add: DUMP_N_def)
  have line: "dump_line e ram i = printf (word_line ram i)" if "i < DUMP_N" for i
    using that assms(5,6) by (simp add: dump_line_def word_line_def N)
  have rst: "((((((v AND - 5) OR 4) AND - 2) OR 1) AND - 3) OR 2) AND 7 = (7 :: u8)" for v
    by (simp add: bit.conj_disj_distrib2 bit.conj_disj_distrib and.assoc)
  obtain t where t: "dump_setup addr s = Inr ((), t)" "c_out t = c_out s" "get32 (du_cfg t) 4 = unat addr" "get32 (du_cfg t) 8 = 1048575"
    "du_cfg t 0 AND 7 = 7"
    by (simp add: dump_setup_def cm_defs reg_bytes rst)
  have "for_c [0..<DUMP_N] (dump_line e ram) t = Inr ((), t\<lparr>c_out := c_out t @ concat (map (word_line ram) [0..<DUMP_N])\<rparr>)"
    by (rule print_lines) (simp add: line)
  then show ?thesis using assms t by (simp add: dump_main_def then_c_def ret_c_def N del: upt_rec_numeral)
qed

text \<open>The set-up of the second version, on a system that gives it its mappings.\<close>

definition rec_can_map :: "zenv \<Rightarrow> bool" where
  "rec_can_map env \<longleftrightarrow> 1 \<le> os_open env ''/dev/mem'' \<and> 1 \<le> os_open env ''/dev/cma'' \<and> pagesize env = 4096
     \<and> os_mmap env ''/dev/mem'' 4096 0x40000000 \<and> os_mmap env ''/dev/cma'' 4194304 0 \<and> os_cma env 4194304 \<noteq> None"

definition more_out :: "string \<Rightarrow> 'a zio_scheme \<Rightarrow> bool" where
  "more_out h s \<longleftrightarrow> (\<exists>h'. c_out s = h @ h') \<and> ptrs s Cfg = Mapped 4096 \<and> ptrs s Cma = Mapped 4194304"

lemma script_rd: "off \<in> {0, 4, 8} \<Longrightarrow> runs (more_out h) (rd_reg_value env 1 off True)"
  by (auto simp: runs_def more_out_def rd_reg_value_def dev_read_def dev_check_def cm_defs)

lemma script_wr: "off \<in> {0, 4, 8} \<Longrightarrow> runs (more_out h) (wr_reg_value 1 off x True)"
  by (auto simp: runs_def more_out_def wr_reg_value_def dev_write_def dev_check_def reg_store_def cm_defs)

lemma script_rmw: "off \<in> {0, 4, 8} \<Longrightarrow> runs (more_out h) (rec_rmw env off f)"
  unfolding rec_rmw_def by (intro runs_intro script_rd script_wr)

lemma script_print: "runs (more_out h) (printf x)"
  by (auto simp: runs_def more_out_def printf_def)

lemma script_run: "runs (more_out h) (rec_script env addr)"
  unfolding rec_script_def
  by (rule runs_seq) (auto simp: CFG_WR_ADDR_REC_def CFG_NSAMPLES_REC_def intro!: script_rmw script_print runs_bind script_rd script_wr runs_basic)

lemma rec_setup_run:
  assumes "rec_can_map env"
  shows "\<exists>t. rec_setup env s = Inr ((), t) \<and> more_out (c_out s) t"
proof -
  obtain addr where addr: "os_cma env 4194304 = Some addr" using assms by (auto simp: rec_can_map_def)
  obtain t where t: "rec_setup env s = rec_script env addr t" "more_out (c_out s) t"
    using assms addr
    by (force simp: rec_can_map_def rec_setup_def cfg_init_rec_def cma_init_def open_dev_def mmap_dev_def set_size_def cm_defs more_out_def page_up_def Let_def)
  then show ?thesis using runsD [OF script_run t(2)] by auto
qed

text \<open>The samples of a word of the recording.\<close>

definition in1 :: "(nat \<Rightarrow> u8) \<Rightarrow> nat \<Rightarrow> string" where "in1 ram n = fmt_wd 5 (ram16 ram (4 * n))"
definition in2 :: "(nat \<Rightarrow> u8) \<Rightarrow> nat \<Rightarrow> string" where "in2 ram n = fmt_wd 5 (ram16 ram (4 * n + 2))"

text \<open>
  The second version prints as many lines, but advances by one sample a line where it should advance by two: every
  second line has the channels of two different words, in the wrong columns, and the second half of the recording is
  never printed.
\<close>

lemma rec2_prints_half:
  assumes "rec_can_map env"
  shows "\<exists>s' h. rec2_main env ram s = Inr (0, s') \<and> c_out s' = c_out s @ h @ concat (map (rec_line ram) [0..<1048576]) @ ''Saliendo ...'' @ nl
    \<and> (\<forall>n < 524288. (\<exists>w. rec_line ram (2 * n) = in1 ram n @ '' '' @ in2 ram n @ '' '' @ w)
        \<and> (\<exists>w. rec_line ram (2 * n + 1) = in2 ram n @ '' '' @ in1 ram (n + 1) @ '' '' @ w))"
proof -
  have N: "DUMP_N = 1048576" by (simp add: DUMP_N_def)
  obtain t where t: "rec_setup env s = Inr ((), t)" "more_out (c_out s) t" using rec_setup_run [OF assms] by blast
  then obtain h where h: "c_out t = c_out s @ h" "ptrs t Cma = Mapped 4194304" by (auto simp: more_out_def)
  have loop: "for_c is (rec_print ram) t = Inr ((), t\<lparr>c_out := c_out t @ concat (map (rec_line ram) is)\<rparr>)"
    if "set is \<subseteq> {0..<DUMP_N}" "ptrs t Cma = Mapped 4194304" for "is" and t :: "'a zio_scheme"
    using that
  proof (induction "is" arbitrary: t)
    case (Cons i "is")
    have "rec_print ram i t = Inr ((), t\<lparr>c_out := c_out t @ rec_line ram i\<rparr>)" using Cons.prems by (simp add: rec_print_def printf_def N)
    then show ?case using Cons.IH [of "t\<lparr>c_out := c_out t @ rec_line ram i\<rparr>"] Cons.prems by simp
  qed simp
  have "rec2_main env ram s = Inr (0, t\<lparr>c_out := c_out s @ h @ concat (map (rec_line ram) [0..<1048576]) @ ''Saliendo ...'' @ nl\<rparr>)"
    using t(1) loop [of "[0..<DUMP_N]" t] h by (simp add: rec2_main_def then_c_def ret_c_def printf_def N del: upt_rec_numeral)
  moreover have "rec_line ram (2 * n) = in1 ram n @ '' '' @ in2 ram n @ '' '' @ fmt_wd 10 (of_u32 (ram32 ram (2 * n))) @ nl"
    "rec_line ram (2 * n + 1) = in2 ram n @ '' '' @ in1 ram (n + 1) @ '' '' @ fmt_wd 10 (of_u32 (ram32 ram (2 * n + 1))) @ nl" for n
  proof -
    have e: "4 * (n + 1) = 4 * n + 2 + 2" "2 * (2 * n + 1) = 4 * n + 2" "2 * (2 * n) = 4 * n" by simp_all
    show "rec_line ram (2 * n) = in1 ram n @ '' '' @ in2 ram n @ '' '' @ fmt_wd 10 (of_u32 (ram32 ram (2 * n))) @ nl"
      "rec_line ram (2 * n + 1) = in2 ram n @ '' '' @ in1 ram (n + 1) @ '' '' @ fmt_wd 10 (of_u32 (ram32 ram (2 * n + 1))) @ nl"
      unfolding rec_line_def in1_def in2_def e by (rule refl)+
  qed
  ultimately show ?thesis by (intro exI conjI allI impI) (assumption | simp)+
qed

end
