(* ===== verification/Dma_Test.thy ===== *)
theory Dma_Test
  imports Sample_Lines
begin

text \<open>
  The DMA experiment \<^verbatim>\<open>projects/dma_test/dma_test.c\<close>: it programs one transfer of the DMA engine from the stream of samples to memory, waits for
  its end by polling the status register, and prints the destination.
\<close>

section \<open>Registers\<close>

definition MM2S_SR :: nat where "MM2S_SR = 0x04"
definition S2MM_CR :: nat where "S2MM_CR = 0x30"
definition S2MM_SR :: nat where "S2MM_SR = 0x34"
definition S2MM_DST_ADDR :: nat where "S2MM_DST_ADDR = 0x48"
definition S2MM_LENGTH :: nat where "S2MM_LENGTH = 0x58"

text \<open>
  The writes to the registers, as offset and value, and the values the reads will give, in order; a read beyond them
  waits for a change that never comes.
\<close>

record dma = cio +
  dm_writes :: "(nat \<times> u32) list"
  dm_reads :: "u32 list"

text \<open>Whether the three mappings succeed, and the physical memory after the transfer.\<close>

record dmenv =
  dm_regs_map :: bool
  dm_src_map :: bool
  dm_dst_map :: bool
  dm_unmap :: "nat \<Rightarrow> bool"
  dm_phys :: "nat \<Rightarrow> u8"

text \<open>The pointer is to words: \<open>offset >> 2\<close> is the index of one.\<close>

definition dma_set :: "dmenv \<Rightarrow> nat \<Rightarrow> u32 \<Rightarrow> ('a dma_scheme, unit) cm" where
  "dma_set e offset val = (if dm_regs_map e then mod_c (\<lambda>s. s\<lparr>dm_writes := dm_writes s @ [(4 * (offset div 4), val)]\<rparr>) else stop_c OutOfBounds)"

definition dma_get :: "dmenv \<Rightarrow> nat \<Rightarrow> ('a dma_scheme, u32) cm" where
  "dma_get e offset = (if dm_regs_map e then (\<lambda>s. case dm_reads s of [] \<Rightarrow> Inl Blocked | w # ws \<Rightarrow> Inr (w, s\<lparr>dm_reads := ws\<rparr>))
     else stop_c OutOfBounds)"

section \<open>Status\<close>

definition status_flags :: "(u32 \<times> string) list" where
  "status_flags = [(0x00000002, '' idle''), (0x00000008, '' SGIncld''), (0x00000010, '' DMAIntErr''), (0x00000020, '' DMASlvErr''),
     (0x00000040, '' DMADecErr''), (0x00000100, '' SGIntErr''), (0x00000200, '' SGSlvErr''), (0x00000400, '' SGDecErr''),
     (0x00001000, '' IOC_Irq''), (0x00002000, '' Dly_Irq''), (0x00004000, '' Err_Irq'')]"

definition status_text :: "u32 \<Rightarrow> string" where
  "status_text status = (if status AND 1 \<noteq> 0 then '' halted'' else '' running'')
     @ concat (map (\<lambda>(m, t). if status AND m \<noteq> 0 then t else []) status_flags) @ [CHR 0x0A]"

definition print_status :: "string \<Rightarrow> string \<Rightarrow> u32 \<Rightarrow> ('a dma_scheme, unit) cm" where
  "print_status name off status = printf (name @ '' status (0x'' @ fmt_08x status @ ''@0x'' @ off @ ''):'' @ status_text status)"

definition dma_s2mm_status :: "dmenv \<Rightarrow> ('a dma_scheme, unit) cm" where
  "dma_s2mm_status e = bind_c (dma_get e S2MM_SR) (print_status ''Stream to memory-mapped'' ''34'')"

definition dma_mm2s_status :: "dmenv \<Rightarrow> ('a dma_scheme, unit) cm" where
  "dma_mm2s_status e = bind_c (dma_get e MM2S_SR) (print_status ''Memory-mapped to stream'' ''04'')"

text \<open>The loop ends when a status has the bits 12 and 1; its fuel is the number of values there are to read.\<close>

definition dma_done :: "u32 \<Rightarrow> bool" where
  "dma_done status \<longleftrightarrow> bit status 12 \<and> bit status 1"

fun sync_loop :: "nat \<Rightarrow> dmenv \<Rightarrow> nat \<Rightarrow> u32 \<Rightarrow> ('a dma_scheme, unit) cm" where
  "sync_loop 0 e off status = (if dma_done status then ret_c () else stop_c Blocked)"
| "sync_loop (Suc n) e off status = (if dma_done status then ret_c ()
     else then_c (dma_s2mm_status e) (then_c (dma_mm2s_status e) (bind_c (dma_get e off) (sync_loop n e off))))"

definition dma_sync :: "dmenv \<Rightarrow> nat \<Rightarrow> ('a dma_scheme, unit) cm" where
  "dma_sync e off = bind_c (dma_get e off) (\<lambda>w. bind_c (get_c (\<lambda>s. length (dm_reads s))) (\<lambda>n. sync_loop n e off w))"

definition dma_mm2s_sync :: "dmenv \<Rightarrow> ('a dma_scheme, unit) cm" where
  "dma_mm2s_sync e = dma_sync e MM2S_SR"

definition dma_s2mm_sync :: "dmenv \<Rightarrow> ('a dma_scheme, unit) cm" where
  "dma_s2mm_sync e = dma_sync e S2MM_SR"

section \<open>Printing memory and main\<close>

text \<open>A value of 4 bytes is printed for each of the \<open>byte_count\<close> bytes.\<close>

definition memdump :: "(nat \<Rightarrow> u8) \<Rightarrow> nat \<Rightarrow> ('a dma_scheme, unit) cm" where
  "memdump mem byte_count = for_c [0..<byte_count] (\<lambda>i. printf (word_line mem i))"

definition DST_MAP :: nat where "DST_MAP = 0x0f00000"

definition unmap_c :: "dmenv \<Rightarrow> nat \<Rightarrow> ('a dma_scheme, unit) cm" where
  "unmap_c e k = (if dm_unmap e k then ret_c () else then_c (printf (''Can'' @ [CHR 39] @ ''t unmap memory from user space.'' @ [CHR 0x0A])) (stop_c (ExitWith 0)))"

text \<open>A message, a register write and a status line.\<close>

definition dma_cmd :: "dmenv \<Rightarrow> string \<Rightarrow> nat \<Rightarrow> u32 \<Rightarrow> ('a dma_scheme, unit) cm" where
  "dma_cmd e t off v = seq_c [printf (t @ [CHR 0x0A]), dma_set e off v, dma_s2mm_status e]"

text \<open>The program up to the dump, which is all that looks at the memory.\<close>

definition dma_start :: "dmenv \<Rightarrow> ('a dma_scheme, unit) cm list" where
  "dma_start e = [
     dma_cmd e ''Resetting DMA'' S2MM_CR 4,
     dma_cmd e ''Halting DMA'' S2MM_CR 0,
     dma_cmd e ''Writing destination address'' S2MM_DST_ADDR 0x0f000000,
     dma_cmd e ''Starting S2MM channel with all interrupts masked...'' S2MM_CR 0xf001,
     dma_cmd e ''Writing S2MM transfer length...'' S2MM_LENGTH 4096,
     printf (''Waiting for S2MM sychronization...'' @ [CHR 0x0A]), dma_s2mm_sync e,
     printf ''Destination memory block: '']"

definition dma_main :: "dmenv \<Rightarrow> ('a dma_scheme, int) cm" where
  "dma_main e = then_c (seq_c (dma_start e @ [
     if dm_dst_map e then memdump (\<lambda>i. dm_phys e (DST_MAP + i)) 4096 else stop_c OutOfBounds,
     unmap_c e 0, unmap_c e 1, unmap_c e 2])) (ret_c 0)"

section \<open>The wait\<close>

text \<open>
  What a wait reads after the first value: in each pass the two status words it prints, and then the one it tests.
\<close>

fun wait_reads :: "(u32 \<times> u32 \<times> u32) list \<Rightarrow> u32 list" where
  "wait_reads [] = []"
| "wait_reads ((a, b, c) # ps) = a # b # c # wait_reads ps"

lemma seq_c_append: "seq_c (ms @ ks) s = (case seq_c ms s of Inl e \<Rightarrow> Inl e | Inr (_, t) \<Rightarrow> seq_c ks t)"
  by (induction ms arbitrary: s) (auto split: sum.splits)

text \<open>What a program does when it reads: it takes some of the values to read, prints something and writes registers.\<close>

definition dma_upd :: "string \<Rightarrow> (nat \<times> u32) list \<Rightarrow> u32 list \<Rightarrow> 'a dma_scheme \<Rightarrow> 'a dma_scheme" where
  "dma_upd t ws rs s = s\<lparr>c_out := c_out s @ t, dm_writes := dm_writes s @ ws, dm_reads := rs\<rparr>"

definition dma_does :: "('a dma_scheme, unit) cm \<Rightarrow> u32 list \<Rightarrow> (nat \<times> u32) list \<Rightarrow> u32 list \<Rightarrow> bool" where
  "dma_does m rs ws rs' \<longleftrightarrow> (\<forall>s. dm_reads s = rs \<longrightarrow> (\<exists>t. m s = Inr ((), dma_upd t ws rs' s)))"

lemma dma_upd_upd [simp]: "dma_upd t' ws' rs' (dma_upd t ws rs s) = dma_upd (t @ t') (ws @ ws') rs' s"
  by (simp add: dma_upd_def)

lemma dma_upd_sel [simp]: "dm_reads (dma_upd t ws rs s) = rs" "dm_writes (dma_upd t ws rs s) = dm_writes s @ ws" "c_out (dma_upd t ws rs s) = c_out s @ t"
  by (simp_all add: dma_upd_def)

lemma dma_doesD: "dma_does m rs ws rs' \<Longrightarrow> dm_reads s = rs \<Longrightarrow> \<exists>t. m s = Inr ((), dma_upd t ws rs' s)"
  by (simp add: dma_does_def)

named_theorems dma_steps "what the operations of the programs do"

lemma dma_doesI: "(\<And>s. dm_reads s = rs \<Longrightarrow> m s = Inr ((), dma_upd (t s) ws rs' s)) \<Longrightarrow> dma_does m rs ws rs'"
  by (auto simp: dma_does_def)

lemma does_then:
  assumes "dma_does m rs ws rs1" "dma_does k rs1 ws' rs'"
  shows "dma_does (then_c m k) rs (ws @ ws') rs'"
  unfolding dma_does_def
proof (intro allI impI)
  fix s :: "'a dma_scheme"
  assume "dm_reads s = rs"
  then obtain t where "m s = Inr ((), dma_upd t ws rs1 s)" using dma_doesD [OF assms(1)] by blast
  moreover obtain t' where "k (dma_upd t ws rs1 s) = Inr ((), dma_upd t' ws' rs' (dma_upd t ws rs1 s))"
    using dma_doesD [OF assms(2), of "dma_upd t ws rs1 s"] by auto
  ultimately show "\<exists>t. then_c m k s = Inr ((), dma_upd t (ws @ ws') rs' s)" by (auto simp: then_c_def)
qed

lemma does_seq [dma_steps]:
  "dma_does (seq_c []) rs [] rs"
  "dma_does m rs ws rs1 \<Longrightarrow> dma_does (seq_c ms) rs1 ws' rs' \<Longrightarrow> dma_does (seq_c (m # ms)) rs (ws @ ws') rs'"
proof -
  show "dma_does (seq_c []) rs [] rs" by (rule dma_doesI [of _ _ "\<lambda>_. []"]) (auto simp: dma_upd_def)
  show "dma_does m rs ws rs1 \<Longrightarrow> dma_does (seq_c ms) rs1 ws' rs' \<Longrightarrow> dma_does (seq_c (m # ms)) rs (ws @ ws') rs'"
    using does_then [of m rs ws rs1 "seq_c ms" ws' rs'] by (simp add: dma_does_def then_c_def)
qed

lemma does_seq_append: "dma_does (seq_c ms) rs ws rs1 \<Longrightarrow> dma_does (seq_c ks) rs1 ws' rs' \<Longrightarrow> dma_does (seq_c (ms @ ks)) rs (ws @ ws') rs'"
  using does_then [of "seq_c ms" rs ws rs1 "seq_c ks" ws' rs'] by (simp add: dma_does_def then_c_def seq_c_append)

lemma does_printf [dma_steps]: "dma_does (printf t) rs [] rs"
  by (rule dma_doesI [of _ _ "\<lambda>_. t"]) (auto simp: dma_upd_def printf_def)

lemma does_set [dma_steps]: "dm_regs_map e \<Longrightarrow> dma_does (dma_set e off v) rs [(4 * (off div 4), v)] rs"
  by (rule dma_doesI [of _ _ "\<lambda>_. []"]) (auto simp: dma_upd_def dma_set_def mod_c_def)

lemma does_status [dma_steps]:
  assumes "dm_regs_map e"
  shows "dma_does (dma_s2mm_status e) (w # ws) [] ws" "dma_does (dma_mm2s_status e) (w # ws) [] ws"
proof -
  have "dma_does (bind_c (dma_get e off) (print_status nm o1)) (w # ws) [] ws" for off nm o1
    using assms by (intro dma_doesI [of _ _ "\<lambda>_. nm @ '' status (0x'' @ fmt_08x w @ ''@0x'' @ o1 @ ''):'' @ status_text w"])
      (simp add: dma_upd_def dma_get_def print_status_def printf_def bind_c_def)
  then show "dma_does (dma_s2mm_status e) (w # ws) [] ws" "dma_does (dma_mm2s_status e) (w # ws) [] ws"
    by (simp_all only: dma_s2mm_status_def dma_mm2s_status_def)
qed

lemma does_get:
  assumes "dm_regs_map e" "dma_does (f w) rs ws rs'"
  shows "dma_does (bind_c (dma_get e off) f) (w # rs) ws rs'"
  unfolding dma_does_def
proof (intro allI impI)
  fix s :: "'a dma_scheme"
  assume s: "dm_reads s = w # rs"
  obtain t where "f w (s\<lparr>dm_reads := rs\<rparr>) = Inr ((), dma_upd t ws rs' (s\<lparr>dm_reads := rs\<rparr>))"
    using dma_doesD [OF assms(2), of "s\<lparr>dm_reads := rs\<rparr>"] by auto
  then show "\<exists>t. bind_c (dma_get e off) f s = Inr ((), dma_upd t ws rs' s)"
    using assms(1) s by (auto simp: dma_upd_def dma_get_def bind_c_def)
qed

lemma does_cmd [dma_steps]: "dm_regs_map e \<Longrightarrow> dma_does (dma_cmd e t off v) (w # ws) [(4 * (off div 4), v)] ws"
  using does_seq(2) [OF does_printf does_seq(2) [OF does_set does_seq(2) [OF does_status(1) does_seq(1)]]] by (simp add: dma_cmd_def)

text \<open>The wait ends with the first status that has both bits, and reads no further.\<close>

lemma does_sync_loop:
  assumes "dm_regs_map e"
  shows "dma_done (last (w # map (\<lambda>(a, b, c). c) ps)) \<Longrightarrow> \<forall>v \<in> set (butlast (w # map (\<lambda>(a, b, c). c) ps)). \<not> dma_done v \<Longrightarrow>
    length ps \<le> n \<Longrightarrow> dma_does (sync_loop n e off w :: ('a dma_scheme, unit) cm) (wait_reads ps @ rest) [] rest"
proof (induction ps arbitrary: n w)
  case Nil
  then show ?case by (intro dma_doesI [of _ _ "\<lambda>_. []"]) (cases n, auto simp: dma_upd_def ret_c_def)
next
  case (Cons p ps)
  obtain a b c where p: "p = (a, b, c)" by (cases p)
  obtain m where n: "n = Suc m" using Cons.prems(3) by (cases n) auto
  have w: "\<not> dma_done w" using Cons.prems(2) p by simp
  have "dma_does (sync_loop m e off c :: ('a dma_scheme, unit) cm) (wait_reads ps @ rest) [] rest"
    using Cons.prems n p by (intro Cons.IH) (auto split: if_splits)
  then have "dma_does (bind_c (dma_get e off) (sync_loop m e off) :: ('a dma_scheme, unit) cm) (c # wait_reads ps @ rest) [] rest"
    by (rule does_get [OF assms])
  from does_then [OF does_status(1) [OF assms] does_then [OF does_status(2) [OF assms] this]]
  have "dma_does (then_c (dma_s2mm_status e) (then_c (dma_mm2s_status e) (bind_c (dma_get e off) (sync_loop m e off))) :: ('a dma_scheme, unit) cm) (a # b # c # wait_reads ps @ rest) [] rest"
    by simp
  then show ?case using n w p by (simp add: dma_does_def)
qed

lemma wait_reads_length: "length (wait_reads ps) = 3 * length ps"
  by (induction ps rule: wait_reads.induct) simp_all

lemma does_sync [dma_steps]:
  assumes "dm_regs_map e" "dma_done (last (w # map (\<lambda>(a, b, c). c) ps))" "\<forall>v \<in> set (butlast (w # map (\<lambda>(a, b, c). c) ps)). \<not> dma_done v"
  shows "dma_does (dma_s2mm_sync e :: ('b dma_scheme, unit) cm) (w # wait_reads ps @ rest) [] rest"
    "dma_does (dma_mm2s_sync e :: ('b dma_scheme, unit) cm) (w # wait_reads ps @ rest) [] rest"
proof -
  have "dma_does (dma_sync e off :: ('b dma_scheme, unit) cm) (w # wait_reads ps @ rest) [] rest" for off
    unfolding dma_does_def
  proof (intro allI impI)
    fix s :: "'b dma_scheme"
    assume "dm_reads s = w # wait_reads ps @ rest"
    moreover have "length ps \<le> length (wait_reads ps @ rest)" by (simp add: wait_reads_length)
    from dma_doesD [OF does_sync_loop [OF assms this], of "s\<lparr>dm_reads := wait_reads ps @ rest\<rparr>" rest off]
    obtain t where "sync_loop (length (wait_reads ps @ rest)) e off w (s\<lparr>dm_reads := wait_reads ps @ rest\<rparr>) = Inr ((), dma_upd t [] rest (s\<lparr>dm_reads := wait_reads ps @ rest\<rparr>))"
      by auto
    ultimately show "\<exists>t. dma_sync e off s = Inr ((), dma_upd t [] rest s)"
      using assms(1) by (auto simp: dma_sync_def dma_get_def bind_c_def get_c_def dma_upd_def)
  qed
  then show "dma_does (dma_s2mm_sync e :: ('b dma_scheme, unit) cm) (w # wait_reads ps @ rest) [] rest"
    "dma_does (dma_mm2s_sync e :: ('b dma_scheme, unit) cm) (w # wait_reads ps @ rest) [] rest"
    by (simp_all add: dma_s2mm_sync_def dma_mm2s_sync_def)
qed

text \<open>The wait never ends on its own: as long as no status has both bits it goes on reading.\<close>

lemma sync_loop_blocked: "\<not> dma_done w \<Longrightarrow> \<forall>v \<in> set (dm_reads s). \<not> dma_done v \<Longrightarrow> \<exists>r. sync_loop n e off w s = Inl r"
proof (induction n arbitrary: w s)
  case (Suc n)
  show ?case
  proof (cases "dm_regs_map e \<and> 3 \<le> length (dm_reads s)")
    case True
    then obtain a b c ws where r: "dm_reads s = a # b # c # ws" by (auto simp: numeral_eq_Suc Suc_le_length_iff)
    obtain s1 where s1: "dma_s2mm_status e s = Inr ((), s1)" "dm_reads s1 = b # c # ws" using dma_doesD [OF does_status(1) r, of e] True by auto
    obtain s2 where s2: "dma_mm2s_status e s1 = Inr ((), s2)" "dm_reads s2 = c # ws" using dma_doesD [OF does_status(2) s1(2), of e] True by auto
    have "\<exists>r. sync_loop n e off c (s2\<lparr>dm_reads := ws\<rparr>) = Inl r" using Suc.prems r by (intro Suc.IH) auto
    then show ?thesis using Suc.prems(1) s1 s2 True by (simp add: then_c_def bind_c_def dma_get_def)
  next
    case False
    then show ?thesis using Suc.prems(1)
      by (auto simp: then_c_def bind_c_def dma_get_def dma_s2mm_status_def dma_mm2s_status_def print_status_def printf_def stop_c_def
          split: list.splits)
  qed
qed (simp add: stop_c_def)

section \<open>What is printed\<close>

lemma memdump_run: "memdump mem n s = Inr ((), s\<lparr>c_out := c_out s @ concat (map (word_line mem) [0..<n])\<rparr>)"
proof -
  have "for_c is (\<lambda>i. printf (word_line mem i)) s = Inr ((), s\<lparr>c_out := c_out s @ concat (map (word_line mem) is)\<rparr>)" for "is" and s :: "'a dma_scheme"
    by (induction "is" arbitrary: s) (simp_all add: printf_def)
  then show ?thesis by (simp add: memdump_def)
qed

lemma sync_loop_phys: "sync_loop n (e\<lparr>dm_phys := q\<rparr>) off = sync_loop n e off"
proof (induction n)
  case 0
  show ?case by (rule ext) simp
next
  case (Suc n)
  show ?case by (rule ext) (simp add: Suc dma_s2mm_status_def dma_mm2s_status_def dma_get_def)
qed

lemma dma_start_phys: "dma_start (e\<lparr>dm_phys := q\<rparr>) = dma_start e"
  by (simp add: dma_start_def dma_cmd_def dma_set_def dma_s2mm_status_def dma_s2mm_sync_def dma_sync_def dma_get_def Let_def sync_loop_phys)

lemma dma_start_run:
  assumes "dm_regs_map e" "dm_reads s = [v1, v2, v3, v4, v5] @ w # wait_reads ps @ rest"
    and "dma_done (last (w # map (\<lambda>(a, b, c). c) ps))" "\<forall>v \<in> set (butlast (w # map (\<lambda>(a, b, c). c) ps)). \<not> dma_done v"
  shows "\<exists>t. seq_c (dma_start e) s = Inr ((), t) \<and> dm_writes t = dm_writes s @ [(0x30, 4), (0x30, 0), (0x48, 0x0f000000), (0x30, 0xf001), (0x58, 4096)]"
proof -
  have "dma_does (seq_c (dma_start e)) (v1 # v2 # v3 # v4 # v5 # w # wait_reads ps @ rest)
      ([(4 * (S2MM_CR div 4), 4)] @ [(4 * (S2MM_CR div 4), 0)] @ [(4 * (S2MM_DST_ADDR div 4), 0x0f000000)] @ [(4 * (S2MM_CR div 4), 0xf001)]
       @ [(4 * (S2MM_LENGTH div 4), 4096)] @ [] @ [] @ [] @ []) rest"
    unfolding dma_start_def by (rule dma_steps assms(1,3,4))+
  from dma_doesD [OF this, of s] assms(2) show ?thesis
    by (auto simp: S2MM_CR_def S2MM_DST_ADDR_def S2MM_LENGTH_def)
qed

text \<open>
  The experiment: when the system calls succeed and the status register at last reports the end of the transfer, the program returns,
  having asked the engine to write 4096 bytes to physical address 0x0f000000; but it prints the 16384 bytes at 0x00f00000, where it
  has mapped its destination, so whatever the transfer changes in memory makes no difference to what it prints.
\<close>

lemma dump_misses_destination:
  assumes "dm_regs_map e" "dm_dst_map e" "\<forall>k. dm_unmap e k" "dm_phys e = p"
    and "dm_reads s = [v1, v2, v3, v4, v5] @ w # wait_reads ps @ rest"
    and "dma_done (last (w # map (\<lambda>(a, b, c). c) ps))" "\<forall>v \<in> set (butlast (w # map (\<lambda>(a, b, c). c) ps)). \<not> dma_done v"
    and "\<forall>a. a < 0x0f000000 \<or> 0x0f000000 + 4096 \<le> a \<longrightarrow> q a = p a"
  shows "\<exists>s' pre. dma_main e s = Inr (0, s') \<and> dma_main (e\<lparr>dm_phys := q\<rparr>) s = Inr (0, s')
    \<and> dm_writes s' = dm_writes s @ [(0x30, 4), (0x30, 0), (0x48, 0x0f000000), (0x30, 0xf001), (0x58, 4096)]
    \<and> c_out s' = pre @ concat (map (word_line (\<lambda>i. p (0x0f00000 + i))) [0..<4096])"
proof -
  have "word_line (\<lambda>i. q (0x0f00000 + i)) n = word_line (\<lambda>i. p (0x0f00000 + i)) n" if "n < 4096" for n
    using that assms(8) by (simp add: word_line_def ram16_def)
  then have same: "concat (map (word_line (\<lambda>i. q (0x0f00000 + i))) [0..<4096]) = concat (map (word_line (\<lambda>i. p (0x0f00000 + i))) [0..<4096])"
    by (intro arg_cong [where f = concat] map_cong) auto
  obtain t where t: "seq_c (dma_start e) s = Inr ((), t)"
      "dm_writes t = dm_writes s @ [(0x30, 4), (0x30, 0), (0x48, 0x0f000000), (0x30, 0xf001), (0x58, 4096)]"
    using dma_start_run [OF assms(1,5-7)] by blast
  let ?t = "\<lambda>p. t\<lparr>c_out := c_out t @ concat (map (word_line (\<lambda>i. p (0x0f00000 + i))) [0..<4096])\<rparr>"
  have "dma_main e s = Inr (0, ?t p)" "dma_main (e\<lparr>dm_phys := q\<rparr>) s = Inr (0, ?t q)"
    using assms(2-4) t(1) by (simp_all add: dma_start_phys dma_main_def seq_c_append then_c_def memdump_run DST_MAP_def unmap_c_def ret_c_def del: upt_rec_numeral)
  then show ?thesis unfolding same using t(2) by (intro exI [of _ "?t p"] exI [of _ "c_out t"]) simp
qed

definition dmenv0 :: dmenv where
  "dmenv0 = \<lparr>dm_regs_map = True, dm_src_map = True, dm_dst_map = True, dm_unmap = (\<lambda>_. True), dm_phys = (\<lambda>_. 0)\<rparr>"

definition dma0 :: dma where
  "dma0 = \<lparr>c_out = [], c_err = [], dm_writes = [], dm_reads = [1, 1, 1, 0, 0, 0, 2, 2, 0x1002]\<rparr>"

lemma dump_misses_destination_witness:
  "\<exists>s'. dma_main dmenv0 dma0 = Inr (0, s') \<and> dma_main (dmenv0\<lparr>dm_phys := (\<lambda>a. if 0x0f000000 \<le> a \<and> a < 0x0f001000 then 7 else 0)\<rparr>) dma0 = Inr (0, s')
     \<and> dm_writes s' = [(0x30, 4), (0x30, 0), (0x48, 0x0f000000), (0x30, 0xf001), (0x58, 4096)]"
proof -
  have d: "dma_done 0x1002" "\<not> dma_done 0" by (simp_all add: dma_done_def)
  have h: "dm_regs_map dmenv0" "dm_dst_map dmenv0" "\<forall>k. dm_unmap dmenv0 k" "dm_phys dmenv0 = (\<lambda>_. 0)"
    "dm_reads dma0 = [1, 1, 1, 0, 0] @ 0 # wait_reads [(2, 2, 0x1002)] @ []" "dm_writes dma0 = []"
    by (simp_all add: dmenv0_def dma0_def)
  show ?thesis
    using dump_misses_destination [OF h(1-5), of "\<lambda>a. if 0x0f000000 \<le> a \<and> a < 0x0f001000 then 7 else 0"] d h(6) by auto
qed

end
