(* ===== verification/Dma_Loopback.thy ===== *)
theory Dma_Loopback
  imports Dma_Test Byte_Mem
begin

text \<open>
  The other programs on the DMA engine: the loopback test (\<^verbatim>\<open>projects/dma_loopback/dma_test.c\<close>, with a copy under
  \<^verbatim>\<open>projects/dma_lauri\<close>, and the variant \<^verbatim>\<open>apps/dma/dma_test/dma_test.c\<close>), which has the engine copy 32 bytes and prints both places, and
  the variants \<^verbatim>\<open>projects/dma_lago/dma_test.c\<close> and \<^verbatim>\<open>projects/counter_dma/dma_test.c\<close> of the test of the theory \<open>Dma_Test\<close>, whose
  functions all of them have.
\<close>

section \<open>Printing bytes\<close>

definition fmt_02x :: "u8 \<Rightarrow> string" where
  "fmt_02x b = pad_left CHR ''0'' 2 (digits 16 (uint b))"

text \<open>A plain char is unsigned on the board (ARM): two digits for every byte.\<close>

definition hex_byte :: "(nat \<Rightarrow> u8) \<Rightarrow> nat \<Rightarrow> string" where
  "hex_byte mem offset = fmt_02x (mem offset) @ (if offset mod 4 = 3 then '' '' else [])"

definition hex_dump :: "(nat \<Rightarrow> u8) \<Rightarrow> nat \<Rightarrow> ('a dma_scheme, unit) cm" where
  "hex_dump mem byte_count = then_c (for_c [0..<byte_count] (\<lambda>i. printf (hex_byte mem i))) (printf [CHR 0x0A])"

definition hex_text :: "(nat \<Rightarrow> u8) \<Rightarrow> nat \<Rightarrow> string" where
  "hex_text mem n = concat (map (hex_byte mem) [0..<n])"

lemma fmt_02x_digits: "fmt_02x b = [digit_chr (uint b div 16), digit_chr (uint b mod 16)]"
proof -
  have "uint b < 2 ^ LENGTH(8)" by (rule uint_bounded)
  then have b: "0 \<le> uint b" "uint b < 256" by simp_all
  show ?thesis
  proof (cases "uint b < 16")
    case True
    have "digit_chr 0 = CHR ''0''" by code_simp
    then show ?thesis using b True by (simp add: fmt_02x_def digits.simps [of 16 "uint b"] pad_left_def)
  next
    case False
    moreover have "uint b div 16 < 16" using b by simp
    ultimately show ?thesis using b
      by (simp add: fmt_02x_def digits.simps [of 16 "uint b"] digits.simps [of 16 "uint b div 16"] pad_left_def)
  qed
qed

lemma fmt_02x_inj: "fmt_02x a = fmt_02x b \<longleftrightarrow> a = b"
proof
  assume "fmt_02x a = fmt_02x b"
  then have d: "digit_chr (uint a div 16) = digit_chr (uint b div 16)" "digit_chr (uint a mod 16) = digit_chr (uint b mod 16)"
    by (simp_all add: fmt_02x_digits)
  have "uint a < 2 ^ LENGTH(8)" "uint b < 2 ^ LENGTH(8)" by (rule uint_bounded)+
  moreover have "0 \<le> uint a" "0 \<le> uint b" by simp_all
  ultimately have "0 \<le> uint a div 16" "uint a div 16 < 16" "0 \<le> uint b div 16" "uint b div 16 < 16" by (simp_all add: pos_imp_zdiv_nonneg_iff)
  then have "uint a div 16 = uint b div 16" "uint a mod 16 = uint b mod 16"
    using arg_cong [OF d(1), of digit_val] arg_cong [OF d(2), of digit_val] by (simp_all add: digit_val_digit_chr)
  then have "uint a = uint b" by (metis mult_div_mod_eq)
  then show "a = b" by (rule word_uint_eqI)
qed simp

lemma hex_text_inj: "hex_text m n = hex_text m' n \<longleftrightarrow> (\<forall>i < n. m i = m' i)"
proof (induction n)
  case (Suc n)
  have len: "length (hex_byte m i) = length (hex_byte m' i)" for i by (simp add: hex_byte_def fmt_02x_digits)
  have "hex_text k (Suc n) = hex_text k n @ hex_byte k n" for k by (simp add: hex_text_def)
  then have "hex_text m (Suc n) = hex_text m' (Suc n) \<longleftrightarrow> hex_text m n = hex_text m' n \<and> hex_byte m n = hex_byte m' n"
    using len by simp
  also have "hex_byte m n = hex_byte m' n \<longleftrightarrow> m n = m' n" by (simp add: hex_byte_def fmt_02x_inj)
  finally show ?case using Suc by (auto simp: less_Suc_eq)
qed (simp add: hex_text_def)

lemma hex_dump_run: "hex_dump mem n s = Inr ((), s\<lparr>c_out := c_out s @ hex_text mem n @ [CHR 0x0A]\<rparr>)"
proof -
  have "for_c is (\<lambda>i. printf (hex_byte mem i)) s = Inr ((), s\<lparr>c_out := c_out s @ concat (map (hex_byte mem) is)\<rparr>)" for "is" and s :: "'a dma_scheme"
    by (induction "is" arbitrary: s) (simp_all add: printf_def)
  then show ?thesis by (simp add: hex_dump_def hex_text_def then_c_def printf_def)
qed

section \<open>The loopback test\<close>

definition MM2S_CR :: nat where "MM2S_CR = 0x00"
definition MM2S_SRC_ADDR :: nat where "MM2S_SRC_ADDR = 0x18"
definition MM2S_LENGTH :: nat where "MM2S_LENGTH = 0x28"
definition LB_SRC :: nat where "LB_SRC = 0x0e000000"
definition LB_DST :: nat where "LB_DST = 0x0f000000"

text \<open>
  The physical memory as the processor has written it.  What the engine has made of it is a function of the writes
  to its registers and of that memory.
\<close>

record lb_dma = dma +
  lb_mem :: "nat \<Rightarrow> u8"

type_synonym engine = "(nat \<times> u32) list \<Rightarrow> (nat \<Rightarrow> u8) \<Rightarrow> nat \<Rightarrow> u8"

definition lb_seen :: "engine \<Rightarrow> 'a lb_dma_scheme \<Rightarrow> nat \<Rightarrow> u8" where
  "lb_seen eng s = eng (dm_writes s) (lb_mem s)"

definition poke_source :: "dmenv \<Rightarrow> ('a lb_dma_scheme, unit) cm" where
  "poke_source e = (if dm_src_map e then mod_c (\<lambda>s. s\<lparr>lb_mem := store32 LB_SRC 0x11223344 (lb_mem s)\<rparr>) else stop_c OutOfBounds)"

definition clear_destination :: "dmenv \<Rightarrow> ('a lb_dma_scheme, unit) cm" where
  "clear_destination e = (if dm_dst_map e then mod_c (\<lambda>s. s\<lparr>lb_mem := (\<lambda>a. if LB_DST \<le> a \<and> a < LB_DST + 32 then 0 else lb_mem s a)\<rparr>)
     else stop_c OutOfBounds)"

definition lb_dump :: "engine \<Rightarrow> string \<Rightarrow> nat \<Rightarrow> ('a lb_dma_scheme, unit) cm" where
  "lb_dump eng t base = then_c (printf t) (bind_c (get_c (lb_seen eng)) (\<lambda>m. hex_dump (\<lambda>i. m (base + i)) 32))"

text \<open>A command to both channels, and one to the channel from memory.\<close>

definition both_cmd :: "dmenv \<Rightarrow> string \<Rightarrow> u32 \<Rightarrow> ('a dma_scheme, unit) cm" where
  "both_cmd e t v = seq_c [printf (t @ [CHR 0x0A]), dma_set e S2MM_CR v, dma_set e MM2S_CR v, dma_s2mm_status e, dma_mm2s_status e]"

definition mm2s_cmd :: "dmenv \<Rightarrow> string \<Rightarrow> nat \<Rightarrow> u32 \<Rightarrow> ('a dma_scheme, unit) cm" where
  "mm2s_cmd e t off v = seq_c [printf (t @ [CHR 0x0A]), dma_set e off v, dma_mm2s_status e]"

definition lb_commands :: "dmenv \<Rightarrow> ('a dma_scheme, unit) cm list" where
  "lb_commands e = [
     both_cmd e ''Resetting DMA'' 4,
     both_cmd e ''Halting DMA'' 0,
     dma_cmd e ''Writing destination address'' S2MM_DST_ADDR 0x0f000000,
     mm2s_cmd e ''Writing source address...'' MM2S_SRC_ADDR 0x0e000000,
     dma_cmd e ''Starting S2MM channel with all interrupts masked...'' S2MM_CR 0xf001,
     mm2s_cmd e ''Starting MM2S channel with all interrupts masked...'' MM2S_CR 0xf001,
     dma_cmd e ''Writing S2MM transfer length...'' S2MM_LENGTH 32,
     mm2s_cmd e ''Writing MM2S transfer length...'' MM2S_LENGTH 32]"

definition lb_waits :: "dmenv \<Rightarrow> ('a dma_scheme, unit) cm list" where
  "lb_waits e = [
     printf (''Waiting for MM2S synchronization...'' @ [CHR 0x0A]), dma_mm2s_sync e,
     printf (''Waiting for S2MM sychronization...'' @ [CHR 0x0A]), dma_s2mm_sync e,
     dma_s2mm_status e, dma_mm2s_status e]"

definition loopback_main :: "dmenv \<Rightarrow> engine \<Rightarrow> ('a lb_dma_scheme, int) cm" where
  "loopback_main e eng = then_c (seq_c (
     [poke_source e, clear_destination e, lb_dump eng ''Source memory block:      '' LB_SRC, lb_dump eng ''Destination memory block: '' LB_DST]
     @ lb_commands e @ lb_waits e @ [lb_dump eng ''Destination memory block: '' LB_DST])) (ret_c 0)"

text \<open>The variant prints words, four bytes for each byte of the transfer.\<close>

definition lb_word_dump :: "engine \<Rightarrow> string \<Rightarrow> nat \<Rightarrow> ('a lb_dma_scheme, unit) cm" where
  "lb_word_dump eng t base = then_c (printf t) (bind_c (get_c (lb_seen eng)) (\<lambda>m. memdump (\<lambda>i. m (base + i)) 32))"

definition loopback_words_main :: "dmenv \<Rightarrow> engine \<Rightarrow> ('a lb_dma_scheme, int) cm" where
  "loopback_words_main e eng = then_c (seq_c (
     [poke_source e, clear_destination e, lb_word_dump eng ''Source memory block:      '' LB_SRC, lb_word_dump eng ''Destination memory block: '' LB_DST]
     @ lb_commands e @ lb_waits e @ [lb_word_dump eng ''Destination memory block: '' LB_DST])) (ret_c 0)"

section \<open>What the loopback test shows\<close>

lemma does_both: "dm_regs_map e \<Longrightarrow>
    dma_does (both_cmd e t v) (a # b # rs) ([] @ [(4 * (S2MM_CR div 4), v)] @ [(4 * (MM2S_CR div 4), v)] @ [] @ [] @ []) rs"
  unfolding both_cmd_def by (rule dma_steps | assumption)+

lemma does_mm2s_cmd: "dm_regs_map e \<Longrightarrow> dma_does (mm2s_cmd e t off v) (a # rs) ([] @ [(4 * (off div 4), v)] @ [] @ []) rs"
  unfolding mm2s_cmd_def by (rule dma_steps | assumption)+

lemmas lb_regs = S2MM_CR_def MM2S_CR_def S2MM_DST_ADDR_def MM2S_SRC_ADDR_def S2MM_LENGTH_def MM2S_LENGTH_def

definition lb_writes :: "(nat \<times> u32) list" where
  "lb_writes = [(0x30, 4), (0x00, 4), (0x30, 0), (0x00, 0), (0x48, 0x0f000000), (0x18, 0x0e000000), (0x30, 0xf001), (0x00, 0xf001), (0x58, 32), (0x28, 32)]"

lemma lb_commands_do:
  assumes "dm_regs_map e"
  shows "dma_does (seq_c (lb_commands e)) (v1 # v2 # v3 # v4 # v5 # v6 # v7 # v8 # v9 # v10 # rs) lb_writes rs"
proof -
  have "\<exists>ws. ws = lb_writes \<and> dma_does (seq_c (lb_commands e)) (v1 # v2 # v3 # v4 # v5 # v6 # v7 # v8 # v9 # v10 # rs) ws rs"
    unfolding lb_commands_def
    by (rule exI, rule conjI [rotated]) ((rule does_both does_mm2s_cmd dma_steps assms)+, simp add: lb_writes_def lb_regs)
  then show ?thesis by simp
qed

lemma lb_waits_do:
  assumes "dm_regs_map e" "dma_done (last (w1 # map (\<lambda>(a, b, c). c) ps1))" "\<forall>v \<in> set (butlast (w1 # map (\<lambda>(a, b, c). c) ps1)). \<not> dma_done v"
    and "dma_done (last (w2 # map (\<lambda>(a, b, c). c) ps2))" "\<forall>v \<in> set (butlast (w2 # map (\<lambda>(a, b, c). c) ps2)). \<not> dma_done v"
  shows "dma_does (seq_c (lb_waits e)) (w1 # wait_reads ps1 @ w2 # wait_reads ps2 @ a # b # rs) [] rs"
proof -
  have "dma_does (seq_c (lb_waits e)) (w1 # wait_reads ps1 @ w2 # wait_reads ps2 @ a # b # rs) ([] @ [] @ [] @ [] @ [] @ [] @ []) rs"
    unfolding lb_waits_def by (rule dma_steps assms)+
  then show ?thesis by simp
qed

text \<open>The memory after the program has prepared it.\<close>

definition lb_prepared :: "(nat \<Rightarrow> u8) \<Rightarrow> nat \<Rightarrow> u8" where
  "lb_prepared m a = (if LB_DST \<le> a \<and> a < LB_DST + 32 then 0 else store32 LB_SRC 0x11223344 m a)"

lemma hex_text_word: "hex_text (\<lambda>i. lb_prepared m (LB_SRC + i)) 4 = ''44332211 ''"
proof -
  have d: "digit_chr 1 = CHR ''1''" "digit_chr 2 = CHR ''2''" "digit_chr 3 = CHR ''3''" "digit_chr 4 = CHR ''4''" by code_simp+
  have b: "byte_of 0 0x11223344 = 0x44" "byte_of 1 0x11223344 = 0x33"
    "byte_of 2 0x11223344 = 0x22" "byte_of 3 0x11223344 = 0x11" by (simp_all add: byte_of_def)
  have x: "fmt_02x 0x44 = ''44''" "fmt_02x 0x33 = ''33''" "fmt_02x 0x22 = ''22''" "fmt_02x 0x11 = ''11''"
    by (simp_all add: fmt_02x_digits d)
  have "hex_byte (\<lambda>i. lb_prepared m (LB_SRC + i)) 0 = ''44''" "hex_byte (\<lambda>i. lb_prepared m (LB_SRC + i)) 1 = ''33''"
    "hex_byte (\<lambda>i. lb_prepared m (LB_SRC + i)) 2 = ''22''" "hex_byte (\<lambda>i. lb_prepared m (LB_SRC + i)) 3 = ''11 ''"
    by (simp_all add: hex_byte_def lb_prepared_def LB_SRC_def LB_DST_def store32_def b x del: One_nat_def)
  moreover have "[0..<4] = [0, 1, 2, 3 :: nat]" by code_simp
  ultimately show ?thesis by (simp add: hex_text_def del: One_nat_def)
qed

lemma hex_text_prefix: "k \<le> n \<Longrightarrow> \<exists>r. hex_text m n = hex_text m k @ r"
proof -
  assume "k \<le> n"
  then have "[0..<n] = [0..<k] @ [k..<n]" using upt_add_eq_append [of 0 k "n - k"] by simp
  then show ?thesis by (simp add: hex_text_def)
qed

lemma lb_prepare_run:
  assumes "dm_src_map e" "dm_dst_map e"
  shows "poke_source e s = Inr ((), s\<lparr>lb_mem := store32 LB_SRC 0x11223344 (lb_mem s)\<rparr>)"
    "clear_destination e (s\<lparr>lb_mem := store32 LB_SRC 0x11223344 (lb_mem s)\<rparr>) = Inr ((), s\<lparr>lb_mem := lb_prepared (lb_mem s)\<rparr>)"
proof -
  have "lb_prepared (lb_mem s) = (\<lambda>a. if LB_DST \<le> a \<and> a < LB_DST + 32 then 0 else store32 LB_SRC 0x11223344 (lb_mem s) a)"
    by (rule ext) (simp add: lb_prepared_def)
  then show "poke_source e s = Inr ((), s\<lparr>lb_mem := store32 LB_SRC 0x11223344 (lb_mem s)\<rparr>)"
    "clear_destination e (s\<lparr>lb_mem := store32 LB_SRC 0x11223344 (lb_mem s)\<rparr>) = Inr ((), s\<lparr>lb_mem := lb_prepared (lb_mem s)\<rparr>)"
    using assms by (simp_all add: poke_source_def clear_destination_def mod_c_def cong: if_cong)
qed

definition lb_printed :: "engine \<Rightarrow> string \<Rightarrow> nat \<Rightarrow> 'a lb_dma_scheme \<Rightarrow> 'a lb_dma_scheme" where
  "lb_printed eng t base s = s\<lparr>c_out := c_out s @ t @ hex_text (\<lambda>i. lb_seen eng s (base + i)) 32 @ [CHR 0x0A]\<rparr>"

lemma lb_dump_run: "lb_dump eng t base s = Inr ((), lb_printed eng t base s)"
  by (simp add: lb_dump_def lb_printed_def then_c_def bind_c_def get_c_def printf_def hex_dump_run lb_seen_def)

text \<open>
  C30. The test is sound and complete: when the mappings succeed and both channels at last report the end of the transfer, the program
  returns with the engine programmed to move 32 bytes from 0x0e000000 to 0x0f000000; what it prints is the source, whose first word is
  the pattern, the cleared destination, and at the end the destination again, and that last line is the line of the source exactly
  when the engine has copied every byte.
\<close>

theorem loopback_shows_copy:
  assumes "dm_regs_map e" "dm_src_map e" "dm_dst_map e" "dm_writes s = []" "eng [] = (\<lambda>m. m)"
    and "dm_reads s = v1 # v2 # v3 # v4 # v5 # v6 # v7 # v8 # v9 # v10 # w1 # wait_reads ps1 @ w2 # wait_reads ps2 @ a # b # rest"
    and "dma_done (last (w1 # map (\<lambda>(a, b, c). c) ps1))" "\<forall>v \<in> set (butlast (w1 # map (\<lambda>(a, b, c). c) ps1)). \<not> dma_done v"
    and "dma_done (last (w2 # map (\<lambda>(a, b, c). c) ps2))" "\<forall>v \<in> set (butlast (w2 # map (\<lambda>(a, b, c). c) ps2)). \<not> dma_done v"
    and "m = lb_prepared (lb_mem s)" "src = hex_text (\<lambda>i. m (LB_SRC + i)) 32" "dst = hex_text (\<lambda>i. eng lb_writes m (LB_DST + i)) 32"
  shows "\<exists>s' mid r. loopback_main e eng s = Inr (0, s') \<and> dm_writes s' = lb_writes \<and> src = ''44332211 '' @ r
    \<and> c_out s' = c_out s @ ''Source memory block:      '' @ src @ [CHR 0x0A] @ ''Destination memory block: '' @ hex_text (\<lambda>_. 0) 32 @ [CHR 0x0A]
        @ mid @ ''Destination memory block: '' @ dst @ [CHR 0x0A]
    \<and> (dst = src \<longleftrightarrow> (\<forall>i < 32. eng lb_writes m (LB_DST + i) = m (LB_SRC + i)))"
proof -
  let ?d = "''Destination memory block: ''"
  define s1 where "s1 = lb_printed eng ?d LB_DST (lb_printed eng ''Source memory block:      '' LB_SRC (s\<lparr>lb_mem := m\<rparr>))"
  have s1: "dm_reads s1 = dm_reads s" "dm_writes s1 = []" "lb_mem s1 = m" using assms(4) by (simp_all add: s1_def lb_printed_def)
  have seen: "lb_seen eng (s\<lparr>lb_mem := m\<rparr>) = m" "lb_seen eng (lb_printed eng t base (s\<lparr>lb_mem := m\<rparr>)) = m" for t base
    using assms(4,5) by (simp_all add: lb_seen_def lb_printed_def)
  have "hex_text (\<lambda>i. m (LB_DST + i)) 32 = hex_text (\<lambda>_. 0) 32"
    unfolding hex_text_inj by (simp add: assms(11) lb_prepared_def)
  then have out: "c_out s1 = c_out s @ ''Source memory block:      '' @ src @ [CHR 0x0A] @ ?d @ hex_text (\<lambda>_. 0) 32 @ [CHR 0x0A]"
    unfolding s1_def lb_printed_def [of _ ?d] seen by (simp add: lb_printed_def seen assms(12))
  have "dma_does (seq_c (lb_commands e @ lb_waits e)) (v1 # v2 # v3 # v4 # v5 # v6 # v7 # v8 # v9 # v10 # w1 # wait_reads ps1 @ w2 # wait_reads ps2 @ a # b # rest)
      (lb_writes @ []) rest"
    by (rule does_seq_append [OF lb_commands_do [OF assms(1)] lb_waits_do [OF assms(1,7-10)]])
  from dma_doesD [OF this s1(1) [unfolded assms(6)]] obtain mid where
    mid: "seq_c (lb_commands e @ lb_waits e) s1 = Inr ((), dma_upd mid lb_writes rest s1)" by auto
  define s2 where "s2 = dma_upd mid lb_writes rest s1"
  have s2: "lb_seen eng s2 = eng lb_writes m" "c_out s2 = c_out s1 @ mid" "dm_writes s2 = lb_writes"
    using s1 by (simp_all add: lb_seen_def dma_upd_def s2_def)
  have "seq_c ((lb_commands e @ lb_waits e) @ [lb_dump eng ?d LB_DST]) s1 = Inr ((), lb_printed eng ?d LB_DST s2)"
    using mid by (subst seq_c_append) (simp add: lb_dump_run s2_def)
  then have "loopback_main e eng s = Inr (0, lb_printed eng ?d LB_DST s2)"
    unfolding loopback_main_def append.simps append_assoc seq_c.simps
    by (simp add: then_c_def lb_prepare_run [OF assms(2,3)] assms(11) [symmetric] lb_dump_run s1_def [symmetric] ret_c_def)
  moreover have "c_out (lb_printed eng ?d LB_DST s2) = c_out s @ ''Source memory block:      '' @ src @ [CHR 0x0A] @ ?d @ hex_text (\<lambda>_. 0) 32 @ [CHR 0x0A]
        @ mid @ ?d @ dst @ [CHR 0x0A]" "dm_writes (lb_printed eng ?d LB_DST s2) = lb_writes"
    unfolding lb_printed_def s2(1) by (simp_all add: s2(2,3) out assms(13))
  moreover obtain r where "src = ''44332211 '' @ r"
    using hex_text_prefix [of 4 32 "\<lambda>i. m (LB_SRC + i)"] unfolding assms(11,12) hex_text_word by auto
  moreover have "dst = src \<longleftrightarrow> (\<forall>i < 32. eng lb_writes m (LB_DST + i) = m (LB_SRC + i))"
    unfolding assms(12,13) by (rule hex_text_inj)
  ultimately show ?thesis by blast
qed

text \<open>An engine that copies when the second length is written.\<close>

definition copy_engine :: engine where
  "copy_engine ws m a = (if (0x28, 32) \<in> set ws \<and> LB_DST \<le> a \<and> a < LB_DST + 32 then m (LB_SRC + (a - LB_DST)) else m a)"

definition lb_dma0 :: lb_dma where
  "lb_dma0 = \<lparr>c_out = [], c_err = [], dm_writes = [], dm_reads = [1, 1, 1, 1, 0, 0, 0, 0, 0, 0, 0, 2, 2, 0x1002, 0x1002, 0x1002, 0x1002], lb_mem = (\<lambda>_. 7)\<rparr>"

theorem loopback_shows_copy_witness:
  "\<exists>s' mid r. loopback_main dmenv0 copy_engine lb_dma0 = Inr (0, s') \<and> dm_writes s' = lb_writes
    \<and> c_out s' = ''Source memory block:      '' @ (''44332211 '' @ r) @ [CHR 0x0A] @ ''Destination memory block: '' @ hex_text (\<lambda>_. 0) 32 @ [CHR 0x0A]
        @ mid @ ''Destination memory block: '' @ (''44332211 '' @ r) @ [CHR 0x0A]"
proof -
  have "dma_done 0x1002" "\<not> dma_done 0" by (simp_all add: dma_done_def)
  then have d: "dma_done (last (0 # map (\<lambda>(a, b, c). c) [(2 :: u32, 2 :: u32, 0x1002)]))"
    "\<forall>v \<in> set (butlast (0 # map (\<lambda>(a, b, c). c) [(2 :: u32, 2 :: u32, 0x1002)])). \<not> dma_done v"
    "dma_done (last (0x1002 # map (\<lambda>(a :: u32, b :: u32, c). c) []))" "\<forall>v \<in> set (butlast (0x1002 # map (\<lambda>(a :: u32, b :: u32, c). c) [])). \<not> dma_done v"
    by simp_all
  have h: "dm_regs_map dmenv0" "dm_src_map dmenv0" "dm_dst_map dmenv0" "dm_writes lb_dma0 = []" "copy_engine [] = (\<lambda>m. m)" "c_out lb_dma0 = []"
    "dm_reads lb_dma0 = 1 # 1 # 1 # 1 # 0 # 0 # 0 # 0 # 0 # 0 # 0 # wait_reads [(2, 2, 0x1002)] @ 0x1002 # wait_reads [] @ 0x1002 # 0x1002 # []"
    by (simp_all add: dmenv0_def lb_dma0_def copy_engine_def fun_eq_iff)
  let ?m = "lb_prepared (lb_mem lb_dma0)"
  let ?src = "hex_text (\<lambda>i. ?m (LB_SRC + i)) 32" and ?dst = "hex_text (\<lambda>i. copy_engine lb_writes ?m (LB_DST + i)) 32"
  obtain s' mid r where r: "loopback_main dmenv0 copy_engine lb_dma0 = Inr (0, s')" "dm_writes s' = lb_writes" "?src = ''44332211 '' @ r"
      "c_out s' = c_out lb_dma0 @ ''Source memory block:      '' @ ?src @ [CHR 0x0A] @ ''Destination memory block: '' @ hex_text (\<lambda>_. 0) 32 @ [CHR 0x0A]
        @ mid @ ''Destination memory block: '' @ ?dst @ [CHR 0x0A]"
      "?dst = ?src \<longleftrightarrow> (\<forall>i < 32. copy_engine lb_writes ?m (LB_DST + i) = ?m (LB_SRC + i))"
    using loopback_shows_copy [where eng = copy_engine and ?ps1.0 = "[(2, 2, 0x1002)]" and ?ps2.0 = "[]", OF h(1-5,7) d refl refl refl] by blast
  have "\<forall>i < 32. copy_engine lb_writes ?m (LB_DST + i) = ?m (LB_SRC + i)"
    by (simp add: copy_engine_def lb_writes_def)
  then have "?dst = ?src" using r(5) by blast
  then show ?thesis using r(1,2,4) unfolding r(3) h(6) by (metis append_Nil)
qed

text \<open>
  The variant with words: of the block of 32 bytes it prints 128, the words of the transfer first.
\<close>

lemma lb_word_dump_run: "lb_word_dump eng t base s
    = Inr ((), s\<lparr>c_out := c_out s @ t @ concat (map (word_line (\<lambda>i. lb_seen eng s (base + i))) ([0..<8] @ [8..<32]))\<rparr>)"
proof -
  have "[0..<32] = [0..<8] @ [8..<32 :: nat]" using upt_add_eq_append [of 0 8 24] by (simp del: upt_rec_numeral)
  then show ?thesis
    by (simp add: lb_word_dump_def then_c_def bind_c_def get_c_def printf_def memdump_run lb_seen_def del: upt_rec_numeral)
qed

section \<open>The test of a stream, corrected and with a counter\<close>

text \<open>The destination is mapped where the engine writes.\<close>

definition stream_main :: "dmenv \<Rightarrow> ('a dma_scheme, int) cm" where
  "stream_main e = then_c (seq_c (dma_start e @ [
     if dm_dst_map e then memdump (\<lambda>i. dm_phys e (0x0f000000 + i)) 4096 else stop_c OutOfBounds,
     unmap_c e 0, unmap_c e 1, unmap_c e 2])) (ret_c 0)"

text \<open>The program now shows the transfer: its first 1024 lines are the 4096 bytes the engine was asked to write, and 3072 lines of other memory follow.\<close>

lemma stream_shows_destination:
  assumes "dm_regs_map e" "dm_dst_map e" "\<forall>k. dm_unmap e k" "dm_reads s = [v1, v2, v3, v4, v5] @ w # wait_reads ps @ rest"
    and "dma_done (last (w # map (\<lambda>(a, b, c). c) ps))" "\<forall>v \<in> set (butlast (w # map (\<lambda>(a, b, c). c) ps)). \<not> dma_done v"
  shows "\<exists>s' pre. stream_main e s = Inr (0, s')
    \<and> dm_writes s' = dm_writes s @ [(0x30, 4), (0x30, 0), (0x48, 0x0f000000), (0x30, 0xf001), (0x58, 4096)]
    \<and> c_out s' = pre @ concat (map (word_line (\<lambda>i. dm_phys e (0x0f000000 + i))) [0..<1024])
        @ concat (map (word_line (\<lambda>i. dm_phys e (0x0f000000 + i))) [1024..<4096])"
proof -
  obtain t where t: "seq_c (dma_start e) s = Inr ((), t)"
      "dm_writes t = dm_writes s @ [(0x30, 4), (0x30, 0), (0x48, 0x0f000000), (0x30, 0xf001), (0x58, 4096)]"
    using dma_start_run [OF assms(1,4-6)] by blast
  have sp: "[0..<4096] = [0..<1024] @ [1024..<4096 :: nat]" using upt_add_eq_append [of 0 1024 3072] by (simp del: upt_rec_numeral)
  have "stream_main e s = Inr (0, t\<lparr>c_out := c_out t @ concat (map (word_line (\<lambda>i. dm_phys e (0x0f000000 + i))) [0..<4096])\<rparr>)"
    using assms(2,3) t(1) by (simp add: stream_main_def seq_c_append then_c_def memdump_run unmap_c_def ret_c_def del: upt_rec_numeral)
  then show ?thesis using t(2) unfolding sp by (simp del: upt_rec_numeral)
qed

text \<open>The variant for the counter: another length, and a dump of bytes at 0x1E000000.\<close>

definition counter_start :: "dmenv \<Rightarrow> ('a dma_scheme, unit) cm list" where
  "counter_start e = [
     dma_cmd e ''Resetting DMA'' S2MM_CR 4,
     dma_cmd e ''Halting DMA'' S2MM_CR 0,
     dma_cmd e ''Writing destination address'' S2MM_DST_ADDR 0x0f000000,
     dma_cmd e ''Starting S2MM channel with all interrupts masked...'' S2MM_CR 0xf001,
     dma_cmd e ''Writing S2MM transfer length...'' S2MM_LENGTH 1024,
     printf (''Waiting for S2MM sychronization...'' @ [CHR 0x0A]), dma_s2mm_sync e,
     printf ''Destination memory block: '']"

definition counter_main :: "dmenv \<Rightarrow> ('a dma_scheme, int) cm" where
  "counter_main e = then_c (seq_c (counter_start e @ [
     if dm_dst_map e then hex_dump (\<lambda>i. dm_phys e (0x1E000000 + i)) 1024 else stop_c OutOfBounds,
     unmap_c e 0])) (ret_c 0)"

text \<open>It prints the memory at 0x1E000000 while the engine writes at 0x0f000000: the transfer makes no difference to the output.\<close>

lemma counter_misses_destination:
  assumes "dm_regs_map e" "dm_dst_map e" "dm_unmap e 0" "dm_reads s = v1 # v2 # v3 # v4 # v5 # w # wait_reads ps @ rest"
    and "dma_done (last (w # map (\<lambda>(a, b, c). c) ps))" "\<forall>v \<in> set (butlast (w # map (\<lambda>(a, b, c). c) ps)). \<not> dma_done v"
  shows "\<exists>s' pre. counter_main e s = Inr (0, s')
    \<and> dm_writes s' = dm_writes s @ [(0x30, 4), (0x30, 0), (0x48, 0x0f000000), (0x30, 0xf001), (0x58, 1024)]
    \<and> c_out s' = pre @ hex_text (\<lambda>i. dm_phys e (0x1E000000 + i)) 1024 @ [CHR 0x0A]"
proof -
  have "dma_does (seq_c (counter_start e)) (v1 # v2 # v3 # v4 # v5 # w # wait_reads ps @ rest)
      ([(4 * (S2MM_CR div 4), 4)] @ [(4 * (S2MM_CR div 4), 0)] @ [(4 * (S2MM_DST_ADDR div 4), 0x0f000000)] @ [(4 * (S2MM_CR div 4), 0xf001)]
       @ [(4 * (S2MM_LENGTH div 4), 1024)] @ [] @ [] @ [] @ []) rest"
    unfolding counter_start_def by (rule dma_steps assms(1,5,6))+
  from dma_doesD [OF this assms(4)] obtain t where t: "seq_c (counter_start e) s = Inr ((), t)"
      "dm_writes t = dm_writes s @ [(0x30, 4), (0x30, 0), (0x48, 0x0f000000), (0x30, 0xf001), (0x58, 1024)]"
    by (auto simp: lb_regs)
  have "counter_main e s = Inr (0, t\<lparr>c_out := c_out t @ hex_text (\<lambda>i. dm_phys e (0x1E000000 + i)) 1024 @ [CHR 0x0A]\<rparr>)"
    using assms(2,3) t(1) by (simp add: counter_main_def seq_c_append then_c_def hex_dump_run unmap_c_def ret_c_def)
  then show ?thesis using t(2) by simp
qed

end
