(* ===== verification/Xadc_Test.thy ===== *)
theory Xadc_Test
  imports Zynq_Io
begin

text \<open>
  The test of the converter inside the Zynq, \<^verbatim>\<open>projects/xadc_test/xadc_uio.c\<close>: it maps the converter and prints four input
  voltages, the temperature, an offset and a supply voltage.
\<close>

section \<open>Environment\<close>

text \<open>The result of \<open>open\<close>, the text of the size file if it opens, the result of \<open>mmap\<close>, and the registers.\<close>

record xtenv =
  xt_open :: int
  xt_size :: "string option"
  xt_map :: bool
  xt_reg :: "u32 \<Rightarrow> u32"

definition XADC_TEMPERATURE :: u32 where "XADC_TEMPERATURE = 0x200"
definition XADC_VPVN :: u32 where "XADC_VPVN = 0x20C"
definition XADC_SPLYOFF :: u32 where "XADC_SPLYOFF = 0x220"

definition XADC_RDIV_VAL :: rat where "XADC_RDIV_VAL = f64 (1798 / 1000)"

text \<open>A register read into an \<open>int16_t\<close>.\<close>

definition xt_read :: "xtenv \<Rightarrow> u32 \<Rightarrow> int" where
  "xt_read e off = wrap16 (uint (xt_reg e off))"

text \<open>The result of \<open>fscanf\<close> is not looked at.\<close>

definition xt_memory_size :: "xtenv \<Rightarrow> ('a cio_scheme, u32) cm" where
  "xt_memory_size e = (case xt_size e of
       None \<Rightarrow> then_c (printf (''unable to open the uio size file'' @ nl)) (stop_c (ExitWith (- 1)))
     | Some txt \<Rightarrow> (case scan_0x txt of Inl _ \<Rightarrow> stop_c Uninit | Inr n \<Rightarrow> ret_c n))"

section \<open>Conversions\<close>

text \<open>\<open>(value>>4)*XADC_CONV_VAL*XADC_RDIV_VAL\<close>.\<close>

definition xt_volts :: "int \<Rightarrow> rat" where
  "xt_volts v = f64 (f64 (of_int (v div 16) * XADC_CONV_VAL) * XADC_RDIV_VAL)"

text \<open>\<open>(((value>>4)*503.975)/65536) - 273.15\<close>.\<close>

definition xt_celsius :: "int \<Rightarrow> rat" where
  "xt_celsius v = f64 (f64 (f64 (of_int (v div 16) * f64 (503975 / 1000)) / 65536) - f64 (27315 / 100))"

text \<open>\<open>(((value>>4))/4096)*3.0\<close>, with the division of integers.\<close>

definition xt_supply :: "int \<Rightarrow> rat" where
  "xt_supply v = f64 (of_int ((v div 16) sdiv 4096) * 3)"

section \<open>The program\<close>

definition xt_pin :: "string \<Rightarrow> xadc_ai \<Rightarrow> xtenv \<Rightarrow> string" where
  "xt_pin name ai e = ''The Voltage at pin '' @ name @ '' is: '' @ fmt_f 6 (xt_volts (xt_read e (xadc_off ai))) @ '' V'' @ nl"

definition xt_lines :: "xtenv \<Rightarrow> string list" where
  "xt_lines e = [xt_pin ''AI0'' XADC_AI0 e, xt_pin ''AI1'' XADC_AI1 e, xt_pin ''AI2'' XADC_AI2 e, xt_pin ''AI3'' XADC_AI3 e,
     ''The internal temperature is: '' @ fmt_f 6 (xt_celsius (xt_read e XADC_TEMPERATURE)) @ '' degC'' @ nl,
     ''The internal temperature is: '' @ fmt_d (xt_read e XADC_TEMPERATURE div 16) @ '' degC'' @ nl,
     ''The supply coeff. offset is: '' @ pad_left CHR ''0'' 4 (fmt_x (to_u32 (xt_read e XADC_SPLYOFF))) @ '' '' @ nl,
     ''The internal VCCINT is: '' @ fmt_f 6 (xt_supply (xt_read e XADC_VPVN)) @ '' V'' @ nl]"

definition xadc_test_main :: "xtenv \<Rightarrow> ('a cio_scheme, int) cm" where
  "xadc_test_main e =
     then_c (printf (''INTC UIO int test.'' @ nl))
     (if xt_open e < 1 then then_c (printf (''Invalid UIO device file:/dev/uio3.'' @ nl)) (ret_c (- 1))
      else bind_c (xt_memory_size e) (\<lambda>sz.
        if \<not> xt_map e then then_c (printf (''mmap call failure.'' @ nl)) (ret_c (- 1))
        else if unat sz < 0x26C then stop_c OutOfBounds
        else then_c (for_c (xt_lines e) printf) (ret_c 0)))"

section \<open>What it prints\<close>

lemma code_range: "- 2048 \<le> xt_read e off div 16" "xt_read e off div 16 < 2048"
proof -
  have "- 32768 \<le> xt_read e off" "xt_read e off < 32768"
    using signed_take_bit_int_greater_eq_minus_exp [of 15 "uint (xt_reg e off)"] signed_take_bit_int_less_exp [of 15 "uint (xt_reg e off)"]
    by (simp_all add: xt_read_def wrap16_def)
  then show "- 2048 \<le> xt_read e off div 16" "xt_read e off div 16 < 2048" by linarith+
qed

lemma supply_zero: "xt_supply (xt_read e off) = 0"
proof -
  have "(xt_read e off div 16) sdiv 4096 = 0"
    using code_range [where e = e and off = off] by (auto simp: signed_divide_int_def sgn_if abs_less_iff)
  then show ?thesis by (simp add: xt_supply_def)
qed

text \<open>A 12-bit code is divided by 65536 as if it had 16 bits, and taken as signed.\<close>

lemma celsius_range: "- 289 \<le> xt_celsius (xt_read e off) \<and> xt_celsius (xt_read e off) \<le> - 257"
proof -
  let ?u = "1 / 9007199254740992 :: rat"
  define k where "k = (of_int (xt_read e off div 16) :: rat)"
  have "(of_int (- 2048) :: rat) \<le> k" "k \<le> of_int 2048"
    unfolding k_def of_int_le_iff using code_range [where e = e and off = off] by simp_all
  then have k: "\<bar>k\<bar> \<le> 2048" by simp
  have c: "\<bar>f64 (503975 / 1000) - 503975 / 1000\<bar> \<le> 504 * ?u" "\<bar>f64 (27315 / 100) - 27315 / 100\<bar> \<le> 274 * ?u"
    by (rule fp64.rnd_near, simp)+
  have cb: "\<bar>f64 (503975 / 1000)\<bar> \<le> 504" using c(1) by linarith
  have m: "\<bar>k * f64 (503975 / 1000)\<bar> \<le> 1032192"
    using mult_mono [OF k cb] by (simp add: abs_mult)
  have m': "\<bar>f64 (k * f64 (503975 / 1000)) - k * f64 (503975 / 1000)\<bar> \<le> 1032192 * ?u" using fp64.rnd_near [OF m] .
  then have "\<bar>f64 (k * f64 (503975 / 1000))\<bar> \<le> 1032193" using m by linarith
  then have d: "\<bar>f64 (k * f64 (503975 / 1000)) / 65536\<bar> \<le> 1032193 / 65536" by simp
  have d': "\<bar>f64 (f64 (k * f64 (503975 / 1000)) / 65536)\<bar> \<le> 1576 / 100"
    using fp64.rnd_near [OF d] d by linarith
  define y where "y = f64 (f64 (k * f64 (503975 / 1000)) / 65536) - f64 (27315 / 100)"
  have y: "- 28892 / 100 \<le> y" "y \<le> - 25738 / 100" using d' c(2) unfolding y_def by linarith+
  then have "\<bar>y\<bar> \<le> 289" by linarith
  from fp64.rnd_near [OF this] have "- 289 \<le> f64 y \<and> f64 y \<le> - 257" using y by linarith
  then show ?thesis by (simp add: xt_celsius_def k_def y_def)
qed

text \<open>
  On a board whose devices open, whatever the converter measures, the program prints as the temperature a value
  between -289 and -257 degrees and as the supply voltage 0.000000: the formulas divide a
  12-bit code by 65536 and by 4096 in integers.
\<close>

lemma xadc_test_ranges:
  assumes "1 \<le> xt_open e" "xt_size e = Some txt" "scan_0x txt = Inr sz" "xt_map e" "0x26C \<le> unat sz"
  shows "\<exists>s' t. xadc_test_main e s = Inr (0, s') \<and> - 289 \<le> t \<and> t \<le> - 257
    \<and> (\<exists>before between. c_out s' = c_out s @ before @ ''The internal temperature is: '' @ fmt_f 6 t @ '' degC'' @ nl @ between
        @ ''The internal VCCINT is: 0.000000 V'' @ nl)"
proof -
  let ?t = "xt_celsius (xt_read e XADC_TEMPERATURE)"
  have z: "fmt_f 6 0 = ''0.000000''" by code_simp
  have all: "for_c xs printf s = Inr ((), s\<lparr>c_out := c_out s @ concat xs\<rparr>)" for xs and s :: "'a cio_scheme"
    by (induction xs arbitrary: s) (simp_all add: printf_def)
  have out: "xadc_test_main e s = Inr (0, s\<lparr>c_out := c_out s @ ''INTC UIO int test.'' @ nl @ concat (xt_lines e)\<rparr>)"
    using assms by (simp add: xadc_test_main_def xt_memory_size_def cm_defs all)
  have lines: "\<exists>before between. concat (xt_lines e) = before @ ''The internal temperature is: '' @ fmt_f 6 ?t @ '' degC'' @ nl @ between
        @ ''The internal VCCINT is: 0.000000 V'' @ nl"
  proof (intro exI)
    show "concat (xt_lines e) = concat (take 4 (xt_lines e)) @ ''The internal temperature is: '' @ fmt_f 6 ?t @ '' degC'' @ nl
        @ concat (take 2 (drop 5 (xt_lines e))) @ ''The internal VCCINT is: 0.000000 V'' @ nl"
      unfolding xt_lines_def supply_zero z by simp
  qed
  then obtain before between where w: "concat (xt_lines e) = before @ ''The internal temperature is: '' @ fmt_f 6 ?t @ '' degC'' @ nl @ between
        @ ''The internal VCCINT is: 0.000000 V'' @ nl" by blast
  let ?s' = "s\<lparr>c_out := c_out s @ ''INTC UIO int test.'' @ nl @ concat (xt_lines e)\<rparr>"
  have upd: "c_out (s\<lparr>c_out := x\<rparr>) = x" for x by simp
  show ?thesis
  proof (intro exI conjI)
    show "xadc_test_main e s = Inr (0, ?s')" by (rule out)
    show "- 289 \<le> ?t" "?t \<le> - 257" using celsius_range [of e XADC_TEMPERATURE] by blast+
    show "c_out ?s' = c_out s @ (''INTC UIO int test.'' @ nl @ before)
      @ ''The internal temperature is: '' @ fmt_f 6 ?t @ '' degC'' @ nl @ between @ ''The internal VCCINT is: 0.000000 V'' @ nl"
      by (simp only: upd w append_assoc)
  qed
qed

definition xtenv0 :: xtenv where
  "xtenv0 = \<lparr>xt_open = 3, xt_size = Some ''0x00010000'', xt_map = True, xt_reg = (\<lambda>off. if off = 0x200 then 0x9B40 else 0x5555)\<rparr>"

lemma xadc_test_ranges_witness:
  "\<exists>s' t before between. xadc_test_main xtenv0 \<lparr>c_out = [], c_err = []\<rparr> = Inr (0, s') \<and> - 289 \<le> t \<and> t \<le> (- 257 :: rat)
    \<and> c_out s' = before @ ''The internal temperature is: '' @ fmt_f 6 t @ '' degC'' @ nl @ between @ ''The internal VCCINT is: 0.000000 V'' @ nl"
proof -
  have "scan_0x ''0x00010000'' = Inr 0x10000" by code_simp
  from xadc_test_ranges [OF _ _ this, of xtenv0 "\<lparr>c_out = [], c_err = []\<rparr>"] show ?thesis
    by (auto simp: xtenv0_def)
qed

end
