(* ===== verification/Trigger_Test.thy ===== *)
theory Trigger_Test
  imports Lago_Daq Pipe_Recorder Byte_Mem
begin

text \<open>
  The test of the trigger, \<^verbatim>\<open>projects/trigger_test/trigger_test.c\<close>: it sets the trigger levels and writes the words of the FPGA as lines to
  a file, half a ring at a time, until the signal.  The expression for a sample is that of \<^verbatim>\<open>lago.c\<close>, and the test for a
  complete half is that of the two-process recorder; both are shared.
\<close>

section \<open>State\<close>

text \<open>
  The bytes of the configuration registers, \<open>position\<close>, which has no value at first, the text of the file, and the counters of pulses.
\<close>

record trig_test = cio +
  tt_cfg :: "nat \<Rightarrow> u8"
  tt_interrupted :: bool
  tt_limit :: int
  tt_position :: "int option"
  tt_file :: string
  tt_dp :: int
  tt_cdp :: int
  tt_cnt :: int
  tt_pnt :: int
  tt_naps :: nat

text \<open>
  The system: whether it completes accesses off the word grid, as the kernel can be told to, and the results of the calls.
\<close>

record ttenv =
  tt_fixup :: bool
  tt_fopen :: bool
  tt_mem :: int
  tt_cfg_map :: bool
  tt_sts_map :: bool
  tt_ram_map :: bool
  tt_page :: nat

section \<open>Registers\<close>

definition tt_set :: "ttenv \<Rightarrow> nat \<Rightarrow> u32 \<Rightarrow> ('a trig_test_scheme, unit) cm" where
  [cm_defs]: "tt_set e off v = (if \<not> tt_cfg_map e then stop_c OutOfBounds
     else if off mod 4 \<noteq> 0 \<and> \<not> tt_fixup e then stop_c Unaligned
     else mod_c (\<lambda>s. s\<lparr>tt_cfg := store32 off v (tt_cfg s)\<rparr>))"

definition tt_rst :: "ttenv \<Rightarrow> (u32 \<Rightarrow> u32) \<Rightarrow> ('a trig_test_scheme, unit) cm" where
  [cm_defs]: "tt_rst e f = bind_c (get_c (\<lambda>s. word_of_nat (get32 (tt_cfg s) 0))) (\<lambda>v. tt_set e 0 (f v))"

definition tt_setup :: "ttenv \<Rightarrow> int \<Rightarrow> ('a trig_test_scheme, unit) cm" where
  "tt_setup e lvl = seq_c [tt_set e 8 (to_u32 lvl), tt_set e 10 8190, tt_set e 12 8190, tt_set e 14 8190,
     tt_rst e (\<lambda>v. v AND NOT 1), tt_rst e (\<lambda>v. v AND NOT 4), tt_rst e (\<lambda>v. v AND NOT 2), tt_set e 4 (1024 * 1024),
     tt_rst e (\<lambda>v. v OR 2), tt_rst e (\<lambda>v. v OR 1), tt_rst e (\<lambda>v. v OR 4)]"

section \<open>The words\<close>

definition tt_out :: "string \<Rightarrow> ('a trig_test_scheme, unit) cm" where
  [cm_defs]: "tt_out t = mod_c (\<lambda>s. s\<lparr>tt_file := tt_file s @ t\<rparr>)"

definition tt_count :: "int \<Rightarrow> ('a trig_test_scheme, unit) cm" where
  [cm_defs]: "tt_count n = seq_c [mod_c (\<lambda>s. s\<lparr>tt_pnt := tt_cnt s\<rparr>), mod_c (\<lambda>s. s\<lparr>tt_cnt := n\<rparr>),
     mod_c (\<lambda>s. s\<lparr>tt_dp := wrap32 (tt_cnt s - tt_pnt s - 1)\<rparr>),
     bind_c (get_c (\<lambda>s. tt_dp s > 0 \<and> tt_pnt s \<noteq> 0)) (\<lambda>b. if_c b (mod_c (\<lambda>s. s\<lparr>tt_cdp := wrap32 (tt_cdp s + tt_dp s)\<rparr>)))]"

text \<open>The two samples and the word itself are three loads of the same place, \<open>w0\<close>, \<open>w1\<close> and \<open>wo\<close> what it holds at each.\<close>

definition tt_word :: "u32 \<Rightarrow> u32 \<Rightarrow> u32 \<Rightarrow> ('a trig_test_scheme, unit) cm" where
  "tt_word w0 w1 wo = (let k = uint (drop_bit 30 wo); nl = [CHR 0x0A] in
     if k = 0 then tt_out (fmt_wd 5 (sample_value (ch_lo w0)) @ '' '' @ fmt_wd 5 (sample_value (ch_hi w1)) @ nl)
     else if k = 1 then tt_out (''# t '' @ fmt_d (uint (drop_bit 27 wo AND 7)) @ '' '' @ fmt_d (uint (wo AND 0x7FFFFFF)) @ nl)
     else if k = 2 then (let n = uint (wo AND 0x3FFFFFFF) in then_c (tt_count n) (tt_out (''# c '' @ fmt_d n @ nl)))
     else then_c (printf (''# E @@@'' @ nl))
       (printf (''# E 3 - unknown word from FPGA: '' @ fmt_d (uint (drop_bit 27 wo)) @ '' '' @ fmt_x (drop_bit 27 wo) @ nl)))"

text \<open>A load, \<open>ram\<close> being the memory by words at that moment; the offset is in bytes.\<close>

definition tt_read :: "ttenv \<Rightarrow> (nat \<Rightarrow> u32) \<Rightarrow> nat \<Rightarrow> ('a trig_test_scheme, u32) cm" where
  "tt_read e ram off = (if \<not> tt_ram_map e \<or> 1024 * tt_page e < off + 4 then stop_c OutOfBounds else ret_c (ram (off div 4)))"

text \<open>The FPGA goes on writing while the program prints: \<open>ram k\<close> is the memory at the \<open>k\<close>-th load of a pass.\<close>

definition tt_item :: "ttenv \<Rightarrow> (nat \<Rightarrow> nat \<Rightarrow> u32) \<Rightarrow> nat \<Rightarrow> nat \<Rightarrow> ('a trig_test_scheme, unit) cm" where
  "tt_item e ram off i = bind_c (tt_read e (ram (3 * i)) (off + 4 * i)) (\<lambda>w0.
     bind_c (tt_read e (ram (3 * i + 1)) (off + 4 * i)) (\<lambda>w1.
     bind_c (tt_read e (ram (3 * i + 2)) (off + 4 * i)) (tt_word w0 w1)))"

definition tt_offset :: "int \<Rightarrow> nat" where
  "tt_offset lm = (if lm > 0 then 0 else 512 * 1024)"

definition tt_pass :: "ttenv \<Rightarrow> u32 \<Rightarrow> (nat \<Rightarrow> nat \<Rightarrow> u32) \<Rightarrow> ('a trig_test_scheme, unit) cm" where
  "tt_pass e w ram = (if \<not> tt_sts_map e then stop_c OutOfBounds
     else then_c (mod_c (\<lambda>s. s\<lparr>tt_position := Some (of_u32 w)\<rparr>))
       (bind_c (get_c tt_limit) (\<lambda>lm.
         if half_done lm (of_u32 w)
         then then_c (mod_c (\<lambda>s. s\<lparr>tt_limit := (if lm > 0 then 0 else 512 * 1024)\<rparr>))
           (for_c [0..<512 * 1024] (tt_item e ram (tt_offset lm)))
         else mod_c (\<lambda>s. s\<lparr>tt_naps := Suc (tt_naps s)\<rparr>))))"

text \<open>The signal, or the condition of the loop with the position and the memories the pass after it would see.\<close>

datatype tt_ev = TSig | TLook u32 "nat \<Rightarrow> nat \<Rightarrow> u32"

fun tt_loop :: "ttenv \<Rightarrow> tt_ev list \<Rightarrow> ('a trig_test_scheme, unit) cm" where
  "tt_loop e [] = (\<lambda>s. if tt_interrupted s then Inr ((), s) else Inl Blocked)"
| "tt_loop e (TSig # es) = then_c (mod_c (\<lambda>s. s\<lparr>tt_interrupted := True\<rparr>)) (tt_loop e es)"
| "tt_loop e (TLook w ram # es) = bind_c (get_c tt_interrupted) (\<lambda>i. if i then ret_c () else then_c (tt_pass e w ram) (tt_loop e es))"

text \<open>
  At the end the rest of the half that is being written is read, but not stored anywhere.  When the signal came before the first
  look \<open>position\<close> has no value.
\<close>

definition tt_finish :: "ttenv \<Rightarrow> (nat \<Rightarrow> nat \<Rightarrow> u32) \<Rightarrow> ('a trig_test_scheme, unit) cm" where
  "tt_finish e ram = then_c (seq_c [tt_rst e (\<lambda>v. v AND NOT 1), tt_rst e (\<lambda>v. v AND NOT 2), tt_rst e (\<lambda>v. v AND NOT 4)])
     (bind_c (get_c (\<lambda>s. (tt_limit s, tt_position s))) (\<lambda>(lm, p). case p of None \<Rightarrow> stop_c Uninit
      | Some pos \<Rightarrow>
        then_c (mod_c (\<lambda>s. s\<lparr>tt_limit := (if lm > 0 then pos else wrap32 (pos - 512 * 1024))\<rparr>))
        (bind_c (get_c tt_limit) (\<lambda>lm'. for_c [0..<nat lm'] (\<lambda>i. bind_c (tt_read e (ram i) (tt_offset lm + 4 * i)) (\<lambda>_. ret_c ()))))))"

section \<open>main\<close>

text \<open>
  \<open>exit\<close> in \<open>main\<close> is a return.  With one argument \<open>argv[2]\<close> is the null pointer that ends the array, and \<open>atoi\<close> reads it.
\<close>

definition tt_main :: "ttenv \<Rightarrow> string list \<Rightarrow> tt_ev list \<Rightarrow> (nat \<Rightarrow> nat \<Rightarrow> u32) \<Rightarrow> ('a trig_test_scheme, int) cm" where
  "tt_main e argv evs ram = (let nl = [CHR 0x0A] in
     then_c (printf (fmt_d (int (length argv)) @ nl))
     (case argv of [] \<Rightarrow> stop_c NullDeref
      | [prog] \<Rightarrow> then_c (printf (prog @ '' version 0.1'' @ nl))
          (then_c (printf (''Syntax: '' @ prog @ '' [filename] [trig lvl](in ADC value) [n points]'' @ nl @ ''  ex: '' @ prog @ '' data.dat 300'' @ nl)) (ret_c 1))
      | prog # name # rest \<Rightarrow>
         if \<not> tt_fopen e then then_c (printf (''Error al abrir el archivo de destino!'' @ nl)) (ret_c 1)
         else if tt_mem e < 0 then then_c (eprintf ''open'') (ret_c 1)
         else then_c (mod_c (\<lambda>s. s\<lparr>tt_limit := 512 * 1024, tt_position := None, tt_dp := 0, tt_cdp := 0, tt_cnt := 0, tt_pnt := 0\<rparr>))
           (case rest of [] \<Rightarrow> stop_c NullDeref
            | lvl # _ \<Rightarrow> then_c (seq_c [tt_setup e (atoi lvl), tt_loop e evs, tt_finish e ram]) (ret_c 0))))"

section \<open>The registers after the setup\<close>

text \<open>
  The FPGA uses 16 bits of each level.  The stores overlap, in ascending order, so each leaves the level before it alone and clears
  the half word after the last.
\<close>

lemma get16_store32:
  "get16 (store32 off w m) off = unat w mod 65536" "q = off + 2 \<Longrightarrow> get16 (store32 off w m) q = unat w div 65536"
proof -
  have "v mod 256 + 256 * (v div 256 mod 256) = v mod 65536" for v :: nat
    using mod_mult2_eq [of v 256 256] by simp
  moreover have "unat w div 65536 mod 256 + 256 * (unat w div 16777216) = unat w div 65536"
    using div_mult2_eq [of "unat w" 65536 256] mult_div_mod_eq [of 256 "unat w div 65536"] by simp
  moreover have "unat w div 16777216 < 256" using u32_lt [of w] by simp
  ultimately show "get16 (store32 off w m) off = unat w mod 65536" "q = off + 2 \<Longrightarrow> get16 (store32 off w m) q = unat w div 65536"
    by (simp_all add: get16_def store32_def unat_byte_of)
qed

lemma tt_setup_run:
  assumes "tt_cfg_map e" "tt_fixup e"
  shows "\<exists>s'. tt_setup e lvl s = Inr ((), s') \<and> int (get16 (tt_cfg s') 8) = lvl mod 65536 \<and> get16 (tt_cfg s') 10 = 8190
    \<and> get16 (tt_cfg s') 12 = 8190 \<and> get16 (tt_cfg s') 14 = 8190 \<and> get16 (tt_cfg s') 16 = 0 \<and> get32 (tt_cfg s') 4 = 1048576
    \<and> word_of_nat (get32 (tt_cfg s') 0) AND 7 = (7 :: u32)
    \<and> tt_file s' = tt_file s \<and> tt_limit s' = tt_limit s \<and> tt_position s' = tt_position s \<and> tt_interrupted s' = tt_interrupted s"
proof -
  have l: "int (unat (to_u32 lvl) mod 65536) = lvl mod 65536" by (simp add: to_u32_def zmod_int uint_word_of_int mod_mod_cancel)
  show ?thesis using assms
    by (simp add: tt_setup_def cm_defs get16_store32 l bit.conj_disj_distrib2 and.assoc)
qed

text \<open>Without the help of the kernel the second store ends the program.\<close>

lemma tt_setup_unaligned: "tt_cfg_map e \<Longrightarrow> \<not> tt_fixup e \<Longrightarrow> tt_setup e lvl s = Inl Unaligned"
  by (simp add: tt_setup_def cm_defs)

section \<open>What reaches the file\<close>

text \<open>The line of the three loads; an unknown word has none.\<close>

definition tt_line :: "u32 \<times> u32 \<times> u32 \<Rightarrow> string" where
  "tt_line ws = (case ws of (w0, w1, wo) \<Rightarrow> let k = uint (drop_bit 30 wo); nl = [CHR 0x0A] in
     if k = 0 then fmt_wd 5 (sample_value (ch_lo w0)) @ '' '' @ fmt_wd 5 (sample_value (ch_hi w1)) @ nl
     else if k = 1 then ''# t '' @ fmt_d (uint (drop_bit 27 wo AND 7)) @ '' '' @ fmt_d (uint (wo AND 0x7FFFFFF)) @ nl
     else if k = 2 then ''# c '' @ fmt_d (uint (wo AND 0x3FFFFFFF)) @ nl else [])"

lemma tt_word_run:
  "\<exists>s'. tt_word w0 w1 wo s = Inr ((), s') \<and> tt_file s' = tt_file s @ tt_line (w0, w1, wo) \<and> tt_limit s' = tt_limit s \<and> tt_position s' = tt_position s
    \<and> tt_interrupted s' = tt_interrupted s \<and> tt_cfg s' = tt_cfg s"
  by (simp add: tt_word_def tt_line_def Let_def cm_defs)

text \<open>What the three loads of a place find.\<close>

definition tt_loads :: "(nat \<Rightarrow> nat \<Rightarrow> u32) \<Rightarrow> nat \<Rightarrow> nat \<Rightarrow> u32 \<times> u32 \<times> u32" where
  "tt_loads ram off i = (let p = (off + 4 * i) div 4 in (ram (3 * i) p, ram (3 * i + 1) p, ram (3 * i + 2) p))"

lemma tt_words_run:
  assumes "\<forall>i \<in> set is. tt_ram_map e \<and> off + 4 * i + 4 \<le> 1024 * tt_page e"
  shows "\<exists>s'. for_c is (tt_item e ram off) s = Inr ((), s')
    \<and> tt_file s' = tt_file s @ concat (map (\<lambda>i. tt_line (tt_loads ram off i)) is)
    \<and> tt_limit s' = tt_limit s \<and> tt_position s' = tt_position s \<and> tt_interrupted s' = tt_interrupted s \<and> tt_cfg s' = tt_cfg s"
  using assms
proof (induction "is" arbitrary: s)
  case (Cons i "is")
  obtain w0 w1 wo where w: "tt_loads ram off i = (w0, w1, wo)" by (cases "tt_loads ram off i")
  obtain t where t: "tt_word w0 w1 wo s = Inr ((), t)" "tt_file t = tt_file s @ tt_line (w0, w1, wo)"
      "tt_limit t = tt_limit s" "tt_position t = tt_position s" "tt_interrupted t = tt_interrupted s" "tt_cfg t = tt_cfg s"
    using tt_word_run by blast
  have "tt_item e ram off i s = Inr ((), t)"
    using Cons.prems t(1) w by (auto simp: tt_item_def tt_read_def bind_c_def ret_c_def tt_loads_def Let_def)
  moreover obtain u where "for_c is (tt_item e ram off) t = Inr ((), u)"
      "tt_file u = tt_file t @ concat (map (\<lambda>i. tt_line (tt_loads ram off i)) is)"
      "tt_limit u = tt_limit t" "tt_position u = tt_position t" "tt_interrupted u = tt_interrupted t" "tt_cfg u = tt_cfg t"
    using Cons.IH [of t] Cons.prems by auto
  ultimately show ?case using t(2-6) w by simp
qed simp

section \<open>What is recorded\<close>

text \<open>
  The writer of the FPGA packs two words of the stream \<open>b\<close> into one of 8 bytes; its position counts those, up to 2^20, so the ring holds 2^21 words
  (8 MB): after \<open>T\<close> of the writer's words the last 2^21 words of the stream, each in its place.
\<close>

definition tt_ring :: "(nat \<Rightarrow> u32) \<Rightarrow> nat \<Rightarrow> (nat \<Rightarrow> u32) \<Rightarrow> bool" where
  "tt_ring b T ram \<longleftrightarrow> (\<forall>m. m < 2 * T \<and> 2 * T \<le> m + 2097152 \<longrightarrow> ram (m mod 2097152) = b m)"

text \<open>
  The words of the stream that the program prints for the half with number \<open>n\<close>, three loads for each line, the \<open>k\<close>-th load
  when \<open>\<tau> k\<close> of the writer's words have been written.  The writer's position counts 8 bytes, the program takes it to count 4: a half of the
  ring has 2^20 words, the program reads 2^19.  For the first half it reads the first half of that.  The offset of the second half is in words
  where it should be in bytes, so the program reads words of the first half again, where the writer already is: of the
  next turn if they have just been written, and else of this one.
\<close>

definition tt_again :: "nat \<Rightarrow> nat \<Rightarrow> nat \<Rightarrow> nat" where
  "tt_again n p t = (let k = 1048576 * (n + 1) + p in if k < 2 * t then k else k - 2097152)"

definition tt_half :: "nat \<Rightarrow> (nat \<Rightarrow> nat) \<Rightarrow> (nat \<times> nat \<times> nat) list" where
  "tt_half n \<tau> = (if even n then map (\<lambda>k. (k, k, k)) [1048576 * n..<1048576 * n + 524288]
     else map (\<lambda>i. let p = 131072 + i in (tt_again n p (\<tau> (3 * i)), tt_again n p (\<tau> (3 * i + 1)), tt_again n p (\<tau> (3 * i + 2)))) [0..<524288])"

fun tt_seen :: "nat \<Rightarrow> (nat \<times> (nat \<Rightarrow> nat)) list \<Rightarrow> (nat \<times> nat \<times> nat) list" where
  "tt_seen n [] = []"
| "tt_seen n ((T, \<tau>) # ps) = (if half_done (pr_flag (even n)) (of_u32 (word_of_nat (T mod 1048576))) then tt_half n \<tau> @ tt_seen (Suc n) ps
     else tt_seen n ps)"

abbreviation tt_text :: "(nat \<Rightarrow> u32) \<Rightarrow> (nat \<times> nat \<times> nat) list \<Rightarrow> string" where
  "tt_text b ks \<equiv> concat (map (\<lambda>(k0, k1, k2). tt_line (b k0, b k1, b k2)) ks)"

lemma turn_start: "even n \<Longrightarrow> p < 2097152 \<Longrightarrow> (1048576 * n + p) mod 2097152 = (p :: nat)"
  by (elim evenE) (simp add: mult.assoc [symmetric])

lemma tt_ringD: "tt_ring b T ram \<Longrightarrow> m < 2 * T \<Longrightarrow> 2 * T \<le> m + 2097152 \<Longrightarrow> m mod 2097152 = r \<Longrightarrow> ram r = b m"
  by (auto simp: tt_ring_def)

lemma tt_again_place:
  assumes "odd n" "p < 1048576"
  shows "tt_again n p t mod 2097152 = p"
proof -
  let ?k = "1048576 * (n + 1) + p"
  have k: "?k mod 2097152 = p" using turn_start [of "n + 1" p] assms by simp
  have "1 \<le> n" using assms(1) by (auto elim: oddE)
  then have "2097152 \<le> ?k" by simp
  then have "(?k - 2097152) mod 2097152 = p" using k le_mod_geq [of 2097152 ?k] by (simp only:)
  then show ?thesis using k by (simp only: tt_again_def Let_def split: if_splits) simp
qed

text \<open>One load, for the two halves.\<close>

lemma tt_load_first:
  assumes "tt_ring b t ram" "524288 * (n + 1) \<le> t" "t < 524288 * (n + 2)" "even n" "i < 524288"
  shows "ram i = b (1048576 * n + i)"
  by (rule tt_ringD [OF assms(1) _ _ turn_start [OF assms(4)]]) (use assms(2,3,5) in simp_all)

lemma tt_load_again:
  assumes "tt_ring b t ram" "524288 * (n + 1) \<le> t" "t < 524288 * (n + 2)" "odd n" "p < 1048576"
  shows "ram p = b (tt_again n p t)"
proof (rule tt_ringD [OF assms(1) _ _ tt_again_place [OF assms(4,5)]])
  have "1 \<le> n" using assms(4) by (auto elim: oddE)
  then show "tt_again n p t < 2 * t" "2 * t \<le> tt_again n p t + 2097152" using assms(2,3,5) by (auto simp: tt_again_def Let_def)
qed

definition tt_during :: "(nat \<Rightarrow> u32) \<Rightarrow> nat \<Rightarrow> nat \<Rightarrow> (nat \<Rightarrow> nat) \<Rightarrow> (nat \<Rightarrow> nat \<Rightarrow> u32) \<Rightarrow> bool" where
  "tt_during b T E \<tau> ram \<longleftrightarrow> (\<forall>k. T \<le> \<tau> k \<and> \<tau> k \<le> E \<and> tt_ring b (\<tau> k) (ram k))"

lemma tt_half_words:
  assumes "tt_during b T E \<tau> ram" "524288 * (n + 1) \<le> T" "E < 524288 * (n + 2)"
  shows "map (tt_loads ram (tt_offset (pr_flag (even n)))) [0..<524288] = map (\<lambda>(k0, k1, k2). (b k0, b k1, b k2)) (tt_half n \<tau>)"
proof -
  have t: "tt_ring b (\<tau> k) (ram k)" "524288 * (n + 1) \<le> \<tau> k" "\<tau> k < 524288 * (n + 2)" for k
    using assms by (auto simp: tt_during_def intro: le_less_trans order_trans)
  show ?thesis
  proof (cases "even n")
    case True
    then show ?thesis using tt_load_first [OF t True]
      by (intro nth_equalityI) (simp_all add: tt_half_def tt_offset_def pr_flag_def tt_loads_def Let_def del: upt_rec_numeral)
  next
    case False
    have "(524288 + 4 * i) div 4 = 131072 + i" for i :: nat by simp
    then show ?thesis using False tt_load_again [OF t False]
      by (intro nth_equalityI) (simp_all add: tt_half_def tt_offset_def pr_flag_def tt_loads_def Let_def del: upt_rec_numeral)
  qed
qed

text \<open>All three loads of a line are of one place, among the first 655360 of the ring.\<close>

definition tt_place :: "nat \<times> nat \<times> nat \<Rightarrow> bool" where
  "tt_place ks \<longleftrightarrow> (case ks of (k0, k1, k2) \<Rightarrow> k0 mod 2097152 < 655360 \<and> k1 mod 2097152 = k0 mod 2097152 \<and> k2 mod 2097152 = k0 mod 2097152)"

lemma tt_half_places: "ks \<in> set (tt_half n \<tau>) \<Longrightarrow> tt_place ks"
proof (cases "even n")
  case True
  assume "ks \<in> set (tt_half n \<tau>)"
  then obtain k where "ks = (k, k, k)" "1048576 * n \<le> k" "k < 1048576 * n + 524288" using True by (auto simp: tt_half_def)
  then show ?thesis using turn_start [OF True, of "k - 1048576 * n"] by (simp add: tt_place_def)
next
  case False
  assume "ks \<in> set (tt_half n \<tau>)"
  then show ?thesis using False by (auto simp: tt_half_def tt_place_def tt_again_place Let_def simp del: upt_rec_numeral)
qed

lemma tt_seen_places: "ks \<in> set (tt_seen n ps) \<Longrightarrow> tt_place ks"
  by (induction n ps rule: tt_seen.induct) (auto simp: tt_half_places split: if_splits)

section \<open>Runs\<close>

definition tt_ok :: "ttenv \<Rightarrow> bool" where
  "tt_ok e \<longleftrightarrow> tt_fixup e \<and> tt_fopen e \<and> 0 \<le> tt_mem e \<and> tt_cfg_map e \<and> tt_sts_map e \<and> tt_ram_map e \<and> tt_page e = 4096"

lemma HALF_W_num: "HALF_W = 524288" "2 * 524288 = (1048576 :: nat)"
  by (simp_all add: HALF_W_def)

lemmas tt_look = pr.poll [unfolded HALF_W_num]

lemma tt_position_val: "of_u32 (word_of_nat (T mod 1048576)) = int (T mod 1048576)"
proof -
  have "of_u32 (word_of_nat (T mod 1048576)) = of_u32 (to_u32 (int (T mod 1048576)))" by (simp add: to_u32_def)
  moreover have "int (T mod 1048576) < 1048576" by simp
  ultimately show ?thesis by (simp add: in_s32_def)
qed

lemma tt_pass_run:
  assumes "tt_ok e" "tt_limit s = pr_flag (even n)" "caught_up 524288 n L" "L \<le> T" "T \<le> E" "E < L + 524288" "tt_during b T E \<tau> ram"
    and "r \<longleftrightarrow> half_done (pr_flag (even n)) (of_u32 (word_of_nat (T mod 1048576)))"
  shows "\<exists>s'. tt_pass e (word_of_nat (T mod 1048576)) ram s = Inr ((), s') \<and> tt_limit s' = pr_flag (even (if r then Suc n else n))
    \<and> tt_file s' = tt_file s @ (if r then tt_text b (tt_half n \<tau>) else [])
    \<and> tt_position s' = Some (int (T mod 1048576)) \<and> tt_interrupted s' = tt_interrupted s \<and> tt_cfg s' = tt_cfg s"
proof (cases r)
  case True
  let ?s = "s\<lparr>tt_position := Some (of_u32 (word_of_nat (T mod 1048576))), tt_limit := (if pr_flag (even n) > 0 then 0 else 512 * 1024)\<rparr>"
  let ?o = "tt_offset (pr_flag (even n))"
  have T: "524288 * (n + 1) \<le> T" "E < 524288 * (n + 2)"
    using tt_look(1) [OF assms(3,4)] caught_up_next(2) [OF assms(3) _ assms(6)] assms(4-6,8) True by auto
  have m: "concat (map (\<lambda>i. tt_line (tt_loads ram ?o i)) [0..<524288]) = tt_text b (tt_half n \<tau>)"
    using arg_cong [OF tt_half_words [OF assms(7) T], of "\<lambda>ws. concat (map tt_line ws)"]
    by (simp add: comp_def split_def del: upt_rec_numeral)
  have bd: "\<forall>i \<in> set [0..<524288]. tt_ram_map e \<and> ?o + 4 * i + 4 \<le> 1024 * tt_page e"
    using assms(1) by (auto simp: tt_ok_def tt_offset_def)
  obtain u where u: "for_c [0..<524288] (tt_item e ram ?o) ?s = Inr ((), u)"
      "tt_file u = tt_file ?s @ tt_text b (tt_half n \<tau>)" "tt_limit u = tt_limit ?s" "tt_position u = tt_position ?s"
      "tt_interrupted u = tt_interrupted ?s" "tt_cfg u = tt_cfg ?s"
    using tt_words_run [OF bd, of ram ?s] unfolding m by blast
  have "tt_pass e (word_of_nat (T mod 1048576)) ram s = Inr ((), u)"
    using assms(1,2,8) True u(1) by (simp add: tt_pass_def cm_defs tt_ok_def del: upt_rec_numeral)
  then show ?thesis using True u(2-6) by (auto simp: tt_position_val pr_flag_def)
next
  case False
  then show ?thesis using assms(1,2,8) by (simp add: tt_pass_def cm_defs tt_ok_def tt_position_val)
qed

text \<open>A pass: the writer's words at the look and at the end of the pass, at each load, and the memory at each load.\<close>

type_synonym tt_turn = "nat \<times> nat \<times> (nat \<Rightarrow> nat) \<times> (nat \<Rightarrow> nat \<Rightarrow> u32)"

definition tt_look_ev :: "tt_turn \<Rightarrow> tt_ev" where
  "tt_look_ev q = (case q of (T, E, \<tau>, ram) \<Rightarrow> TLook (word_of_nat (T mod 1048576)) ram)"

definition tt_look_ok :: "(nat \<Rightarrow> u32) \<Rightarrow> tt_turn \<Rightarrow> bool" where
  "tt_look_ok b q \<longleftrightarrow> (case q of (T, E, \<tau>, ram) \<Rightarrow> tt_during b T E \<tau> ram)"

abbreviation tt_times :: "tt_turn list \<Rightarrow> (nat \<times> nat) list" where
  "tt_times qs \<equiv> map (\<lambda>q. (fst q, fst (snd q))) qs"

abbreviation tt_loads_at :: "tt_turn list \<Rightarrow> (nat \<times> (nat \<Rightarrow> nat)) list" where
  "tt_loads_at qs \<equiv> map (\<lambda>q. (fst q, fst (snd (snd q)))) qs"

lemma tt_loop_looks:
  assumes "tt_ok e"
  shows "tt_limit s = pr_flag (even n) \<Longrightarrow> caught_up 524288 n L \<Longrightarrow> L \<le> M \<Longrightarrow> passes_ok 524288 L M (tt_times qs) \<Longrightarrow> \<forall>q \<in> set qs. tt_look_ok b q \<Longrightarrow>
    \<not> tt_interrupted s \<Longrightarrow> \<exists>s' f. tt_loop e (map tt_look_ev qs @ es) s = tt_loop e es s'
      \<and> tt_file s' = tt_file s @ tt_text b (tt_seen n (tt_loads_at qs)) \<and> tt_limit s' = pr_flag f
      \<and> tt_position s' = (if qs = [] then tt_position s else Some (int (fst (last qs) mod 1048576))) \<and> tt_cfg s' = tt_cfg s"
proof (induction qs arbitrary: s n L M)
  case (Cons q qs)
  obtain T E \<tau> ram where q: "q = (T, E, \<tau>, ram)" by (cases q)
  let ?r = "half_done (pr_flag (even n)) (of_u32 (word_of_nat (T mod 1048576)))"
  let ?m = "if ?r then Suc n else n"
  have g: "L \<le> T" "T \<le> E" "E < L + 524288" "passes_ok 524288 T E (tt_times qs)" and t: "tt_during b T E \<tau> ram"
    using Cons.prems(3-5) by (auto simp: q tt_look_ok_def)
  obtain s1 where s1: "tt_pass e (word_of_nat (T mod 1048576)) ram s = Inr ((), s1)" "tt_limit s1 = pr_flag (even ?m)"
      "tt_file s1 = tt_file s @ (if ?r then tt_text b (tt_half n \<tau>) else [])"
      "tt_position s1 = Some (int (T mod 1048576))" "tt_interrupted s1 = tt_interrupted s" "tt_cfg s1 = tt_cfg s"
    using tt_pass_run [OF assms Cons.prems(1,2) g(1-3) t refl] by blast
  have "tt_loop e (map tt_look_ev (q # qs) @ es) s = tt_loop e (map tt_look_ev qs @ es) s1"
    using Cons.prems(6) s1(1) by (simp add: q tt_look_ev_def bind_c_def get_c_def then_c_def)
  moreover have c: "caught_up 524288 ?m T" using g(2,3) by (intro tt_look(3) [OF Cons.prems(2) g(1)]) simp
  have p: "\<forall>q \<in> set qs. tt_look_ok b q" "\<not> tt_interrupted s1" using Cons.prems(5,6) s1(5) by simp_all
  obtain s2 f where s2: "tt_loop e (map tt_look_ev qs @ es) s1 = tt_loop e es s2"
      "tt_file s2 = tt_file s1 @ tt_text b (tt_seen ?m (tt_loads_at qs))" "tt_limit s2 = pr_flag f"
      "tt_position s2 = (if qs = [] then tt_position s1 else Some (int (fst (last qs) mod 1048576)))" "tt_cfg s2 = tt_cfg s1"
    using Cons.IH [OF s1(2) c g(2,4) p] by blast
  ultimately have "tt_loop e (map tt_look_ev (q # qs) @ es) s = tt_loop e es s2" by simp
  moreover have "tt_file s2 = tt_file s @ tt_text b (tt_seen n (tt_loads_at (q # qs)))"
    using s2(2) s1(3) by (simp add: q)
  ultimately show ?case using s1(4,6) s2(3-5) by (intro exI [of _ s2] exI [of _ f]) (simp add: q)
qed (auto intro: exI [of _ "even n"])

lemma tt_loop_interrupted: "tt_interrupted s \<Longrightarrow> tt_loop e es s = Inr ((), s)"
proof (induction es)
  case (Cons ev es)
  have e: "s\<lparr>tt_interrupted := True\<rparr> = s" using Cons.prems by (cases s) simp
  have "tt_loop e (TSig # es) s = tt_loop e es (s\<lparr>tt_interrupted := True\<rparr>)" by (simp add: cm_defs)
  then have "tt_loop e (TSig # es) s = Inr ((), s)" unfolding e using Cons by simp
  then show ?case using Cons.prems by (cases ev) (simp_all add: cm_defs)
qed simp

lemma tt_read_rest:
  "\<forall>i \<in> set is. tt_ram_map e \<and> off + 4 * i + 4 \<le> 1024 * tt_page e \<Longrightarrow> for_c is (\<lambda>i. bind_c (tt_read e (ram i) (off + 4 * i)) (\<lambda>_. ret_c ())) s = Inr ((), s)"
  by (induction "is") (simp_all add: tt_read_def cm_defs)

lemma tt_finish_run:
  fixes s :: "'a trig_test_scheme"
  assumes "tt_ok e" "tt_limit s = pr_flag f" "tt_position s = Some p" "0 \<le> p" "p < 1048576"
  shows "\<exists>s'. tt_finish e ram s = Inr ((), s') \<and> tt_file s' = tt_file s \<and> word_of_nat (get32 (tt_cfg s') 0) AND 7 = (0 :: u32)"
proof -
  let ?lm = "if tt_limit s > 0 then p else wrap32 (p - 512 * 1024)"
  let ?c = "store32 0 (((word_of_nat (get32 (tt_cfg s) 0) AND NOT 1) AND NOT 2) AND NOT 4) (tt_cfg s)"
  have w: "wrap32 (p - 512 * 1024) = p - 524288" using assms(4,5) by (simp add: in_s32_def)
  have b: "\<forall>i \<in> set [0..<nat ?lm]. tt_ram_map e \<and> tt_offset (pr_flag f) + 4 * i + 4 \<le> 1024 * tt_page e"
    using assms unfolding w by (auto simp: tt_ok_def tt_offset_def pr_flag_def split: if_splits)
  have rd: "for_c [0..<nat ?lm] (\<lambda>i. bind_c (tt_read e (ram i) (tt_offset (pr_flag f) + 4 * i)) (\<lambda>_. ret_c ())) t = Inr ((), t)"
    for t :: "'a trig_test_scheme" by (rule tt_read_rest [OF b])
  show ?thesis
  proof (cases f)
    case True
    then show ?thesis using assms(1-3) rd
      by (simp add: tt_finish_def tt_rst_def tt_set_def then_c_def bind_c_def get_c_def mod_c_def tt_ok_def pr_flag_def and.assoc)
  next
    case False
    then show ?thesis using assms(1-3) rd w
      by (simp add: tt_finish_def tt_rst_def tt_set_def then_c_def bind_c_def get_c_def mod_c_def tt_ok_def pr_flag_def and.assoc)
  qed
qed

text \<open>Interrupted before its first look, the program uses a position that was never read.\<close>

lemma tt_early_signal: "tt_position s = None \<Longrightarrow> tt_ok e \<Longrightarrow> tt_finish e ram s = Inl Uninit"
  by (simp add: tt_finish_def tt_ok_def cm_defs)

text \<open>
  C13. What the test of the trigger records, while the FPGA goes on writing.  Whenever the system calls succeed and from each look at the position
  to the end of the next pass the writer advances less than half of its ring, the program returns 0 with the trigger
  in reset, and the file has the lines of exactly the words \<open>tt_seen\<close> says: of every turn of the ring of 2^21 words the first quarter, complete
  and in order; and in place of the second half again words of the first half, old or new.  No load
  is past place 655360, so eleven sixteenths of the stream are never recorded.
\<close>

theorem trigger_test_repeats:
  fixes s :: "'a trig_test_scheme"
  assumes "tt_ok e" "passes_ok 524288 0 0 (tt_times qs)" "\<forall>q \<in> set qs. tt_look_ok b q" "qs \<noteq> []" "\<not> tt_interrupted s"
  shows "\<exists>s'. tt_main e (prog # name # lvl # rest) (map tt_look_ev qs @ TSig # es) ram s = Inr (0, s')
    \<and> word_of_nat (get32 (tt_cfg s') 0) AND 7 = (0 :: u32)
    \<and> tt_file s' = tt_file s @ tt_text b (tt_seen 0 (tt_loads_at qs))
    \<and> (\<forall>ks \<in> set (tt_seen 0 (tt_loads_at qs)). tt_place ks)"
proof -
  let ?s = "s\<lparr>c_out := c_out s @ fmt_d (int (length (prog # name # lvl # rest))) @ [CHR 0x0A], tt_limit := 512 * 1024, tt_position := None, tt_dp := 0, tt_cdp := 0, tt_cnt := 0, tt_pnt := 0\<rparr>"
  obtain t where t: "tt_setup e (atoi lvl) ?s = Inr ((), t)" "tt_file t = tt_file s" "tt_limit t = pr_flag (even 0)" "\<not> tt_interrupted t"
    using tt_setup_run [of e "atoi lvl" ?s] assms(1,5) by (auto simp: tt_ok_def pr_flag_def)
  have "caught_up 524288 0 0" by (simp add: caught_up_def)
  then obtain u f where u: "tt_loop e (map tt_look_ev qs @ TSig # es) t = tt_loop e (TSig # es) u"
      "tt_file u = tt_file t @ tt_text b (tt_seen 0 (tt_loads_at qs))" "tt_limit u = pr_flag f"
      "tt_position u = Some (int (fst (last qs) mod 1048576))"
    using tt_loop_looks [OF assms(1), of t 0 0 0 qs b "TSig # es"] t(3,4) assms(2-4) by auto
  let ?u = "u\<lparr>tt_interrupted := True\<rparr>"
  have l: "tt_loop e (TSig # es) u = Inr ((), ?u)" using tt_loop_interrupted [of ?u e es] by (simp add: then_c_def mod_c_def)
  have "int (fst (last qs) mod 1048576) < 1048576" by simp
  then obtain v where v: "tt_finish e ram ?u = Inr ((), v)" "tt_file v = tt_file u" "word_of_nat (get32 (tt_cfg v) 0) AND 7 = (0 :: u32)"
    using tt_finish_run [OF assms(1), of ?u f "int (fst (last qs) mod 1048576)" ram] u(3,4) by auto
  have "tt_main e (prog # name # lvl # rest) (map tt_look_ev qs @ TSig # es) ram s = Inr (0, v)"
    using assms(1) t(1) u(1) l v(1) by (simp add: tt_main_def tt_ok_def then_c_def ret_c_def printf_def mod_c_def Let_def)
  then show ?thesis using v(2,3) u(2) t(2) tt_seen_places by auto
qed

definition ttenv0 :: ttenv where
  "ttenv0 = \<lparr>tt_fixup = True, tt_fopen = True, tt_mem = 3, tt_cfg_map = True, tt_sts_map = True, tt_ram_map = True, tt_page = 4096\<rparr>"

definition trig_test0 :: trig_test where
  "trig_test0 = \<lparr>c_out = [], c_err = [], tt_cfg = (\<lambda>_. 0), tt_interrupted = False, tt_limit = 0, tt_position = None, tt_file = [],
     tt_dp = 0, tt_cdp = 0, tt_cnt = 0, tt_pnt = 0, tt_naps = 0\<rparr>"

text \<open>Two halves of a stream of triggers: the second look finds the first complete, and the writer goes on while it is printed; the fourth the other.\<close>

definition tt_turns0 :: "tt_turn list" where
  "tt_turns0 = map (\<lambda>(T, E). (T, E, \<lambda>_. E, \<lambda>_ _. 0x40000005)) [(400000, 400000), (700000, 900000), (1000000, 1000000), (1048580, 1300000)]"

theorem trigger_test_repeats_witness:
  "\<exists>s'. tt_main ttenv0 [''trigger_test'', ''data.dat'', ''300''] (map tt_look_ev tt_turns0 @ [TSig]) (\<lambda>_ _. 0) trig_test0 = Inr (0, s')
    \<and> tt_file s' = tt_text (\<lambda>_. 0x40000005) (map (\<lambda>k. (k, k, k)) [0..<524288] @ tt_half 1 (\<lambda>_. 1300000))"
proof -
  let ?b = "\<lambda>_ :: nat. 0x40000005 :: u32"
  have p: "of_u32 400000 = 400000" "of_u32 700000 = 700000" "of_u32 1000000 = 1000000" "of_u32 4 = 4"
    by (simp_all add: of_u32_def)
  have seen: "tt_seen 0 (tt_loads_at tt_turns0) = map (\<lambda>k. (k, k, k)) [0..<524288] @ tt_half 1 (\<lambda>_. 1300000)"
    by (simp add: tt_turns0_def half_done_def pr_flag_def p tt_half_def [of 0] del: upt_rec_numeral)
  have "tt_ok ttenv0" "passes_ok 524288 0 0 (tt_times tt_turns0)" "\<forall>q \<in> set tt_turns0. tt_look_ok ?b q" "tt_turns0 \<noteq> []"
    "\<not> tt_interrupted trig_test0" by (simp_all add: tt_ok_def ttenv0_def trig_test0_def tt_ring_def tt_turns0_def tt_look_ok_def tt_during_def)
  then obtain s' where s': "tt_main ttenv0 [''trigger_test'', ''data.dat'', ''300''] (map tt_look_ev tt_turns0 @ [TSig]) (\<lambda>_ _. 0) trig_test0 = Inr (0, s')"
      "tt_file s' = tt_file trig_test0 @ tt_text ?b (tt_seen 0 (tt_loads_at tt_turns0))"
    using trigger_test_repeats [of ttenv0 tt_turns0 ?b trig_test0 "''trigger_test''" "''data.dat''" "''300''" "[]" "[]" "\<lambda>_ _. 0"] by blast
  have "tt_file trig_test0 = []" by (simp add: trig_test0_def)
  with s'(2) have "tt_file s' = tt_text ?b (map (\<lambda>k. (k, k, k)) [0..<524288] @ tt_half 1 (\<lambda>_. 1300000))" by (simp only: seen append_Nil)
  with s'(1) show ?thesis by blast
qed

end
