(* ===== verification/Pwm_Test.thy ===== *)
theory Pwm_Test
  imports C_String Byte_Mem
begin

text \<open>
  The test of the pulse generator, \<^verbatim>\<open>projects/pwm_test/pwm_test.c\<close>: it resets the generator and sets the length of the pulse to its
  argument.
\<close>

record pwm_st = cio +
  pw_cfg :: "nat \<Rightarrow> u8"

definition pwm_rst :: "(u32 \<Rightarrow> u32) \<Rightarrow> ('a pwm_st_scheme, unit) cm" where
  [cm_defs]: "pwm_rst f = mod_c (\<lambda>s. s\<lparr>pw_cfg := store32 0 (f (word_of_nat (get32 (pw_cfg s) 0))) (pw_cfg s)\<rparr>)"

definition pwm_set :: "int \<Rightarrow> ('a pwm_st_scheme, unit) cm" where
  [cm_defs]: "pwm_set v = mod_c (\<lambda>s. s\<lparr>pw_cfg := store32 4 (to_u32 v) (pw_cfg s)\<rparr>)"

text \<open>
  \<open>mem\<close> is the result of \<open>open\<close>, \<open>ok\<close> whether the mapping succeeds.  The usage text is for \<open>argc < 1\<close>, when there is no name to print
  either; without an argument \<open>atoi\<close> reads the null pointer that ends \<open>argv\<close>.
\<close>

definition pwm_main :: "int \<Rightarrow> bool \<Rightarrow> string list \<Rightarrow> ('a pwm_st_scheme, int) cm" where
  "pwm_main mem ok argv =
     then_c (printf (fmt_d (int (length argv)) @ [CHR 0x0A]))
     (case argv of [] \<Rightarrow> stop_c NullDeref
      | prog # operands \<Rightarrow>
         if mem < 0 then then_c (eprintf ''open'') (ret_c 1)
         else if \<not> ok then stop_c OutOfBounds
         else then_c (seq_c [pwm_rst (\<lambda>v. v AND NOT 1), pwm_rst (\<lambda>v. v OR 1)])
           (case operands of [] \<Rightarrow> stop_c NullDeref
            | a # _ \<Rightarrow> then_c (seq_c [pwm_set (atoi a), pwm_set (atoi a), pwm_set (atoi a), pwm_set (atoi a)]) (ret_c 0)))"

lemma pwm_sets_pulse:
  "0 \<le> mem \<Longrightarrow> \<exists>s'. pwm_main mem True (prog # a # operands) s = Inr (0, s') \<and> get32 (pw_cfg s') 4 = unat (to_u32 (atoi a))
     \<and> get32 (pw_cfg s') 0 = unat ((word_of_nat (get32 (pw_cfg s) 0) :: u32) OR 1)"
proof -
  assume m: "0 \<le> mem"
  have b: "(w AND - 2) OR 1 = w OR 1" for w :: u32
  proof -
    have "(w AND NOT 1) OR 1 = w OR 1" by (rule bit_word_eqI) (auto simp: bit_simps)
    then show ?thesis by simp
  qed
  show ?thesis using m by (simp add: pwm_main_def cm_defs b)
qed

lemma pwm_needs_argument: "0 \<le> mem \<Longrightarrow> pwm_main mem True [prog] s = Inl NullDeref"
  by (simp add: pwm_main_def cm_defs)

end
