(* ===== verification/Spec2Isabelle.thy ===== *)
theory Spec2Isabelle
  imports Daq_Names Daq_Words Main_Modes Lago_V10 Lago_V12 Cma_Driver Memalloc_Test Blink_App Sync_Args
    Rpn_Server Adc_Clients Sig_Gen Adc_Recorder Pipe_Recorder Dac_Player Scope_Dump Adc_Dump Dma_Loopback Xadc_Test Trigger_Test Pwm_Test
begin

text \<open>
  A verification of the data acquisition software of the LAGO cosmic ray detectors for the Red Pitaya
  board.

  \<^bold>\<open>The program.\<close>  The FPGA samples two channels, finds pulses and writes 32-bit words
  (samples, triggers, trigger counters, seconds, rates, positions) into a ring buffer in memory and its position into a
  status register.  \<^verbatim>\<open>projects/lago_v1_5/src/lago.c\<close> parses the command line and, in one of eleven modes, reads or writes
  registers, prints sensor, GPS, voltage or histogram data, or runs the acquisition: its loop waits for the interrupt of
  the FPGA (\<open>wait_for_interrupt\<close>), reads the words written since the last call (\<open>read_buffer\<close>) and writes them as lines of
  text to hourly files (\<open>new_file\<close>).  It uses \<^verbatim>\<open>zynq_io.c\<close> for the registers and mappings, \<^verbatim>\<open>bmp180.c\<close> for the
  pressure sensor on I2C, and \<^verbatim>\<open>gps_rp.c\<close>, \<^verbatim>\<open>nmea_rp.c\<close>, \<^verbatim>\<open>uart_rp.c\<close> for the GPS receiver.  The ring buffer comes from the
  kernel module \<^verbatim>\<open>patches/cma.c\<close>.

  \<^bold>\<open>The model.\<close>  A C function is a function from the state to an error or a result and the new
  state (type \<open>cm\<close> of \<^verbatim>\<open>Lago_Prelude\<close>); the errors are the undefined behaviours of C that the code can
  meet (null pointer, access out of bounds, conversion, uninitialised value, division), \<open>ExitWith\<close>, and \<open>Blocked\<close> for
  a wait that does not end.  The state is a record that grows with the components: standard output and error (\<open>cio\<close>), the mapped
  devices, registers and the log of accesses (\<open>zio\<close>), the serial port (\<open>uart_st\<close>), the globals of the program (\<open>lago\<close>).
  Integers are 32-bit words or integers with the wrap-around written out; floating point numbers are rationals rounded
  as IEEE single and double precision round.  The hardware and the operating system are the fields of the records
  \<open>zenv\<close>, \<open>benv\<close> and \<open>lenv\<close>: what a register reads, what \<open>open\<close>, \<open>mmap\<close>, \<open>ioctl\<close>, \<open>fopen\<close>, \<open>time\<close> and the I2C bus answer.

  \<^bold>\<open>The theories.\<close>
  \<^item> \<^verbatim>\<open>Lago_Prelude\<close>: errors, the monad \<open>cm\<close>, its loops, and the two rules sets the components use: \<open>pres_intro\<close> (what a function keeps)
    and \<open>runs_intro\<close> (that it returns).
  \<^item> \<^verbatim>\<open>C_Float\<close>, \<^verbatim>\<open>C_String\<close>, \<^verbatim>\<open>C_Time\<close>: what the code uses of C: rounding with its error bounds, strings, number parsing and
    printing, \<open>gmtime\<close> and \<open>timegm\<close>, which are inverse to each other.
  \<^item> \<^verbatim>\<open>Zynq_Io\<close> (\<^verbatim>\<open>zynq_io.c\<close>): the registers, set-up of the devices, voltages, start-up.  The locale \<open>reg_bank\<close> says
    what a sequence of register updates leaves; the start-up is an instance.
  \<^item> \<^verbatim>\<open>Bmp180\<close> (\<^verbatim>\<open>bmp180.c\<close>): the ROM coefficients are decoded right, readings are in range, and in the range of the sensor the
    32-bit compensation equals the formula over the integers but for two operations that are taken modulo 2^32, one of which does wrap around.
  \<^item> \<^verbatim>\<open>Uart\<close>, \<^verbatim>\<open>Nmea\<close>, \<^verbatim>\<open>Gps\<close> (\<^verbatim>\<open>uart_rp.c\<close>, \<^verbatim>\<open>nmea_rp.c\<close>, \<^verbatim>\<open>gps_rp.c\<close>): a line of the receiver is delivered, checked and
    parsed, and a position is acquired after finitely many lines.
  \<^item> \<^verbatim>\<open>Lago_State\<close>, \<^verbatim>\<open>Lago_Args\<close>: the globals of \<^verbatim>\<open>lago.c\<close> and \<open>parse_param\<close>; one mode is chosen, voltages are limited.
  \<^item> \<^verbatim>\<open>Lago_Daq\<close>, \<^verbatim>\<open>Daq_Ring\<close>, \<^verbatim>\<open>Daq_Clock\<close>, \<^verbatim>\<open>Daq_Names\<close>, \<^verbatim>\<open>Daq_Words\<close>: \<open>new_file\<close> and \<open>read_buffer\<close>.  The readout refines a reader of a ring that takes
    consecutive words (locale \<open>ring_reader\<close>); every second word advances the clock and every full hour opens one file, and the names sort by time;
    samples are printed with their signed values and lost pulses are counted.
  \<^item> \<^verbatim>\<open>Lago_Main\<close>, \<^verbatim>\<open>Daq_Total\<close>, \<^verbatim>\<open>Daq_Run\<close>, \<^verbatim>\<open>Main_Modes\<close>: \<open>main\<close>, the interrupt threads, and the runs of the whole program: an acquisition reads
    consecutive words for every interleaving of loop, thread and signal and restores the
    control register; from the command line it returns after SIGINT while the writer stays in the 4 MB \<open>cma_init\<close> maps, and
    the readout never returns past them; voltages and histograms from the command line.
  \<^item> \<^verbatim>\<open>Lago_V13\<close> (\<^verbatim>\<open>projects/lago_v1_3/src\<close>): the functions of the previous release that differ.  Its command line and start-up
    agree with the current one; its readout skips words and stops after one turn of the ring.  \<^verbatim>\<open>Lago_V12\<close>
    (\<^verbatim>\<open>projects/lago_v1_2/src\<close>): the release before, whose readout is the current one.  \<^verbatim>\<open>Lago_V10\<close> (\<^verbatim>\<open>projects/lago_v1_0/src\<close>): the first one, which
    maps 8 MB of memory at a fixed address; its readout is a second instance of \<open>ring_reader\<close> and, unlike that of the current release, never
    reads past the mapping; its status report shows a wrong voltage.
  \<^item> \<^verbatim>\<open>Kernel_Dma\<close>, \<^verbatim>\<open>Cma_Driver\<close> (\<^verbatim>\<open>patches/cma.c\<close>), \<^verbatim>\<open>Memalloc_Driver\<close> (\<^verbatim>\<open>apps/dma/dma_driver\<close>): the allocator modules of the kernel; the locale
    \<open>driver_module\<close> is the contract both are instances of.  They own exactly the buffers they record.
  \<^item> \<^verbatim>\<open>Blink_Driver\<close> (\<^verbatim>\<open>apps/dma/LKM\<close>): a driver that at most one process has open.
  \<^item> \<^verbatim>\<open>Half_Buffer\<close>, \<^verbatim>\<open>Adc_Server\<close> (\<^verbatim>\<open>projects/adc_test/server\<close>), \<^verbatim>\<open>Rpn_Server\<close> (\<^verbatim>\<open>projects/adc_test/rpn_server\<close>), \<^verbatim>\<open>Adc_Recorder\<close>
    (\<^verbatim>\<open>projects/dac_player/app/adc-recorder.c\<close>): programs that empty a buffer of two halves; locale \<open>half_reader\<close>.  The first server sends the
    halves in turn, the second copies each and its clients receive the stream, the recorder's file is the stream.  Copying takes time: byte \<open>k\<close> is read from the
    memory \<open>ram k\<close> of that moment (\<open>read_during\<close>), and the condition (\<open>passes_ok\<close>) is that from each look at the position to the end of the copy
    of the next pass the FPGA writes fewer words than a half has.
  \<^item> \<^verbatim>\<open>Pipe_Recorder\<close> (\<^verbatim>\<open>projects/dac_player/adc-recorder.c\<close>): two processes, a pipe and a shared buffer; for every interleaving that
    lets the parent write a half before the child overwrites it the file is the stream.
  \<^item> \<^verbatim>\<open>Dac_Player\<close> (\<^verbatim>\<open>projects/dac_player/app/dac-player.c\<close>, and the first version beside \<^verbatim>\<open>app\<close>): the words of the file reach the FIFO in order, each block
    when the FIFO is at most half full.
  \<^item> \<^verbatim>\<open>Adc_Clients\<close>, \<^verbatim>\<open>Sig_Gen\<close> (\<^verbatim>\<open>projects/adc_test\<close>): the clients of the servers and the tools that set the test signals.
  \<^item> \<^verbatim>\<open>Byte_Mem\<close>, \<^verbatim>\<open>Sample_Lines\<close>: registers and buffers as bytes, and the lines of two samples; shared by
    \<^verbatim>\<open>Scope_Dump\<close> (\<^verbatim>\<open>projects/adc_recorder_trigger\<close>), which prints a window of the ring around the trigger, \<^verbatim>\<open>Adc_Dump\<close> (\<^verbatim>\<open>projects/adc_recorder\<close>,
    both versions), and \<^verbatim>\<open>Dma_Test\<close> (\<^verbatim>\<open>projects/dma_test/dma_test.c\<close>), which prints another area than the one the DMA engine fills.
  \<^item> \<^verbatim>\<open>Dma_Loopback\<close> (\<^verbatim>\<open>projects/dma_loopback\<close>, \<^verbatim>\<open>projects/dma_lago\<close>, \<^verbatim>\<open>projects/counter_dma\<close>, \<^verbatim>\<open>apps/dma/dma_test\<close>): the other tests of the
    DMA engine; the loopback test shows exactly whether the engine has copied.  The engine is a function of the writes to its registers.
  \<^item> \<^verbatim>\<open>Memalloc_Test\<close> (\<^verbatim>\<open>apps/dma/dma_driver/test.c\<close>), \<^verbatim>\<open>Blink_App\<close> (\<^verbatim>\<open>apps/dma/LKM/linux_blinkled_app.c\<close>): the user programs on top of the models of the
    two drivers.
  \<^item> \<^verbatim>\<open>Sync_Args\<close> (\<^verbatim>\<open>apps/lago/lago.c\<close>): the command line of the first generation; \<^verbatim>\<open>Xadc_Test\<close> (\<^verbatim>\<open>projects/xadc_test/xadc_uio.c\<close>): the
    converter test and the ranges of what it prints.
  \<^item> \<^verbatim>\<open>Trigger_Test\<close> (\<^verbatim>\<open>projects/trigger_test\<close>): which words of the stream the test records, and which it misses, with the
    position in words of 8 bytes and every load from the memory of its moment; \<^verbatim>\<open>Pwm_Test\<close>
    (\<^verbatim>\<open>projects/pwm_test\<close>).
  \<^item> This theory: the buffer from the kernel module through \<open>cma_init\<close> to the address register of the FPGA.

  \<^bold>\<open>Concurrency, fuel and bounds.\<close>  A run of the acquisition is given by the sequence of its events (a pass of the loop with the
  contents of the memory it sees, a wait of the thread, SIGINT); the theorems hold for every sequence.  Waiting calls
  (the serial line, the histogram counter, the loops) end with \<open>Blocked\<close> when their input ends; the liveness
  theorems show that the given input is enough.  The programs of two processes, the players and the servers are runs over a
  sequence of their steps in the same way.  Fuel is used by three loops: \<open>hist_loop\<close>, the number of polls, where the
  theorem says that the loop returns exactly when the counter reaches the limit within them; \<open>blink_loop\<close>, the number of passes,
  where as many as numbers were typed are shown to be enough; and \<open>sync_loop\<close>, the number of
  status values there are to read, after which the wait is blocked.
  The ring has 8388608 bytes (\<open>limit\<close>), the mapping of \<open>cma_init\<close> 1024 pages, with pages of 4096 bytes half of it; a call of \<open>read_buffer\<close> returns
  exactly while the positions go on and stay in the mapping, which is the condition on the hardware under which a run
  is shown to end.  The writer of the FPGA design has a ring of 32 MB, so a long run leaves the mapping.

  \<^bold>\<open>Not modelled.\<close>  The test programs for
  GPIO and memory (third-party code); \<^verbatim>\<open>projects/dma_lauri/dma_test_h.c\<close>, which uses constants that it does not define, and \<^verbatim>\<open>otro_dma.c\<close> beside it, which
  gives an integer as the mode of \<open>fopen\<close>; the vendor examples under \<^verbatim>\<open>apps/dma\<close>; the Xilinx drivers and examples (third-party code); the VHDL of the FPGA, whose
  registers and memory are parameters; in \<open>perror\<close> the text the system adds.
\<close>

section \<open>The sample buffer, from the driver to the FPGA\<close>

text \<open>
  The request \<open>cma_init\<close> makes of \<^verbatim>\<open>/dev/cma\<close>, answered by the module itself: the C library gives a
  negative result of the driver as -1, which is all \<open>cma_init\<close> tests; the word at the address it passed
  is what the driver leaves there.
\<close>

definition driver_cma :: "cma_st \<Rightarrow> int \<Rightarrow> alloc \<Rightarrow> int \<Rightarrow> u32 \<Rightarrow> u32 option" where
  "driver_cma k n_in r n_out sz = (case cma_ioctl CMA_ALLOC sz n_in r n_out k of
       Inr ((rc, w), _) \<Rightarrow> if rc < 0 then None else Some w | Inl _ \<Rightarrow> None)"

definition fpga_address :: "u32 \<Rightarrow> int \<Rightarrow> alloc \<Rightarrow> int \<Rightarrow> u32" where
  "fpga_address sz n_in r n_out = (case r of AOk a h \<Rightarrow> if n_in = 0 \<and> n_out = 0 then h else sz | _ \<Rightarrow> sz)"

lemma driver_cma_eq:
  assumes "owned k" "0 \<le> n_in" "0 \<le> n_out" "\<forall>e. r = AErr e \<longrightarrow> e < 0"
  shows "driver_cma k n_in r n_out sz = (if n_in \<noteq> 0 then Some sz else case r of AOk a h \<Rightarrow> Some (fpga_address sz n_in r n_out) | _ \<Rightarrow> None)"
  using assms cma_free_run [OF assms(1)]
  by (cases r) (auto simp: driver_cma_def cma_ioctl_def cm_defs dma_alloc_coherent_def fpga_address_def ENOMEM_def)

lemma cma_init_size:
  assumes "1 \<le> os_open z ''/dev/cma''"
  shows "\<exists>v s'. cma_init z s = Inr (v, s') \<and> cfg_mem s' = cfg_mem s \<and> (\<forall>d. d \<noteq> Cma \<longrightarrow> ptrs s' d = ptrs s d)
    \<and> dev_size s' = (case os_cma z (of_nat (1024 * pagesize z)) of None \<Rightarrow> of_nat (1024 * pagesize z) | Some w \<Rightarrow> w)"
  using assms by (auto simp: cma_init_def open_dev_def mmap_dev_def set_size_def cm_defs Let_def split: option.splits)

text \<open>
  C15. Where the FPGA writes: when the driver allocates the buffer and both copies of the request succeed, the
  address register holds the address of the buffer the driver now owns, whose size is the one asked for;
  when the allocation fails or a copy faults, \<open>main\<close> goes on and the register holds the size of
  the request, an address nothing was allocated at.
\<close>

theorem writer_address_from_driver:
  assumes "owned k" "0 \<le> n_in" "0 \<le> n_out" "\<forall>e. r = AErr e \<longrightarrow> e < 0" "mapped s Cfg 92"
    and "1 \<le> os_open (le_z env) ''/dev/cma''" "os_cma (le_z env) = driver_cma k n_in r n_out" "sz = of_nat (1024 * pagesize (le_z env))"
  shows "(\<exists>s'. then_c (cma_init (le_z env)) (writer_address env) s = Inr ((), s')
      \<and> cfg_mem s' (cfg_off CFG_WR_ADDR) = fpga_address sz n_in r n_out)
    \<and> (\<forall>a h. r = AOk a h \<and> n_in = 0 \<and> n_out = 0 \<longrightarrow>
        (\<exists>k'. cma_ioctl CMA_ALLOC sz n_in r n_out k = Inr ((0, h), k') \<and> live k' = [\<lparr>d_addr = a, d_size = sz, d_handle = h\<rparr>]))"
proof -
  obtain v t where t: "cma_init (le_z env) s = Inr (v, t)" "\<forall>d. d \<noteq> Cma \<longrightarrow> ptrs t d = ptrs s d"
      "dev_size t = (case driver_cma k n_in r n_out sz of None \<Rightarrow> sz | Some w \<Rightarrow> w)"
    using cma_init_size [OF assms(6), of s] unfolding assms(7,8) by blast
  have "mapped t Cfg 92" using t(2) assms(5) by (simp add: mapped_def)
  moreover have "dev_size t = fpga_address sz n_in r n_out"
    unfolding t(3) driver_cma_eq [OF assms(1-4)] by (cases r) (simp_all add: fpga_address_def)
  ultimately obtain s' where "writer_address env t = Inr ((), s')" "cfg_mem s' (cfg_off CFG_WR_ADDR) = fpga_address sz n_in r n_out"
    using writer_address_run [of t env] by (auto simp del: cfg_off.simps)
  with t(1) have "\<exists>s'. then_c (cma_init (le_z env)) (writer_address env) s = Inr ((), s')
      \<and> cfg_mem s' (cfg_off CFG_WR_ADDR) = fpga_address sz n_in r n_out" by (simp add: then_c_def del: cfg_off.simps)
  moreover have "\<forall>a h. r = AOk a h \<and> n_in = 0 \<and> n_out = 0 \<longrightarrow>
      (\<exists>k'. cma_ioctl CMA_ALLOC sz n_in r n_out k = Inr ((0, h), k') \<and> live k' = [\<lparr>d_addr = a, d_size = sz, d_handle = h\<rparr>])"
    using cma_free_run [OF assms(1)] by (auto simp: cma_ioctl_def cm_defs dma_alloc_coherent_def)
  ultimately show ?thesis by blast
qed

definition cma_lenv :: "alloc \<Rightarrow> lenv" where
  "cma_lenv r = sample_lenv\<lparr>le_z := sample_env\<lparr>os_cma := driver_cma cma0 0 r 0\<rparr>\<rparr>"

theorem writer_address_from_driver_witness:
  "(\<exists>s'. then_c (cma_init (le_z (cma_lenv (AOk 7 0x1E000000)))) (writer_address (cma_lenv (AOk 7 0x1E000000))) daq_lago = Inr ((), s')
      \<and> cfg_mem s' (cfg_off CFG_WR_ADDR) = 0x1E000000)
    \<and> (\<exists>s'. then_c (cma_init (le_z (cma_lenv ANull))) (writer_address (cma_lenv ANull)) daq_lago = Inr ((), s')
      \<and> cfg_mem s' (cfg_off CFG_WR_ADDR) = 0x400000)"
proof -
  have k: "owned cma0" "mapped daq_lago Cfg 92" by (simp_all add: cma0_def owned_def daq_lago_ok)
  have e: "1 \<le> os_open (le_z (cma_lenv r)) ''/dev/cma''" "os_cma (le_z (cma_lenv r)) = driver_cma cma0 0 r 0"
    "0x400000 = of_nat (1024 * pagesize (le_z (cma_lenv r)))" for r
    by (simp_all add: cma_lenv_def sample_env_def)
  show ?thesis
    using writer_address_from_driver [OF k(1) _ _ _ k(2) e, of "AOk 7 0x1E000000"] writer_address_from_driver [OF k(1) _ _ _ k(2) e, of ANull]
    by (simp add: fpga_address_def del: cfg_off.simps)
qed

end
